theory Spec2Isabelle
  imports Complex_Main
begin

section \<open>Python values, errors and the numpy array operations the code uses\<close>

text \<open>
  The module \<^verbatim>\<open>legwork/source.py\<close> holds the class \<^verbatim>\<open>Source\<close>. Its arrays are
  one-dimensional numpy arrays, modelled as lists. Floating-point numbers are modelled as
  \<^typ>\<open>real\<close>: the theory follows what the code selects, compares, routes and stores, with
  exact arithmetic in place of IEEE rounding (and no NaN). Physical units are not
  tracked on the stored arrays; whether a constructor argument carries a unit at all is
  part of \<open>pyobj\<close>.
\<close>

datatype error =
    ValueError string
  | IndexError string
  | AssertionError string
  | UnitConversionError string

datatype pyobj =
    PyNone
  | PyBool bool
  | PyInt int
  | PyFloat real
  | PyStr string
  | PyArray "real list"
  | PyQuantity "real list" string

text \<open>
  The values of the dictionary \<^verbatim>\<open>sc_params\<close> are the keyword arguments of
  \<^verbatim>\<open>lisa.power_spectral_density\<close>: \<^verbatim>\<open>None\<close>, booleans, numbers, strings, and a scalar
  quantity (a number with a unit, as \<^verbatim>\<open>4 * u.yr\<close> for \<^verbatim>\<open>t_obs\<close>). Array-valued
  parameters are outside the model.
\<close>

datatype param =
    ParamNone
  | ParamBool bool
  | ParamInt int
  | ParamFloat real
  | ParamStr string
  | ParamQuantity real string

text \<open>Sequencing of computations that may raise: the first exception wins.\<close>

definition err_bind :: "error + 'a \<Rightarrow> ('a \<Rightarrow> error + 'b) \<Rightarrow> error + 'b" where
  "err_bind m f = (case m of Inl e \<Rightarrow> Inl e | Inr x \<Rightarrow> f x)"

text \<open>A Python \<^verbatim>\<open>for\<close> loop over a list whose body updates one variable and may raise.\<close>

fun for_each :: "('a \<Rightarrow> 's \<Rightarrow> error + 's) \<Rightarrow> 'a list \<Rightarrow> 's \<Rightarrow> error + 's" where
  "for_each body [] s = Inr s"
| "for_each body (x # xs) s = err_bind (body x s) (for_each body xs)"

text \<open>\<^verbatim>\<open>mask.any()\<close>\<close>

definition np_any :: "bool list \<Rightarrow> bool" where
  "np_any msk = list_ex (\<lambda>b. b) msk"

text \<open>The number of selected positions of a mask, and of those before position \<open>i\<close>.\<close>

definition count_true :: "bool list \<Rightarrow> nat" where
  "count_true msk = length (filter (\<lambda>b. b) msk)"

definition rank :: "bool list \<Rightarrow> nat \<Rightarrow> nat" where
  "rank msk i = count_true (take i msk)"

text \<open>
  \<^verbatim>\<open>np.logical_and(p, q)\<close> on one-dimensional arrays: elementwise on equal lengths, an
  array of length one is broadcast, any other pair of lengths raises.
\<close>

definition logical_and :: "bool list \<Rightarrow> bool list \<Rightarrow> error + bool list" where
  "logical_and p q =
     (if length p = length q then Inr (map (\<lambda>(x, y). x \<and> y) (zip p q))
      else if length p = 1 then Inr (map (\<lambda>y. hd p \<and> y) q)
      else if length q = 1 then Inr (map (\<lambda>x. x \<and> hd q) p)
      else Inl (ValueError ''operands could not be broadcast together''))"

text \<open>
  \<^verbatim>\<open>a[mask]\<close> with a boolean mask: the selected entries, in order. A mask of another
  length raises, except the empty mask, which selects nothing from an array of any length.
\<close>

definition getitem_mask :: "'a list \<Rightarrow> bool list \<Rightarrow> error + 'a list" where
  "getitem_mask a msk =
     (if msk \<noteq> [] \<and> length msk \<noteq> length a
      then Inl (IndexError ''boolean index did not match indexed array'')
      else Inr (map snd (filter fst (zip msk a))))"

text \<open>
  \<^verbatim>\<open>a[mask] = vals\<close> with a boolean mask: the \<open>k\<close>-th selected position receives the
  \<open>k\<close>-th value; a single value is broadcast to all selected positions; any other
  number of values raises. The other positions keep their entries.
\<close>

definition setitem_mask :: "'a list \<Rightarrow> bool list \<Rightarrow> 'a list \<Rightarrow> error + 'a list" where
  "setitem_mask a msk vals =
     (if length msk \<noteq> length a
      then Inl (IndexError ''boolean index did not match indexed array'')
      else if length vals = count_true msk
      then Inr (map (\<lambda>i. if msk ! i then vals ! rank msk i else a ! i) [0..<length a])
      else if length vals = 1
      then Inr (map (\<lambda>i. if msk ! i then vals ! 0 else a ! i) [0..<length a])
      else Inl (ValueError ''cannot assign input values to the output values where the mask is true''))"

section \<open>The Source object and its collaborators\<close>

text \<open>
  The attributes \<^verbatim>\<open>__init__\<close> and the setters store. \<open>harmonics_required\<close>,
  \<open>ecc_tol\<close>, \<open>g_interp\<close> (\<^verbatim>\<open>self.g\<close>) and \<open>sc_interp\<close>
  (\<^verbatim>\<open>self.sc\<close>) are the cached results of
  \<^verbatim>\<open>create_harmonics_functions\<close>, \<^verbatim>\<open>find_eccentric_transition\<close>, \<^verbatim>\<open>set_g\<close> and
  \<^verbatim>\<open>set_sc\<close>; a callable that is \<^verbatim>\<open>None\<close> is \<open>None\<close> here.
\<close>

record source =
  m_1 :: "real list"
  m_2 :: "real list"
  m_c :: "real list"
  ecc :: "real list"
  dist_lum :: "real list"
  stat_tol :: real
  f_orb :: "real list"
  a_sma :: "real list"
  n_proc :: nat
  snr :: "real list option"
  n_sources :: nat
  interpolate_sc :: bool
  sc_params :: "string \<rightharpoonup> param"
  gw_lum_tol :: real
  harmonics_required :: "real \<Rightarrow> int"
  ecc_tol :: real
  g_interp :: "(real \<Rightarrow> real \<Rightarrow> real) option"
  sc_interp :: "(real \<Rightarrow> real) option"

text \<open>
  The functions of \<^verbatim>\<open>legwork.snr\<close>, \<^verbatim>\<open>legwork.utils\<close> and \<^verbatim>\<open>legwork.lisa\<close> that
  the class calls are not part of the module; they are parameters, with the arguments in
  the order in which the calls name them.
\<close>

record externals =
  snr_circ_stationary ::
    "real list \<Rightarrow> real list \<Rightarrow> real list \<Rightarrow> real
       \<Rightarrow> (real \<Rightarrow> real \<Rightarrow> real) option \<Rightarrow> (real \<Rightarrow> real) option \<Rightarrow> real list"
  snr_ecc_stationary ::
    "real list \<Rightarrow> real list \<Rightarrow> real list \<Rightarrow> real list \<Rightarrow> real \<Rightarrow> int
       \<Rightarrow> (real \<Rightarrow> real \<Rightarrow> real) option \<Rightarrow> (real \<Rightarrow> real) option \<Rightarrow> real list"
  snr_circ_evolving ::
    "real list \<Rightarrow> real list \<Rightarrow> real list \<Rightarrow> real list \<Rightarrow> real \<Rightarrow> nat
       \<Rightarrow> (real \<Rightarrow> real \<Rightarrow> real) option \<Rightarrow> (real \<Rightarrow> real) option \<Rightarrow> real list"
  snr_ecc_evolving ::
    "real list \<Rightarrow> real list \<Rightarrow> real list \<Rightarrow> real list \<Rightarrow> real list \<Rightarrow> int \<Rightarrow> real \<Rightarrow> nat
       \<Rightarrow> (real \<Rightarrow> real \<Rightarrow> real) option \<Rightarrow> (real \<Rightarrow> real) option \<Rightarrow> nat \<Rightarrow> real list"
  determine_stationarity ::
    "real list \<Rightarrow> real list \<Rightarrow> real \<Rightarrow> real list \<Rightarrow> real \<Rightarrow> bool list"

section \<open>get_source_mask\<close>

definition get_source_mask ::
  "externals \<Rightarrow> source \<Rightarrow> pyobj \<Rightarrow> pyobj \<Rightarrow> real \<Rightarrow> error + bool list" where
  "get_source_mask X S circular stationary t_obs =
     err_bind
       (if circular = PyNone then Inr (replicate (n_sources S) True)
        else if circular = PyBool True then Inr (map (\<lambda>e. e \<le> ecc_tol S) (ecc S))
        else if circular = PyBool False then Inr (map (\<lambda>e. e > ecc_tol S) (ecc S))
        else Inl (ValueError ''`circular` must be None, True or False''))
       (\<lambda>circular_mask.
     err_bind
       (if stationary = PyNone then Inr (replicate (n_sources S) True)
        else if stationary = PyBool True \<or> stationary = PyBool False then
          (let stat_mask = determine_stationarity X (m_c S) (f_orb S) t_obs (ecc S) (stat_tol S)
           in Inr (if stationary = PyBool False then map Not stat_mask else stat_mask))
        else Inl (ValueError ''`stationary` must be None, True or False''))
       (\<lambda>stat_mask. logical_and circular_mask stat_mask))"

section \<open>get_snr_stationary and get_snr_evolving\<close>

definition harmonic_groups :: "(int \<times> int) list" where
  "harmonic_groups = [(1, 10), (10, 100), (100, 1000), (1000, 10000)]"

text \<open>
  The messages printed when \<^verbatim>\<open>verbose\<close> is set have no effect on the result and are
  left out of both functions.
\<close>

text \<open>The mask \<^verbatim>\<open>match\<close> of one pass of the loop over the harmonic groups.\<close>

definition bucket_match :: "int list \<Rightarrow> bool list \<Rightarrow> int \<times> int \<Rightarrow> error + bool list" where
  "bucket_match hreq ind_ecc grp =
     (case grp of (lower, upper) \<Rightarrow>
        err_bind (logical_and (map (\<lambda>h. h \<ge> lower) hreq) (map (\<lambda>h. h < upper) hreq))
          (\<lambda>harm_mask. logical_and harm_mask ind_ecc))"

text \<open>The body of the loop over the harmonic groups, stationary case.\<close>

definition ecc_group_stationary ::
  "externals \<Rightarrow> source \<Rightarrow> real \<Rightarrow> int list \<Rightarrow> bool list \<Rightarrow> int \<times> int \<Rightarrow> real list
     \<Rightarrow> error + real list" where
  "ecc_group_stationary X S t_obs hreq ind_ecc grp snr_arr =
     err_bind (bucket_match hreq ind_ecc grp) (\<lambda>match.
       if np_any match then
         (let hr = snd grp - 1 in
          err_bind (getitem_mask (m_c S) match) (\<lambda>mc.
          err_bind (getitem_mask (f_orb S) match) (\<lambda>fo.
          err_bind (getitem_mask (ecc S) match) (\<lambda>ec.
          err_bind (getitem_mask (dist_lum S) match) (\<lambda>di.
            setitem_mask snr_arr match
              (snr_ecc_stationary X mc fo ec di t_obs hr (g_interp S) (sc_interp S)))))))
       else Inr snr_arr)"

text \<open>
  The array \<^verbatim>\<open>snr\<close> of \<^verbatim>\<open>get_snr_stationary\<close> just before the final
  \<^verbatim>\<open>return snr[which_sources]\<close>, with the mask \<^verbatim>\<open>which_sources\<close> after its default.
\<close>

definition which_or_all :: "source \<Rightarrow> bool list option \<Rightarrow> bool list" where
  "which_or_all S which_sources =
     (case which_sources of None \<Rightarrow> replicate (n_sources S) True | Some w \<Rightarrow> w)"

definition snr_stationary_full ::
  "externals \<Rightarrow> source \<Rightarrow> real \<Rightarrow> bool list \<Rightarrow> error + real list" where
  "snr_stationary_full X S t_obs which =
     (let snr0 = replicate (n_sources S) 0 in
      err_bind (logical_and (map (\<lambda>e. e > ecc_tol S) (ecc S)) which) (\<lambda>ind_ecc.
      err_bind (logical_and (map (\<lambda>e. e \<le> ecc_tol S) (ecc S)) which) (\<lambda>ind_circ.
      err_bind
        (if np_any ind_circ then
           err_bind (getitem_mask (m_c S) ind_circ) (\<lambda>mc.
           err_bind (getitem_mask (f_orb S) ind_circ) (\<lambda>fo.
           err_bind (getitem_mask (dist_lum S) ind_circ) (\<lambda>di.
             setitem_mask snr0 ind_circ
               (snr_circ_stationary X mc fo di t_obs (g_interp S) (sc_interp S)))))
         else Inr snr0) (\<lambda>snr1.
      if np_any ind_ecc then
        for_each
          (ecc_group_stationary X S t_obs (map (harmonics_required S) (ecc S)) ind_ecc)
          harmonic_groups snr1
      else Inr snr1))))"

definition get_snr_stationary ::
  "externals \<Rightarrow> source \<Rightarrow> real \<Rightarrow> bool list option \<Rightarrow> error + real list" where
  "get_snr_stationary X S t_obs which_sources =
     (let which = which_or_all S which_sources in
      err_bind (snr_stationary_full X S t_obs which) (\<lambda>snr_arr. getitem_mask snr_arr which))"

text \<open>The body of the loop over the harmonic groups, evolving case.\<close>

definition ecc_group_evolving ::
  "externals \<Rightarrow> source \<Rightarrow> real \<Rightarrow> nat \<Rightarrow> int list \<Rightarrow> bool list \<Rightarrow> int \<times> int \<Rightarrow> real list
     \<Rightarrow> error + real list" where
  "ecc_group_evolving X S t_obs n_step hreq ind_ecc grp snr_arr =
     err_bind (bucket_match hreq ind_ecc grp) (\<lambda>match.
       if np_any match then
         (let hr = snd grp - 1 in
          err_bind (getitem_mask (m_1 S) match) (\<lambda>m1.
          err_bind (getitem_mask (m_2 S) match) (\<lambda>m2.
          err_bind (getitem_mask (f_orb S) match) (\<lambda>fo.
          err_bind (getitem_mask (dist_lum S) match) (\<lambda>di.
          err_bind (getitem_mask (ecc S) match) (\<lambda>ec.
            setitem_mask snr_arr match
              (snr_ecc_evolving X m1 m2 fo di ec hr t_obs n_step (g_interp S) (sc_interp S) (n_proc S))))))))
       else Inr snr_arr)"

definition snr_evolving_full ::
  "externals \<Rightarrow> source \<Rightarrow> real \<Rightarrow> nat \<Rightarrow> bool list \<Rightarrow> error + real list" where
  "snr_evolving_full X S t_obs n_step which =
     (let snr0 = replicate (n_sources S) 0 in
      err_bind (logical_and (map (\<lambda>e. e > ecc_tol S) (ecc S)) which) (\<lambda>ind_ecc.
      err_bind (logical_and (map (\<lambda>e. e \<le> ecc_tol S) (ecc S)) which) (\<lambda>ind_circ.
      err_bind
        (if np_any ind_circ then
           err_bind (getitem_mask (m_1 S) ind_circ) (\<lambda>m1.
           err_bind (getitem_mask (m_2 S) ind_circ) (\<lambda>m2.
           err_bind (getitem_mask (f_orb S) ind_circ) (\<lambda>fo.
           err_bind (getitem_mask (dist_lum S) ind_circ) (\<lambda>di.
             setitem_mask snr0 ind_circ
               (snr_circ_evolving X m1 m2 fo di t_obs n_step (g_interp S) (sc_interp S))))))
         else Inr snr0) (\<lambda>snr1.
      if np_any ind_ecc then
        for_each
          (ecc_group_evolving X S t_obs n_step (map (harmonics_required S) (ecc S)) ind_ecc)
          harmonic_groups snr1
      else Inr snr1))))"

definition get_snr_evolving ::
  "externals \<Rightarrow> source \<Rightarrow> real \<Rightarrow> nat \<Rightarrow> bool list option \<Rightarrow> error + real list" where
  "get_snr_evolving X S t_obs n_step which_sources =
     (let which = which_or_all S which_sources in
      err_bind (snr_evolving_full X S t_obs n_step which)
        (\<lambda>snr_arr. getitem_mask snr_arr which))"

section \<open>get_snr\<close>

text \<open>
  \<^verbatim>\<open>Source.get_snr\<close>. The warning it may print about \<^verbatim>\<open>t_obs\<close> and the \<^verbatim>\<open>verbose\<close>
  messages have no effect on the result and are left out. The result is the object with
  \<^verbatim>\<open>self.snr\<close> set, and the returned array.
\<close>

definition get_snr ::
  "externals \<Rightarrow> source \<Rightarrow> real \<Rightarrow> nat \<Rightarrow> error + (source \<times> real list)" where
  "get_snr X S t_obs n_step =
     (let snr0 = replicate (n_sources S) 0 in
      err_bind (get_source_mask X S PyNone (PyBool True) t_obs) (\<lambda>stat_mask.
      let evol_mask = map Not stat_mask in
      err_bind
        (if np_any stat_mask then
           err_bind (get_snr_stationary X S t_obs (Some stat_mask))
             (\<lambda>vals. setitem_mask snr0 stat_mask vals)
         else Inr snr0) (\<lambda>snr1.
      err_bind
        (if np_any evol_mask then
           err_bind (get_snr_evolving X S t_obs n_step (Some evol_mask))
             (\<lambda>vals. setitem_mask snr1 evol_mask vals)
         else Inr snr1) (\<lambda>snr2.
      Inr (S\<lparr>snr := Some snr2\<rparr>, snr2)))))"

section \<open>Well-formed objects and collaborators\<close>

text \<open>
  The constructor checks that all arrays have the length \<^verbatim>\<open>n_sources\<close>, and the functions
  of \<^verbatim>\<open>legwork.snr\<close> return one value per source they are given.
\<close>

definition well_formed :: "source \<Rightarrow> bool" where
  "well_formed S \<longleftrightarrow>
     length (m_1 S) = n_sources S \<and> length (m_2 S) = n_sources S \<and>
     length (m_c S) = n_sources S \<and> length (ecc S) = n_sources S \<and>
     length (dist_lum S) = n_sources S \<and> length (f_orb S) = n_sources S \<and>
     length (a_sma S) = n_sources S"

definition well_shaped :: "externals \<Rightarrow> bool" where
  "well_shaped X \<longleftrightarrow>
     (\<forall>mc fo di t gi si. length (snr_circ_stationary X mc fo di t gi si) = length mc) \<and>
     (\<forall>mc fo ec di t hr gi si. length (snr_ecc_stationary X mc fo ec di t hr gi si) = length mc) \<and>
     (\<forall>m1 m2 fo di t n gi si. length (snr_circ_evolving X m1 m2 fo di t n gi si) = length m1) \<and>
     (\<forall>m1 m2 fo di ec hr t n gi si np.
        length (snr_ecc_evolving X m1 m2 fo di ec hr t n gi si np) = length m1)"

section \<open>A small batch\<close>

text \<open>
  Four sources: a circular and an eccentric one that are stationary, a circular and an
  eccentric one that are evolving. The last needs 10000 harmonics. The collaborators
  return recognisable constants: 1 and 3 for the circular formulas, and the harmonic cut-off
  they are given plus 2 or 4 for the eccentric ones.
\<close>

definition example_externals :: externals where
  "example_externals =
     \<lparr> snr_circ_stationary = (\<lambda>mc fo di t gi si. map (\<lambda>_. 1) mc),
       snr_ecc_stationary = (\<lambda>mc fo ec di t hr gi si. map (\<lambda>_. 2 + real_of_int hr) mc),
       snr_circ_evolving = (\<lambda>m1 m2 fo di t n gi si. map (\<lambda>_. 3) m1),
       snr_ecc_evolving = (\<lambda>m1 m2 fo di ec hr t n gi si np. map (\<lambda>_. 4 + real_of_int hr) m1),
       determine_stationarity = (\<lambda>mc fo t ec st. map (\<lambda>f. f < 1) fo) \<rparr>"

definition example_source :: source where
  "example_source =
     \<lparr> m_1 = [10, 10, 10, 10], m_2 = [10, 10, 10, 10], m_c = [9, 9, 9, 9],
       ecc = [0, 1/2, 0, 9/10], dist_lum = [8, 8, 8, 8], stat_tol = 1/100,
       f_orb = [1/1000, 1/1000, 2, 2], a_sma = [1, 1, 1, 1], n_proc = 1, snr = None,
       n_sources = 4, interpolate_sc = False, sc_params = Map.empty, gw_lum_tol = 5/100,
       harmonics_required = (\<lambda>e. if e < 3/10 then 2 else if e < 7/10 then 20 else 10000),
       ecc_tol = 1/10, g_interp = None, sc_interp = None \<rparr>"

section \<open>Grids and interpolation\<close>

text \<open>
  \<^verbatim>\<open>np.linspace(start, stop, num)\<close> and \<^verbatim>\<open>np.logspace(start, stop, num)\<close> (base 10).
\<close>

definition linspace :: "real \<Rightarrow> real \<Rightarrow> nat \<Rightarrow> real list" where
  "linspace start stop num =
     map (\<lambda>i. start + real i * ((stop - start) / real (num - 1))) [0..<num]"

definition logspace :: "real \<Rightarrow> real \<Rightarrow> nat \<Rightarrow> real list" where
  "logspace start stop num = map (\<lambda>y. 10 powr y) (linspace start stop num)"

text \<open>
  \<^verbatim>\<open>np.searchsorted(xs, v)\<close> on a sorted array: the index of the first entry that is not
  below \<open>v\<close>.
\<close>

definition searchsorted :: "real list \<Rightarrow> real \<Rightarrow> nat" where
  "searchsorted xs v = length (takeWhile (\<lambda>x. x < v) xs)"

text \<open>
  \<^verbatim>\<open>scipy.interpolate.interp1d(x, y, bounds_error=False, fill_value=(below, above))\<close>,
  of the default linear kind. The constructor sorts the points by \<open>x\<close> (a stable sort) and
  refuses arrays of different lengths. A call finds the segment of the query with
  \<^verbatim>\<open>searchsorted\<close>, clipped to the first and last segment, interpolates linearly, and
  replaces the result by the fill value below the first and above the last point. A single
  fill value stands for both sides.
\<close>

definition call_linear :: "real list \<Rightarrow> real list \<Rightarrow> real \<Rightarrow> real" where
  "call_linear xs ys x_new =
     (let hi = min (max (searchsorted xs x_new) 1) (length xs - 1);
          lo = hi - 1;
          slope = (ys ! hi - ys ! lo) / (xs ! hi - xs ! lo)
      in slope * (x_new - xs ! lo) + ys ! lo)"

definition interp1d_call :: "real list \<Rightarrow> real list \<Rightarrow> real \<Rightarrow> real \<Rightarrow> real \<Rightarrow> real" where
  "interp1d_call x y fill_below fill_above x_new =
     (let ps = sort_key fst (zip x y);
          xs = map fst ps;
          ys = map snd ps;
          y_new = call_linear xs ys x_new
      in if x_new < hd xs then fill_below
         else if x_new > last xs then fill_above
         else y_new)"

definition interp1d :: "real list \<Rightarrow> real list \<Rightarrow> real \<times> real \<Rightarrow> error + (real \<Rightarrow> real)" where
  "interp1d x y fill_value =
     (if length x \<noteq> length y
      then Inl (ValueError ''x and y arrays must be equal in length along interpolation axis.'')
      else Inr (interp1d_call x y (fst fill_value) (snd fill_value)))"

section \<open>Collaborators and packaged data of the module\<close>

text \<open>
  The file \<^verbatim>\<open>harmonics.npz\<close>: the limits of the eccentricity grid
  (\<^verbatim>\<open>e_min, e_max, e_len\<close>), the largest harmonic \<^verbatim>\<open>n_max\<close> and the table
  \<^verbatim>\<open>g_vals\<close> with one row per grid point.
\<close>

record harmonics_npz =
  e_lims :: "real \<times> real \<times> nat"
  n_max :: nat
  g_vals :: "real list list"

text \<open>
  The functions of \<^verbatim>\<open>legwork.utils\<close> and \<^verbatim>\<open>legwork.lisa\<close> used outside the SNR
  routines. \<^verbatim>\<open>peters_f\<close> and \<^verbatim>\<open>peters_g\<close> are applied to arrays entry by entry; the
  two conversions between frequency and semi-major axis may raise; \<open>peters_g_grid\<close> is
  the interpolation of the file \<^verbatim>\<open>peters_g.npy\<close> that \<^verbatim>\<open>set_g\<close> builds.
  \<open>quantity_eq\<close> is the comparison \<^verbatim>\<open>==\<close> that \<^verbatim>\<open>astropy\<close> defines between a scalar
  quantity (the first argument) and another value.
\<close>

record helpers =
  peters_f :: "real \<Rightarrow> real"
  peters_g :: "int \<Rightarrow> real \<Rightarrow> real"
  get_f_orb_from_a :: "pyobj \<Rightarrow> pyobj \<Rightarrow> pyobj \<Rightarrow> error + pyobj"
  get_a_from_f_orb :: "pyobj \<Rightarrow> pyobj \<Rightarrow> pyobj \<Rightarrow> error + pyobj"
  ensure_array :: "pyobj list \<Rightarrow> real list list"
  chirp_mass :: "real list \<Rightarrow> real list \<Rightarrow> real list"
  power_spectral_density :: "real list \<Rightarrow> (string \<rightharpoonup> param) \<Rightarrow> real list"
  peters_g_grid :: "real \<Rightarrow> real \<Rightarrow> real"
  harmonics_file :: harmonics_npz
  quantity_eq :: "param \<Rightarrow> param \<Rightarrow> bool"

section \<open>create_harmonics_functions\<close>

text \<open>
  The \<^verbatim>\<open>while\<close> loop for one grid point: \<open>hn\<close> is \<^verbatim>\<open>harmonics_needed[i]\<close>, \<open>row\<close> is
  \<^verbatim>\<open>g_vals[i]\<close>, \<open>target\<close> is \<^verbatim>\<open>(1 - self._gw_lum_tol) * f_vals[i]\<close> and \<open>n_len\<close> is
  \<^verbatim>\<open>len(n_range)\<close>.
\<close>

function add_harmonics :: "real list \<Rightarrow> real \<Rightarrow> nat \<Rightarrow> nat \<Rightarrow> real \<Rightarrow> error + nat" where
  "add_harmonics row target n_len hn total_lum =
     (if total_lum < target \<and> hn < n_len
      then (if hn < length row
            then add_harmonics row target n_len (hn + 1) (total_lum + row ! hn)
            else Inl (IndexError ''index out of bounds''))
      else Inr hn)"
  by pat_completeness auto
termination
  by (relation "measure (\<lambda>(row, target, n_len, hn, total_lum). n_len - hn)") auto

declare add_harmonics.simps [simp del]

text \<open>The body of the \<^verbatim>\<open>for\<close> loop over the grid points \<open>1, \<dots>, e_len - 1\<close>.\<close>

definition harmonics_step ::
  "real list list \<Rightarrow> real list \<Rightarrow> nat \<Rightarrow> real \<Rightarrow> nat \<Rightarrow> nat list \<Rightarrow> error + nat list" where
  "harmonics_step gv f_vals n_len tol i harmonics_needed =
     (let h0 = harmonics_needed ! (i - 1) in
      if i < length gv then
        (let row = gv ! i;
             total_lum = sum_list (take h0 row)
         in err_bind (add_harmonics row ((1 - tol) * f_vals ! i) n_len h0 total_lum)
              (\<lambda>h. Inr (harmonics_needed[i := h])))
      else Inl (IndexError ''index out of bounds''))"

text \<open>The reconstructed grid \<^verbatim>\<open>e_range\<close> and the table \<^verbatim>\<open>harmonics_needed\<close>.\<close>

definition e_range_of :: "harmonics_npz \<Rightarrow> real list" where
  "e_range_of T =
     (case e_lims T of (e_min, e_max, e_len) \<Rightarrow>
        map (\<lambda>x. 1 - x) (logspace (log 10 (1 - e_min)) (log 10 (1 - e_max)) e_len))"

definition harmonics_needed_table :: "helpers \<Rightarrow> real \<Rightarrow> error + nat list" where
  "harmonics_needed_table H tol =
     (let T = harmonics_file H in
      case e_lims T of (e_min, e_max, e_len) \<Rightarrow>
        (let e_range = e_range_of T;
             n_len = length [1..<n_max T + 1];
             f_vals = map (peters_f H) e_range
         in if e_len = 0 then Inl (IndexError ''index 0 is out of bounds'')
            else for_each (harmonics_step (g_vals T) f_vals n_len tol) [1..<e_len]
                   ((replicate e_len 0)[0 := 2])))"

text \<open>
  \<^verbatim>\<open>create_harmonics_functions\<close> stores the closure \<^verbatim>\<open>harmonics_required\<close>. The second
  closure, \<^verbatim>\<open>dominant_harmonic\<close>, is used by the plotting code only and is left out.
\<close>

definition create_harmonics_functions :: "helpers \<Rightarrow> source \<Rightarrow> error + source" where
  "create_harmonics_functions H S =
     err_bind (harmonics_needed_table H (gw_lum_tol S)) (\<lambda>harmonics_needed.
     err_bind (interp1d (e_range_of (harmonics_file H)) (map real harmonics_needed)
                 (2, real (Max (set harmonics_needed)))) (\<lambda>interpolated_hn.
     Inr (S\<lparr>harmonics_required := (\<lambda>e. \<lceil>interpolated_hn e\<rceil>)\<rparr>)))"

section \<open>find_eccentric_transition and update_gw_lum_tol\<close>

definition transition_grid :: "real list" where
  "transition_grid = linspace 0 (2/10) 10000"

definition find_eccentric_transition :: "helpers \<Rightarrow> source \<Rightarrow> error + source" where
  "find_eccentric_transition H S =
     (let e_range = transition_grid;
          circular_lum = map (peters_g H 2) e_range;
          lum_within_tolerance = map (\<lambda>e. (1 - gw_lum_tol S) * peters_f H e) e_range
      in err_bind (getitem_mask e_range
                     (map (\<lambda>(c, l). c < l) (zip circular_lum lum_within_tolerance)))
           (\<lambda>below. case below of
                [] \<Rightarrow> Inl (IndexError ''index 0 is out of bounds for axis 0 with size 0'')
              | e # _ \<Rightarrow> Inr (S\<lparr>ecc_tol := e\<rparr>)))"

definition update_gw_lum_tol :: "helpers \<Rightarrow> source \<Rightarrow> real \<Rightarrow> error + source" where
  "update_gw_lum_tol H S tol =
     err_bind (create_harmonics_functions H (S\<lparr>gw_lum_tol := tol\<rparr>))
       (find_eccentric_transition H)"

section \<open>set_g, set_sc and update_sc_params\<close>

definition set_g :: "helpers \<Rightarrow> source \<Rightarrow> bool \<Rightarrow> source" where
  "set_g H S interpolate_g =
     (if interpolate_g then S\<lparr>g_interp := Some (peters_g_grid H)\<rparr> else S\<lparr>g_interp := None\<rparr>)"

definition default_params :: "string \<rightharpoonup> param" where
  "default_params =
     [''t_obs'' \<mapsto> ParamQuantity 4 ''yr'',
      ''L'' \<mapsto> ParamFloat 2500000000,
      ''fstar'' \<mapsto> ParamFloat (1909 / 100000),
      ''approximate_R'' \<mapsto> ParamBool False,
      ''include_confusion_noise'' \<mapsto> ParamBool True]"

definition frequency_range :: "real list" where
  "frequency_range = logspace (- 7) (log 10 2) 10000"

text \<open>
  \<^verbatim>\<open>set_sc\<close>. The stored callable takes the query frequency in Hz; the conversion
  \<^verbatim>\<open>f.to(u.Hz)\<close> of the query and the unit of the result are not modelled.
\<close>

definition set_sc :: "helpers \<Rightarrow> source \<Rightarrow> error + source" where
  "set_sc H S =
     (if interpolate_sc S then
        (let params = default_params ++ sc_params S;
             sc_vals = power_spectral_density H frequency_range params
         in err_bind (interp1d frequency_range sc_vals (10 ^ 30, 10 ^ 30))
              (\<lambda>interp_sc. Inr (S\<lparr>sc_interp := Some interp_sc\<rparr>)))
      else Inr (S\<lparr>sc_interp := None\<rparr>))"

text \<open>
  Python's \<^verbatim>\<open>==\<close> on two parameter values. Booleans, integers and floats are compared
  as numbers (\<^verbatim>\<open>True == 1\<close>, \<^verbatim>\<open>2500000000 == 2.5e9\<close>); \<^verbatim>\<open>None\<close> equals \<^verbatim>\<open>None\<close> only
  and a string equals the same string only. When one of the two is a quantity, the
  comparison is the quantity's: the other operand does not know how to compare itself
  with it.
\<close>

fun number_of :: "param \<Rightarrow> real option" where
  "number_of (ParamBool b) = Some (if b then 1 else 0)"
| "number_of (ParamInt i) = Some (real_of_int i)"
| "number_of (ParamFloat x) = Some x"
| "number_of _ = None"

definition py_eq :: "helpers \<Rightarrow> param \<Rightarrow> param \<Rightarrow> bool" where
  "py_eq H x y =
     (case x of
        ParamQuantity _ _ \<Rightarrow> quantity_eq H x y
      | _ \<Rightarrow>
          (case y of
             ParamQuantity _ _ \<Rightarrow> quantity_eq H y x
           | _ \<Rightarrow>
               (case (number_of x, number_of y) of
                  (Some v, Some w) \<Rightarrow> v = w
                | (None, None) \<Rightarrow> x = y
                | _ \<Rightarrow> False)))"

text \<open>
  \<^verbatim>\<open>d1 == d2\<close> on two dictionaries: the same keys, and under every key two values that
  are equal by \<^verbatim>\<open>==\<close>. The order of the entries plays no role.
\<close>

definition dict_eq :: "helpers \<Rightarrow> (string \<rightharpoonup> param) \<Rightarrow> (string \<rightharpoonup> param) \<Rightarrow> bool" where
  "dict_eq H d1 d2 \<longleftrightarrow>
     dom d1 = dom d2 \<and> (\<forall>k\<in>dom d1. py_eq H (the (d1 k)) (the (d2 k)))"

text \<open>\<^verbatim>\<open>update_sc_params\<close>: the test is \<^verbatim>\<open>sc_params != self._sc_params\<close>.\<close>

definition update_sc_params :: "helpers \<Rightarrow> source \<Rightarrow> (string \<rightharpoonup> param) \<Rightarrow> error + source" where
  "update_sc_params H S new_params =
     (if \<not> dict_eq H new_params (sc_params S)
      then set_sc H (S\<lparr>sc_params := new_params\<rparr>)
      else Inr S)"

section \<open>The constructor\<close>

text \<open>
  What \<^verbatim>\<open>__init__\<close> computes from its inputs, in the order in which it happens, is
  recorded as a list of events beside the result.
\<close>

datatype event =
    Derived_f_orb
  | Derived_a
  | Ensured_arrays
  | Computed_chirp_mass
  | Updated_gw_lum_tol
  | Set_g
  | Set_sc

definition is_quantity :: "pyobj \<Rightarrow> bool" where
  "is_quantity v = (case v of PyQuantity _ _ \<Rightarrow> True | _ \<Rightarrow> False)"

text \<open>The body of the loop over \<^verbatim>\<open>unit_args\<close>, with the name from \<^verbatim>\<open>unit_args_str\<close>.\<close>

definition assert_units :: "pyobj \<times> string \<Rightarrow> unit \<Rightarrow> error + unit" where
  "assert_units arg u =
     (if is_quantity (fst arg) then Inr u
      else Inl (AssertionError (''`'' @ snd arg @ ''` must have units'')))"

text \<open>
  The part of \<^verbatim>\<open>__init__\<close> after the units are asserted: arrays, length check, attributes,
  and the three setters.
\<close>

definition init_attributes ::
  "helpers \<Rightarrow> pyobj list \<Rightarrow> nat \<Rightarrow> real \<Rightarrow> real \<Rightarrow> bool \<Rightarrow> bool \<Rightarrow> (string \<rightharpoonup> param)
     \<Rightarrow> event list \<times> (error + source)" where
  "init_attributes H args n_proc_arg gw_lum_tol_arg stat_tol_arg interpolate_g interpolate_sc_arg
       sc_params_arg =
     (case ensure_array H args of
        [m1, m2, di, fo, sma, ec] \<Rightarrow>
          if list_ex (\<lambda>arg. length arg \<noteq> length m1) [m1, m2, di, fo, sma, ec]
          then ([Ensured_arrays], Inl (ValueError ''All input arrays must have the same length''))
          else
            (let S0 = \<lparr> m_1 = m1, m_2 = m2, m_c = chirp_mass H m1 m2, ecc = ec, dist_lum = di,
                        stat_tol = stat_tol_arg, f_orb = fo, a_sma = sma, n_proc = n_proc_arg,
                        snr = None, n_sources = length m1, interpolate_sc = interpolate_sc_arg,
                        sc_params = sc_params_arg, gw_lum_tol = 0,
                        harmonics_required = (\<lambda>e. 0), ecc_tol = 0,
                        g_interp = None, sc_interp = None \<rparr>
             in case update_gw_lum_tol H S0 gw_lum_tol_arg of
                  Inl err \<Rightarrow> ([Ensured_arrays, Computed_chirp_mass, Updated_gw_lum_tol], Inl err)
                | Inr S1 \<Rightarrow>
                    ([Ensured_arrays, Computed_chirp_mass, Updated_gw_lum_tol, Set_g, Set_sc],
                     set_sc H (set_g H S1 interpolate_g)))
      | _ \<Rightarrow> ([Ensured_arrays], Inl (ValueError ''not enough values to unpack'')))"

text \<open>
  \<^verbatim>\<open>Source.__init__\<close>. An argument that is \<^verbatim>\<open>None\<close> is \<open>PyNone\<close>; \<open>gw_lum_tol\<close>,
  \<open>harmonics_required\<close> and \<open>ecc_tol\<close> of the object under construction do not exist
  before \<^verbatim>\<open>update_gw_lum_tol\<close> sets them (placeholders 0 above).
\<close>

definition source_init ::
  "helpers \<Rightarrow> pyobj \<Rightarrow> pyobj \<Rightarrow> pyobj \<Rightarrow> pyobj \<Rightarrow> nat \<Rightarrow> pyobj \<Rightarrow> pyobj \<Rightarrow> real \<Rightarrow> real
     \<Rightarrow> bool \<Rightarrow> bool \<Rightarrow> (string \<rightharpoonup> param) \<Rightarrow> event list \<times> (error + source)" where
  "source_init H m_1_arg m_2_arg ecc_arg dist_arg n_proc_arg f_orb_arg a_arg gw_lum_tol_arg
       stat_tol_arg interpolate_g interpolate_sc_arg sc_params_arg =
     (if f_orb_arg = PyNone \<and> a_arg = PyNone
      then ([], Inl (ValueError ''Either `f_orb` or `a` must be specified''))
      else
        (let ev1 = (if f_orb_arg = PyNone then [Derived_f_orb] else []);
             r1 = (if f_orb_arg = PyNone then get_f_orb_from_a H a_arg m_1_arg m_2_arg
                   else Inr f_orb_arg)
         in case r1 of
              Inl err \<Rightarrow> (ev1, Inl err)
            | Inr f_orb' \<Rightarrow>
                (let ev2 = ev1 @ (if a_arg = PyNone then [Derived_a] else []);
                     r2 = (if a_arg = PyNone then get_a_from_f_orb H f_orb' m_1_arg m_2_arg
                           else Inr a_arg)
                 in case r2 of
                      Inl err \<Rightarrow> (ev2, Inl err)
                    | Inr a' \<Rightarrow>
                        (case for_each assert_units
                                [(m_1_arg, ''m_1''), (m_2_arg, ''m_2''), (dist_arg, ''dist''),
                                 (f_orb', ''f_orb''), (a', ''a'')] ()
                         of Inl err \<Rightarrow> (ev2, Inl err)
                          | Inr _ \<Rightarrow>
                              (case init_attributes H
                                      [m_1_arg, m_2_arg, dist_arg, f_orb', a', ecc_arg]
                                      n_proc_arg gw_lum_tol_arg stat_tol_arg interpolate_g
                                      interpolate_sc_arg sc_params_arg
                               of (ev3, res) \<Rightarrow> (ev2 @ ev3, res))))))"

section \<open>Argument values\<close>

text \<open>The three values \<^verbatim>\<open>get_source_mask\<close> accepts for \<^verbatim>\<open>circular\<close> and \<^verbatim>\<open>stationary\<close>.\<close>

definition tri_state :: "pyobj \<Rightarrow> bool" where
  "tri_state v \<longleftrightarrow> v = PyNone \<or> v = PyBool True \<or> v = PyBool False"

section \<open>Small collaborators and a small table\<close>

text \<open>
  A table with three grid points and four harmonics, a constant enhancement factor, and a
  two-harmonic luminosity that falls linearly; the other collaborators return fixed
  shapes. The two conversions between frequency and semi-major axis raise when the
  quantity they convert or one of the masses has no unit, and a quantity is equal to
  itself only.
\<close>

definition example_table :: harmonics_npz where
  "example_table =
     \<lparr> e_lims = (0, 3/4, 3), n_max = 4,
       g_vals = [[0, 1, 0, 0], [1/10, 6/10, 3/10, 0], [1/10, 3/10, 3/10, 3/10]] \<rparr>"

definition example_helpers :: helpers where
  "example_helpers =
     \<lparr> peters_f = (\<lambda>e. 1),
       peters_g = (\<lambda>n e. 1 - 1000 * e),
       get_f_orb_from_a = (\<lambda>a m1 m2.
         if is_quantity a \<and> is_quantity m1 \<and> is_quantity m2
         then Inr (PyQuantity [1/1000] ''Hz'')
         else Inl (UnitConversionError ''Can only apply add function to dimensionless quantities'')),
       get_a_from_f_orb = (\<lambda>f m1 m2.
         if is_quantity f \<and> is_quantity m1 \<and> is_quantity m2
         then Inr (PyQuantity [1] ''AU'')
         else Inl (UnitConversionError ''Can only apply add function to dimensionless quantities'')),
       ensure_array = map (\<lambda>v. case v of PyQuantity xs u \<Rightarrow> xs | PyArray xs \<Rightarrow> xs
                                  | PyFloat x \<Rightarrow> [x] | _ \<Rightarrow> []),
       chirp_mass = (\<lambda>m1 m2. m1),
       power_spectral_density = (\<lambda>fr params. map (\<lambda>f. 1) fr),
       peters_g_grid = (\<lambda>n e. 0),
       harmonics_file = example_table,
       quantity_eq = (\<lambda>q v. q = v) \<rparr>"

text \<open>
  Collaborators whose two-harmonic luminosity is never negative: it falls from 1 at
  eccentricity 0 to \<open>0.8\<close> at the end of the scanned grid.
\<close>

definition slow_helpers :: helpers where
  "slow_helpers = example_helpers\<lparr>peters_g := (\<lambda>n e. 1 - e)\<rparr>"

text \<open>
  A table with \<^verbatim>\<open>n_max = 10000\<close> whose second grid point, eccentricity \<open>0.8\<close>, radiates so
  broadly that its first 10000 harmonics carry half of the luminosity only.
\<close>

definition faint_row :: "real list" where
  "faint_row = replicate 10000 (1 / 20000)"

definition wide_table :: harmonics_npz where
  "wide_table = \<lparr> e_lims = (0, 8/10, 2), n_max = 10000, g_vals = [faint_row, faint_row] \<rparr>"

definition wide_helpers :: helpers where
  "wide_helpers = example_helpers\<lparr>harmonics_file := wide_table\<rparr>"

section \<open>Facts about the array operations\<close>

lemma err_bind_Inr [simp]: "err_bind (Inr x) f = f x"
  by (simp add: err_bind_def)

lemma err_bind_Inl [simp]: "err_bind (Inl e) f = Inl e"
  by (simp add: err_bind_def)

lemma err_bind_eq_Inr:
  "err_bind m f = Inr y \<longleftrightarrow> (\<exists>x. m = Inr x \<and> f x = Inr y)"
  by (cases m) simp_all

lemma np_any_iff: "np_any msk \<longleftrightarrow> (\<exists>i<length msk. msk ! i)"
  unfolding np_any_def list_ex_iff by (metis in_set_conv_nth)

lemma count_true_Nil [simp]: "count_true [] = 0"
  by (simp add: count_true_def)

lemma count_true_Cons [simp]: "count_true (b # bs) = (if b then Suc (count_true bs) else count_true bs)"
  by (simp add: count_true_def)

lemma rank_0 [simp]: "rank msk 0 = 0"
  by (simp add: rank_def)

lemma rank_Cons_Suc [simp]: "rank (b # bs) (Suc i) = (if b then Suc (rank bs i) else rank bs i)"
  by (simp add: rank_def)

lemma rank_less_count:
  "i < length msk \<Longrightarrow> msk ! i \<Longrightarrow> rank msk i < count_true msk"
proof (induction msk arbitrary: i)
  case Nil
  then show ?case by simp
next
  case (Cons b bs)
  then show ?case by (cases i) auto
qed

lemma select_nth:
  "length msk = length xs \<Longrightarrow> i < length msk \<Longrightarrow> msk ! i \<Longrightarrow>
     map snd (filter fst (zip msk xs)) ! rank msk i = xs ! i"
proof (induction msk arbitrary: i xs)
  case Nil
  then show ?case by simp
next
  case (Cons b bs)
  then obtain y ys where xs: "xs = y # ys" by (cases xs) auto
  show ?case
  proof (cases i)
    case 0
    with Cons.prems xs show ?thesis by simp
  next
    case (Suc j)
    with Cons.prems xs Cons.IH [of ys j] show ?thesis by simp
  qed
qed

lemma select_length:
  "length msk = length xs \<Longrightarrow> length (map snd (filter fst (zip msk xs))) = count_true msk"
proof (induction msk arbitrary: xs)
  case Nil
  then show ?case by simp
next
  case (Cons b bs)
  then obtain y ys where xs: "xs = y # ys" by (cases xs) auto
  with Cons show ?case by simp
qed

lemma getitem_mask_Inr:
  "msk \<noteq> [] \<Longrightarrow> getitem_mask xs msk = Inr ys \<longleftrightarrow>
     length msk = length xs \<and> ys = map snd (filter fst (zip msk xs))"
  by (auto simp: getitem_mask_def)

lemma getitem_mask_ok:
  "length msk = length xs \<Longrightarrow> getitem_mask xs msk = Inr (map snd (filter fst (zip msk xs)))"
  by (simp add: getitem_mask_def)

lemma setitem_mask_length:
  "setitem_mask xs msk vals = Inr ys \<Longrightarrow> length ys = length xs \<and> length msk = length xs"
  by (auto simp: setitem_mask_def split: if_splits)

lemma setitem_mask_keep:
  "setitem_mask xs msk vals = Inr ys \<Longrightarrow> i < length xs \<Longrightarrow> \<not> msk ! i \<Longrightarrow> ys ! i = xs ! i"
  by (auto simp: setitem_mask_def split: if_splits)

lemma setitem_mask_write:
  "setitem_mask xs msk vals = Inr ys \<Longrightarrow> length vals = count_true msk \<Longrightarrow> i < length xs \<Longrightarrow>
     msk ! i \<Longrightarrow> ys ! i = vals ! rank msk i"
  by (auto simp: setitem_mask_def rank_def split: if_splits)

lemma setitem_mask_ok:
  "length msk = length xs \<Longrightarrow> length vals = count_true msk \<Longrightarrow>
     \<exists>ys. setitem_mask xs msk vals = Inr ys"
  by (simp add: setitem_mask_def)

lemma logical_and_same:
  "length p = length q \<Longrightarrow> logical_and p q = Inr (map (\<lambda>(x, y). x \<and> y) (zip p q))"
  by (simp add: logical_and_def)

lemma zip_replicate_True:
  "length q = n \<Longrightarrow> map (\<lambda>(x, y). x \<and> y) (zip (replicate n True) q) = q"
  by (auto simp: list_eq_iff_nth_eq)

lemma get_source_mask_stationary:
  assumes "length (determine_stationarity X (m_c S) (f_orb S) t_obs (ecc S) (stat_tol S)) = n_sources S"
  shows "get_source_mask X S PyNone (PyBool True) t_obs =
           Inr (determine_stationarity X (m_c S) (f_orb S) t_obs (ecc S) (stat_tol S))"
  using assms by (simp add: get_source_mask_def logical_and_same zip_replicate_True)

section \<open>The small batch, evaluated\<close>

lemma example_well_formed: "well_formed example_source"
  by (simp add: well_formed_def example_source_def)

lemma example_well_shaped: "well_shaped example_externals"
  by (simp add: well_shaped_def example_externals_def)

lemma example_stationarity:
  "determine_stationarity example_externals (m_c example_source) (f_orb example_source) 4
     (ecc example_source) (stat_tol example_source) = [True, True, False, False]"
  by (simp add: example_externals_def example_source_def)

lemma example_stationary_full:
  "snr_stationary_full example_externals example_source 4 [True, True, False, False]
     = Inr [1, 101, 0, 0]"
  by (simp add: snr_stationary_full_def example_externals_def example_source_def
      logical_and_def np_any_def getitem_mask_def setitem_mask_def harmonic_groups_def
      ecc_group_stationary_def bucket_match_def rank_def upt_rec)

lemma example_evolving_full:
  "snr_evolving_full example_externals example_source 4 100 [False, False, True, True]
     = Inr [0, 0, 3, 0]"
  by (simp add: snr_evolving_full_def example_externals_def example_source_def
      logical_and_def np_any_def getitem_mask_def setitem_mask_def harmonic_groups_def
      ecc_group_evolving_def bucket_match_def rank_def upt_rec)

lemma example_get_snr:
  "get_snr example_externals example_source 4 100
     = Inr (example_source\<lparr>snr := Some [1, 101, 3, 0]\<rparr>, [1, 101, 3, 0])"
proof -
  have n: "n_sources example_source = 4"
    by (simp add: example_source_def)
  have gsm: "get_source_mask example_externals example_source PyNone (PyBool True) 4
               = Inr [True, True, False, False]"
    using get_source_mask_stationary [of example_externals example_source 4]
    by (simp add: example_stationarity n)
  show ?thesis
    by (simp add: get_snr_def gsm n get_snr_stationary_def get_snr_evolving_def which_or_all_def
        example_stationary_full example_evolving_full np_any_def getitem_mask_def
        setitem_mask_def rank_def upt_rec)
qed

section \<open>The loop over the harmonic groups\<close>

lemma for_each_invariant:
  assumes "\<And>x s. x \<in> set xs \<Longrightarrow> I s \<Longrightarrow> \<exists>s'. body x s = Inr s' \<and> I s'"
    and "I s"
  shows "\<exists>s'. for_each body xs s = Inr s' \<and> I s'"
  using assms
proof (induction xs arbitrary: s)
  case Nil
  then show ?case by simp
next
  case (Cons x xs)
  from Cons.prems obtain s1 where s1: "body x s = Inr s1" "I s1"
    by (meson list.set_intros(1))
  have "\<exists>s'. for_each body xs s1 = Inr s' \<and> I s'"
    by (rule Cons.IH) (use Cons.prems s1 in auto)
  with s1 show ?case by simp
qed

lemma bucket_match_ok:
  "length hreq = length ind_ecc \<Longrightarrow>
     bucket_match hreq ind_ecc (lower, upper) =
       Inr (map (\<lambda>(h, b). lower \<le> h \<and> h < upper \<and> b) (zip hreq ind_ecc))"
  by (auto simp: bucket_match_def logical_and_same list_eq_iff_nth_eq)

lemma setitem_mask_selected:
  assumes "length msk = length xs" "length vals = count_true msk"
  shows "\<exists>ys. setitem_mask xs msk vals = Inr ys \<and> length ys = length xs \<and>
           (\<forall>j<length xs. ys ! j = (if msk ! j then vals ! rank msk j else xs ! j))"
  using assms by (simp add: setitem_mask_def)

lemma ecc_group_stationary_ok:
  assumes wf: "well_formed S" and ws: "well_shaped X"
    and len: "length snr_arr = n_sources S" "length ind_ecc = n_sources S"
      "length hreq = n_sources S"
    and match: "match = map (\<lambda>(h, b). lower \<le> h \<and> h < upper \<and> b) (zip hreq ind_ecc)"
    and vals: "vals = snr_ecc_stationary X (map snd (filter fst (zip match (m_c S))))
       (map snd (filter fst (zip match (f_orb S)))) (map snd (filter fst (zip match (ecc S))))
       (map snd (filter fst (zip match (dist_lum S)))) t_obs (upper - 1) (g_interp S) (sc_interp S)"
  shows "\<exists>snr'. ecc_group_stationary X S t_obs hreq ind_ecc (lower, upper) snr_arr = Inr snr' \<and>
           length snr' = n_sources S \<and>
           (\<forall>j<n_sources S. snr' ! j = (if match ! j then vals ! rank match j else snr_arr ! j))"
proof -
  have bm: "bucket_match hreq ind_ecc (lower, upper) = Inr match"
    using len by (simp add: bucket_match_ok match)
  have lm: "length match = n_sources S"
    using len by (simp add: match)
  show ?thesis
  proof (cases "np_any match")
    case False
    then have "\<forall>j<n_sources S. \<not> match ! j"
      using lm by (simp add: np_any_iff)
    then show ?thesis
      using bm len False by (simp add: ecc_group_stationary_def)
  next
    case True
    have lv: "length vals = count_true match"
      using ws wf lm select_length [of match "m_c S"]
      by (simp add: vals well_shaped_def well_formed_def)
    have eq: "ecc_group_stationary X S t_obs hreq ind_ecc (lower, upper) snr_arr =
                setitem_mask snr_arr match vals"
      using bm True wf lm
      by (simp add: ecc_group_stationary_def getitem_mask_ok well_formed_def vals)
    show ?thesis
      unfolding eq using setitem_mask_selected [of match snr_arr vals] lm len lv by auto
  qed
qed

lemma ecc_group_evolving_ok:
  assumes wf: "well_formed S" and ws: "well_shaped X"
    and len: "length snr_arr = n_sources S" "length ind_ecc = n_sources S"
      "length hreq = n_sources S"
    and match: "match = map (\<lambda>(h, b). lower \<le> h \<and> h < upper \<and> b) (zip hreq ind_ecc)"
    and vals: "vals = snr_ecc_evolving X (map snd (filter fst (zip match (m_1 S))))
       (map snd (filter fst (zip match (m_2 S)))) (map snd (filter fst (zip match (f_orb S))))
       (map snd (filter fst (zip match (dist_lum S)))) (map snd (filter fst (zip match (ecc S))))
       (upper - 1) t_obs n_step (g_interp S) (sc_interp S) (n_proc S)"
  shows "\<exists>snr'. ecc_group_evolving X S t_obs n_step hreq ind_ecc (lower, upper) snr_arr = Inr snr' \<and>
           length snr' = n_sources S \<and>
           (\<forall>j<n_sources S. snr' ! j = (if match ! j then vals ! rank match j else snr_arr ! j))"
proof -
  have bm: "bucket_match hreq ind_ecc (lower, upper) = Inr match"
    using len by (simp add: bucket_match_ok match)
  have lm: "length match = n_sources S"
    using len by (simp add: match)
  show ?thesis
  proof (cases "np_any match")
    case False
    then have "\<forall>j<n_sources S. \<not> match ! j"
      using lm by (simp add: np_any_iff)
    then show ?thesis
      using bm len False by (simp add: ecc_group_evolving_def)
  next
    case True
    have lv: "length vals = count_true match"
      using ws wf lm select_length [of match "m_1 S"]
      by (simp add: vals well_shaped_def well_formed_def)
    have eq: "ecc_group_evolving X S t_obs n_step hreq ind_ecc (lower, upper) snr_arr =
                setitem_mask snr_arr match vals"
      using bm True wf lm
      by (simp add: ecc_group_evolving_def getitem_mask_ok well_formed_def vals)
    show ?thesis
      unfolding eq using setitem_mask_selected [of match snr_arr vals] lm len lv by auto
  qed
qed

lemma ecc_group_stationary_keeps:
  assumes "well_formed S" "well_shaped X"
    and "length snr_arr = n_sources S" "length ind_ecc = n_sources S" "length hreq = n_sources S"
    and "i < n_sources S" "\<not> (lower \<le> hreq ! i \<and> hreq ! i < upper \<and> ind_ecc ! i)"
  shows "\<exists>snr'. ecc_group_stationary X S t_obs hreq ind_ecc (lower, upper) snr_arr = Inr snr' \<and>
           length snr' = n_sources S \<and> snr' ! i = snr_arr ! i"
  using ecc_group_stationary_ok [OF assms(1-5) refl refl, where lower = lower and upper = upper
      and t_obs = t_obs] assms(4-7)
  by auto

lemma ecc_group_evolving_keeps:
  assumes "well_formed S" "well_shaped X"
    and "length snr_arr = n_sources S" "length ind_ecc = n_sources S" "length hreq = n_sources S"
    and "i < n_sources S" "\<not> (lower \<le> hreq ! i \<and> hreq ! i < upper \<and> ind_ecc ! i)"
  shows "\<exists>snr'. ecc_group_evolving X S t_obs n_step hreq ind_ecc (lower, upper) snr_arr = Inr snr' \<and>
           length snr' = n_sources S \<and> snr' ! i = snr_arr ! i"
  using ecc_group_evolving_ok [OF assms(1-5) refl refl, where lower = lower and upper = upper
      and t_obs = t_obs and n_step = n_step] assms(4-7)
  by auto

text \<open>A source outside every harmonic group keeps its entry through the whole loop.\<close>

lemma ecc_loop_stationary_keeps:
  assumes wf: "well_formed S" and ws: "well_shaped X"
    and len: "length snr_arr = n_sources S" "length ind_ecc = n_sources S"
      "length hreq = n_sources S"
    and i: "i < n_sources S"
    and out: "\<forall>(lower, upper) \<in> set groups. \<not> (lower \<le> hreq ! i \<and> hreq ! i < upper \<and> ind_ecc ! i)"
  shows "\<exists>snr'. for_each (ecc_group_stationary X S t_obs hreq ind_ecc) groups snr_arr = Inr snr' \<and>
           length snr' = n_sources S \<and> snr' ! i = snr_arr ! i"
proof -
  have "\<exists>s'. for_each (ecc_group_stationary X S t_obs hreq ind_ecc) groups snr_arr = Inr s' \<and>
          (length s' = n_sources S \<and> s' ! i = snr_arr ! i)"
  proof (rule for_each_invariant)
    show "length snr_arr = n_sources S \<and> snr_arr ! i = snr_arr ! i"
      using len by simp
  next
    fix grp s
    assume grp: "grp \<in> set groups" and s: "length s = n_sources S \<and> s ! i = snr_arr ! i"
    obtain lower upper where g: "grp = (lower, upper)" by (cases grp)
    have no: "\<not> (lower \<le> hreq ! i \<and> hreq ! i < upper \<and> ind_ecc ! i)"
      using out grp g by auto
    from s have ls: "length s = n_sources S" by simp
    show "\<exists>s'. ecc_group_stationary X S t_obs hreq ind_ecc grp s = Inr s' \<and>
                 (length s' = n_sources S \<and> s' ! i = snr_arr ! i)"
      using ecc_group_stationary_keeps [OF wf ws ls len(2,3) i no, of t_obs] s g by auto
  qed
  then show ?thesis by simp
qed

lemma ecc_loop_evolving_keeps:
  assumes wf: "well_formed S" and ws: "well_shaped X"
    and len: "length snr_arr = n_sources S" "length ind_ecc = n_sources S"
      "length hreq = n_sources S"
    and i: "i < n_sources S"
    and out: "\<forall>(lower, upper) \<in> set groups. \<not> (lower \<le> hreq ! i \<and> hreq ! i < upper \<and> ind_ecc ! i)"
  shows "\<exists>snr'. for_each (ecc_group_evolving X S t_obs n_step hreq ind_ecc) groups snr_arr = Inr snr' \<and>
           length snr' = n_sources S \<and> snr' ! i = snr_arr ! i"
proof -
  have "\<exists>s'. for_each (ecc_group_evolving X S t_obs n_step hreq ind_ecc) groups snr_arr = Inr s' \<and>
          (length s' = n_sources S \<and> s' ! i = snr_arr ! i)"
  proof (rule for_each_invariant)
    show "length snr_arr = n_sources S \<and> snr_arr ! i = snr_arr ! i"
      using len by simp
  next
    fix grp s
    assume grp: "grp \<in> set groups" and s: "length s = n_sources S \<and> s ! i = snr_arr ! i"
    obtain lower upper where g: "grp = (lower, upper)" by (cases grp)
    have no: "\<not> (lower \<le> hreq ! i \<and> hreq ! i < upper \<and> ind_ecc ! i)"
      using out grp g by auto
    from s have ls: "length s = n_sources S" by simp
    show "\<exists>s'. ecc_group_evolving X S t_obs n_step hreq ind_ecc grp s = Inr s' \<and>
                 (length s' = n_sources S \<and> s' ! i = snr_arr ! i)"
      using ecc_group_evolving_keeps [OF wf ws ls len(2,3) i no, of t_obs n_step] s g by auto
  qed
  then show ?thesis by simp
qed


lemma circ_step_stationary:
  assumes wf: "well_formed S" and ws: "well_shaped X" and len: "length ind_circ = n_sources S"
  shows "\<exists>snr1.
     (if np_any ind_circ then
        err_bind (getitem_mask (m_c S) ind_circ) (\<lambda>mc.
        err_bind (getitem_mask (f_orb S) ind_circ) (\<lambda>fo.
        err_bind (getitem_mask (dist_lum S) ind_circ) (\<lambda>di.
          setitem_mask (replicate (n_sources S) 0) ind_circ
            (snr_circ_stationary X mc fo di t_obs (g_interp S) (sc_interp S)))))
      else Inr (replicate (n_sources S) 0)) = Inr snr1 \<and>
     length snr1 = n_sources S \<and> (\<forall>j<n_sources S. \<not> ind_circ ! j \<longrightarrow> snr1 ! j = 0)"
proof (cases "np_any ind_circ")
  case False
  then show ?thesis by simp
next
  case True
  define vals where "vals = snr_circ_stationary X (map snd (filter fst (zip ind_circ (m_c S))))
     (map snd (filter fst (zip ind_circ (f_orb S)))) (map snd (filter fst (zip ind_circ (dist_lum S))))
     t_obs (g_interp S) (sc_interp S)"
  have lv: "length vals = count_true ind_circ"
    using ws wf len select_length [of ind_circ "m_c S"]
    by (simp add: vals_def well_shaped_def well_formed_def)
  have "\<exists>ys. setitem_mask (replicate (n_sources S) (0::real)) ind_circ vals = Inr ys \<and>
          length ys = length (replicate (n_sources S) (0::real)) \<and>
          (\<forall>j<length (replicate (n_sources S) (0::real)).
             ys ! j = (if ind_circ ! j then vals ! rank ind_circ j
                       else replicate (n_sources S) (0::real) ! j))"
    by (rule setitem_mask_selected) (use len lv in simp_all)
  then show ?thesis
    using True wf len by (auto simp: getitem_mask_ok well_formed_def vals_def)
qed

lemma circ_step_evolving:
  assumes wf: "well_formed S" and ws: "well_shaped X" and len: "length ind_circ = n_sources S"
  shows "\<exists>snr1.
     (if np_any ind_circ then
        err_bind (getitem_mask (m_1 S) ind_circ) (\<lambda>m1.
        err_bind (getitem_mask (m_2 S) ind_circ) (\<lambda>m2.
        err_bind (getitem_mask (f_orb S) ind_circ) (\<lambda>fo.
        err_bind (getitem_mask (dist_lum S) ind_circ) (\<lambda>di.
          setitem_mask (replicate (n_sources S) 0) ind_circ
            (snr_circ_evolving X m1 m2 fo di t_obs n_step (g_interp S) (sc_interp S))))))
      else Inr (replicate (n_sources S) 0)) = Inr snr1 \<and>
     length snr1 = n_sources S \<and> (\<forall>j<n_sources S. \<not> ind_circ ! j \<longrightarrow> snr1 ! j = 0)"
proof (cases "np_any ind_circ")
  case False
  then show ?thesis by simp
next
  case True
  define vals where "vals = snr_circ_evolving X (map snd (filter fst (zip ind_circ (m_1 S))))
     (map snd (filter fst (zip ind_circ (m_2 S)))) (map snd (filter fst (zip ind_circ (f_orb S))))
     (map snd (filter fst (zip ind_circ (dist_lum S)))) t_obs n_step (g_interp S) (sc_interp S)"
  have lv: "length vals = count_true ind_circ"
    using ws wf len select_length [of ind_circ "m_1 S"]
    by (simp add: vals_def well_shaped_def well_formed_def)
  have "\<exists>ys. setitem_mask (replicate (n_sources S) (0::real)) ind_circ vals = Inr ys \<and>
          length ys = length (replicate (n_sources S) (0::real)) \<and>
          (\<forall>j<length (replicate (n_sources S) (0::real)).
             ys ! j = (if ind_circ ! j then vals ! rank ind_circ j
                       else replicate (n_sources S) (0::real) ! j))"
    by (rule setitem_mask_selected) (use len lv in simp_all)
  then show ?thesis
    using True wf len by (auto simp: getitem_mask_ok well_formed_def vals_def)
qed

lemma not_in_harmonic_groups:
  "10000 \<le> h \<Longrightarrow> \<forall>(lower, upper) \<in> set harmonic_groups. \<not> (lower \<le> h \<and> h < upper \<and> b)"
  by (simp add: harmonic_groups_def)

lemma snr_stationary_full_unbucketed:
  assumes wf: "well_formed S" and ws: "well_shaped X" and lw: "length which = n_sources S"
    and i: "i < n_sources S" and ecc_i: "ecc S ! i > ecc_tol S"
    and h: "10000 \<le> harmonics_required S (ecc S ! i)"
  shows "\<exists>full. snr_stationary_full X S t_obs which = Inr full \<and> length full = n_sources S \<and>
           full ! i = 0"
proof -
  define ind_ecc where "ind_ecc = map (\<lambda>(x, y). x \<and> y) (zip (map (\<lambda>e. e > ecc_tol S) (ecc S)) which)"
  define ind_circ where "ind_circ = map (\<lambda>(x, y). x \<and> y) (zip (map (\<lambda>e. e \<le> ecc_tol S) (ecc S)) which)"
  define hreq where "hreq = map (harmonics_required S) (ecc S)"
  have le: "length (ecc S) = n_sources S"
    using wf by (simp add: well_formed_def)
  have la: "logical_and (map (\<lambda>e. e > ecc_tol S) (ecc S)) which = Inr ind_ecc"
    "logical_and (map (\<lambda>e. e \<le> ecc_tol S) (ecc S)) which = Inr ind_circ"
    using le lw by (simp_all add: logical_and_same ind_ecc_def ind_circ_def)
  have len: "length ind_ecc = n_sources S" "length ind_circ = n_sources S" "length hreq = n_sources S"
    using le lw by (simp_all add: ind_ecc_def ind_circ_def hreq_def)
  have nc: "\<not> ind_circ ! i"
    using i le lw ecc_i by (simp add: ind_circ_def)
  from circ_step_stationary [OF wf ws len(2), of t_obs]
  obtain snr1 where s1: "(if np_any ind_circ then
        err_bind (getitem_mask (m_c S) ind_circ) (\<lambda>mc.
        err_bind (getitem_mask (f_orb S) ind_circ) (\<lambda>fo.
        err_bind (getitem_mask (dist_lum S) ind_circ) (\<lambda>di.
          setitem_mask (replicate (n_sources S) 0) ind_circ
            (snr_circ_stationary X mc fo di t_obs (g_interp S) (sc_interp S)))))
      else Inr (replicate (n_sources S) 0)) = Inr snr1"
    and l1: "length snr1 = n_sources S" and z1: "\<forall>j<n_sources S. \<not> ind_circ ! j \<longrightarrow> snr1 ! j = 0"
    by blast
  have hi: "hreq ! i = harmonics_required S (ecc S ! i)"
    using i le by (simp add: hreq_def)
  have "\<exists>snr'. for_each (ecc_group_stationary X S t_obs hreq ind_ecc) harmonic_groups snr1 = Inr snr' \<and>
           length snr' = n_sources S \<and> snr' ! i = snr1 ! i"
    by (rule ecc_loop_stationary_keeps [OF wf ws l1 len(1,3) i])
       (use h hi not_in_harmonic_groups [of "hreq ! i" "ind_ecc ! i"] in simp)
  then obtain snr2 where s2: "for_each (ecc_group_stationary X S t_obs hreq ind_ecc) harmonic_groups snr1 = Inr snr2"
    "length snr2 = n_sources S" "snr2 ! i = snr1 ! i"
    by blast
  have eq: "snr_stationary_full X S t_obs which =
     (if np_any ind_ecc then for_each (ecc_group_stationary X S t_obs hreq ind_ecc) harmonic_groups snr1
      else Inr snr1)"
    unfolding snr_stationary_full_def Let_def la err_bind_Inr s1 hreq_def ..
  show ?thesis
    unfolding eq using s2 l1 z1 nc i by auto
qed

lemma snr_evolving_full_unbucketed:
  assumes wf: "well_formed S" and ws: "well_shaped X" and lw: "length which = n_sources S"
    and i: "i < n_sources S" and ecc_i: "ecc S ! i > ecc_tol S"
    and h: "10000 \<le> harmonics_required S (ecc S ! i)"
  shows "\<exists>full. snr_evolving_full X S t_obs n_step which = Inr full \<and> length full = n_sources S \<and>
           full ! i = 0"
proof -
  define ind_ecc where "ind_ecc = map (\<lambda>(x, y). x \<and> y) (zip (map (\<lambda>e. e > ecc_tol S) (ecc S)) which)"
  define ind_circ where "ind_circ = map (\<lambda>(x, y). x \<and> y) (zip (map (\<lambda>e. e \<le> ecc_tol S) (ecc S)) which)"
  define hreq where "hreq = map (harmonics_required S) (ecc S)"
  have le: "length (ecc S) = n_sources S"
    using wf by (simp add: well_formed_def)
  have la: "logical_and (map (\<lambda>e. e > ecc_tol S) (ecc S)) which = Inr ind_ecc"
    "logical_and (map (\<lambda>e. e \<le> ecc_tol S) (ecc S)) which = Inr ind_circ"
    using le lw by (simp_all add: logical_and_same ind_ecc_def ind_circ_def)
  have len: "length ind_ecc = n_sources S" "length ind_circ = n_sources S" "length hreq = n_sources S"
    using le lw by (simp_all add: ind_ecc_def ind_circ_def hreq_def)
  have nc: "\<not> ind_circ ! i"
    using i le lw ecc_i by (simp add: ind_circ_def)
  from circ_step_evolving [OF wf ws len(2), of t_obs n_step]
  obtain snr1 where s1: "(if np_any ind_circ then
        err_bind (getitem_mask (m_1 S) ind_circ) (\<lambda>m1.
        err_bind (getitem_mask (m_2 S) ind_circ) (\<lambda>m2.
        err_bind (getitem_mask (f_orb S) ind_circ) (\<lambda>fo.
        err_bind (getitem_mask (dist_lum S) ind_circ) (\<lambda>di.
          setitem_mask (replicate (n_sources S) 0) ind_circ
            (snr_circ_evolving X m1 m2 fo di t_obs n_step (g_interp S) (sc_interp S))))))
      else Inr (replicate (n_sources S) 0)) = Inr snr1"
    and l1: "length snr1 = n_sources S" and z1: "\<forall>j<n_sources S. \<not> ind_circ ! j \<longrightarrow> snr1 ! j = 0"
    by blast
  have hi: "hreq ! i = harmonics_required S (ecc S ! i)"
    using i le by (simp add: hreq_def)
  have "\<exists>snr'. for_each (ecc_group_evolving X S t_obs n_step hreq ind_ecc) harmonic_groups snr1 = Inr snr' \<and>
           length snr' = n_sources S \<and> snr' ! i = snr1 ! i"
    by (rule ecc_loop_evolving_keeps [OF wf ws l1 len(1,3) i])
       (use h hi not_in_harmonic_groups [of "hreq ! i" "ind_ecc ! i"] in simp)
  then obtain snr2 where s2: "for_each (ecc_group_evolving X S t_obs n_step hreq ind_ecc) harmonic_groups snr1 = Inr snr2"
    "length snr2 = n_sources S" "snr2 ! i = snr1 ! i"
    by blast
  have eq: "snr_evolving_full X S t_obs n_step which =
     (if np_any ind_ecc then for_each (ecc_group_evolving X S t_obs n_step hreq ind_ecc) harmonic_groups snr1
      else Inr snr1)"
    unfolding snr_evolving_full_def Let_def la err_bind_Inr s1 hreq_def ..
  show ?thesis
    unfolding eq using s2 l1 z1 nc i by auto
qed


text \<open>
  Claim C10. In \<^verbatim>\<open>get_snr_stationary\<close> and \<^verbatim>\<open>get_snr_evolving\<close>, an eccentric source
  (selected by \<^verbatim>\<open>which_sources\<close>, eccentricity above \<^verbatim>\<open>ecc_tol\<close>) whose required
  harmonic count is 10000 or more is in the mask \<^verbatim>\<open>match\<close> of none of the four harmonic
  groups, so no eccentric formula receives it; both functions return without an error and
  its entry of the returned array is 0. The object is well formed and the formulas return
  one value per source.
\<close>

theorem unbucketed_sources_stay_zero:
  assumes wf: "well_formed S" and ws: "well_shaped X" and lw: "length which = n_sources S"
    and i: "i < n_sources S" and wi: "which ! i" and ecc_i: "ecc S ! i > ecc_tol S"
    and h: "10000 \<le> harmonics_required S (ecc S ! i)"
  shows "(\<exists>ind_ecc. logical_and (map (\<lambda>e. e > ecc_tol S) (ecc S)) which = Inr ind_ecc \<and>
            ind_ecc ! i \<and>
            list_all (\<lambda>grp. \<exists>match.
                bucket_match (map (harmonics_required S) (ecc S)) ind_ecc grp = Inr match \<and>
                \<not> match ! i) harmonic_groups) \<and>
         (\<exists>out. get_snr_stationary X S t_obs (Some which) = Inr out \<and> out ! rank which i = 0) \<and>
         (\<exists>out. get_snr_evolving X S t_obs n_step (Some which) = Inr out \<and> out ! rank which i = 0)"
proof (intro conjI)
  have le: "length (ecc S) = n_sources S"
    using wf by (simp add: well_formed_def)
  define ind_ecc where "ind_ecc = map (\<lambda>(x, y). x \<and> y) (zip (map (\<lambda>e. e > ecc_tol S) (ecc S)) which)"
  have la: "logical_and (map (\<lambda>e. e > ecc_tol S) (ecc S)) which = Inr ind_ecc"
    using le lw by (simp add: logical_and_same ind_ecc_def)
  have ie: "ind_ecc ! i"
    using i le lw wi ecc_i by (simp add: ind_ecc_def)
  have lie: "length (map (harmonics_required S) (ecc S)) = length ind_ecc"
    using le lw by (simp add: ind_ecc_def)
  have "list_all (\<lambda>grp. \<exists>match.
          bucket_match (map (harmonics_required S) (ecc S)) ind_ecc grp = Inr match \<and>
          \<not> match ! i) harmonic_groups"
    using h i le lie
    by (simp add: harmonic_groups_def bucket_match_ok [OF lie])
  with la ie show "\<exists>ind_ecc. logical_and (map (\<lambda>e. e > ecc_tol S) (ecc S)) which = Inr ind_ecc \<and>
            ind_ecc ! i \<and>
            list_all (\<lambda>grp. \<exists>match.
                bucket_match (map (harmonics_required S) (ecc S)) ind_ecc grp = Inr match \<and>
                \<not> match ! i) harmonic_groups"
    by blast
next
  from snr_stationary_full_unbucketed [OF wf ws lw i ecc_i h, of t_obs]
  obtain full where f: "snr_stationary_full X S t_obs which = Inr full"
      "length full = n_sources S" "full ! i = 0"
    by blast
  have "map snd (filter fst (zip which full)) ! rank which i = full ! i"
    by (rule select_nth) (use lw f i wi in simp_all)
  then show "\<exists>out. get_snr_stationary X S t_obs (Some which) = Inr out \<and> out ! rank which i = 0"
    using f lw by (simp add: get_snr_stationary_def which_or_all_def getitem_mask_ok)
next
  from snr_evolving_full_unbucketed [OF wf ws lw i ecc_i h, of t_obs n_step]
  obtain full where f: "snr_evolving_full X S t_obs n_step which = Inr full"
      "length full = n_sources S" "full ! i = 0"
    by blast
  have "map snd (filter fst (zip which full)) ! rank which i = full ! i"
    by (rule select_nth) (use lw f i wi in simp_all)
  then show "\<exists>out. get_snr_evolving X S t_obs n_step (Some which) = Inr out \<and> out ! rank which i = 0"
    using f lw by (simp add: get_snr_evolving_def which_or_all_def getitem_mask_ok)
qed

theorem unbucketed_sources_stay_zero_witness:
  "well_formed example_source \<and> well_shaped example_externals \<and>
   length [False, False, True, True] = n_sources example_source \<and>
   3 < n_sources example_source \<and> [False, False, True, True] ! 3 \<and>
   ecc example_source ! 3 > ecc_tol example_source \<and>
   10000 \<le> harmonics_required example_source (ecc example_source ! 3) \<and>
   (\<exists>ind_ecc. logical_and (map (\<lambda>e. e > ecc_tol example_source) (ecc example_source))
                 [False, False, True, True] = Inr ind_ecc \<and>
      ind_ecc ! 3 \<and>
      list_all (\<lambda>grp. \<exists>match.
          bucket_match (map (harmonics_required example_source) (ecc example_source)) ind_ecc grp
            = Inr match \<and> \<not> match ! 3) harmonic_groups) \<and>
   (\<exists>out. get_snr_stationary example_externals example_source 4 (Some [False, False, True, True])
            = Inr out \<and> out ! rank [False, False, True, True] 3 = 0) \<and>
   (\<exists>out. get_snr_evolving example_externals example_source 4 100 (Some [False, False, True, True])
            = Inr out \<and> out ! rank [False, False, True, True] 3 = 0)"
proof -
  have h: "length [False, False, True, True] = n_sources example_source"
    "3 < n_sources example_source" "[False, False, True, True] ! 3"
    "ecc example_source ! 3 > ecc_tol example_source"
    "10000 \<le> harmonics_required example_source (ecc example_source ! 3)"
    by (simp_all add: example_source_def)
  from unbucketed_sources_stay_zero [OF example_well_formed example_well_shaped h, of 4 100]
  show ?thesis
    using example_well_formed example_well_shaped h by blast
qed

section \<open>get_source_mask\<close>

text \<open>
  Claim C7. A value of \<^verbatim>\<open>circular\<close> other than \<^verbatim>\<open>None\<close>, \<^verbatim>\<open>True\<close> and \<^verbatim>\<open>False\<close>
  makes \<^verbatim>\<open>get_source_mask\<close> raise the ValueError that names \<^verbatim>\<open>circular\<close>; with a valid
  \<^verbatim>\<open>circular\<close>, such a value of \<^verbatim>\<open>stationary\<close> makes it raise the ValueError that
  names \<^verbatim>\<open>stationary\<close>; and for every valid pair it returns a boolean mask with one entry
  per source, the conjunction of the two selections (the eccentricity array has the
  length the constructor gave it, and \<^verbatim>\<open>determine_stationarity\<close> returns one entry per
  source).
\<close>

theorem get_source_mask_tri_state:
  "(\<not> tri_state circular \<longrightarrow>
      get_source_mask X S circular stationary t_obs
        = Inl (ValueError ''`circular` must be None, True or False'')) \<and>
   (tri_state circular \<and> \<not> tri_state stationary \<longrightarrow>
      get_source_mask X S circular stationary t_obs
        = Inl (ValueError ''`stationary` must be None, True or False'')) \<and>
   (tri_state circular \<and> tri_state stationary \<and> length (ecc S) = n_sources S \<and>
    length (determine_stationarity X (m_c S) (f_orb S) t_obs (ecc S) (stat_tol S)) = n_sources S \<longrightarrow>
      (\<exists>msk. get_source_mask X S circular stationary t_obs = Inr msk \<and>
         length msk = n_sources S \<and>
         (\<forall>j<n_sources S. msk ! j \<longleftrightarrow>
            (circular = PyNone \<or> (circular = PyBool True \<and> ecc S ! j \<le> ecc_tol S) \<or>
               (circular = PyBool False \<and> ecc S ! j > ecc_tol S)) \<and>
            (stationary = PyNone \<or>
               (stationary = PyBool True \<and>
                  determine_stationarity X (m_c S) (f_orb S) t_obs (ecc S) (stat_tol S) ! j) \<or>
               (stationary = PyBool False \<and>
                  \<not> determine_stationarity X (m_c S) (f_orb S) t_obs (ecc S) (stat_tol S) ! j)))))"
proof (intro conjI impI)
  assume "\<not> tri_state circular"
  then show "get_source_mask X S circular stationary t_obs
        = Inl (ValueError ''`circular` must be None, True or False'')"
    by (simp add: tri_state_def get_source_mask_def)
next
  assume "tri_state circular \<and> \<not> tri_state stationary"
  then show "get_source_mask X S circular stationary t_obs
        = Inl (ValueError ''`stationary` must be None, True or False'')"
    by (auto simp: tri_state_def get_source_mask_def)
next
  assume a: "tri_state circular \<and> tri_state stationary \<and> length (ecc S) = n_sources S \<and>
    length (determine_stationarity X (m_c S) (f_orb S) t_obs (ecc S) (stat_tol S)) = n_sources S"
  define ds where "ds = determine_stationarity X (m_c S) (f_orb S) t_obs (ecc S) (stat_tol S)"
  define cm where "cm = (if circular = PyNone then replicate (n_sources S) True
      else if circular = PyBool True then map (\<lambda>e. e \<le> ecc_tol S) (ecc S)
      else map (\<lambda>e. e > ecc_tol S) (ecc S))"
  define st where "st = (if stationary = PyNone then replicate (n_sources S) True
      else if stationary = PyBool False then map Not ds else ds)"
  have lens: "length cm = n_sources S" "length st = n_sources S"
    using a by (simp_all add: cm_def st_def ds_def)
  have eq: "get_source_mask X S circular stationary t_obs = logical_and cm st"
    using a by (auto simp: tri_state_def get_source_mask_def cm_def st_def ds_def Let_def)
  have "logical_and cm st = Inr (map (\<lambda>(x, y). x \<and> y) (zip cm st))"
    using lens by (simp add: logical_and_same)
  moreover have "\<forall>j<n_sources S. map (\<lambda>(x, y). x \<and> y) (zip cm st) ! j \<longleftrightarrow>
            (circular = PyNone \<or> (circular = PyBool True \<and> ecc S ! j \<le> ecc_tol S) \<or>
               (circular = PyBool False \<and> ecc S ! j > ecc_tol S)) \<and>
            (stationary = PyNone \<or> (stationary = PyBool True \<and> ds ! j) \<or>
               (stationary = PyBool False \<and> \<not> ds ! j))"
    using a lens by (auto simp: cm_def st_def ds_def tri_state_def)
  ultimately show "\<exists>msk. get_source_mask X S circular stationary t_obs = Inr msk \<and>
         length msk = n_sources S \<and>
         (\<forall>j<n_sources S. msk ! j \<longleftrightarrow>
            (circular = PyNone \<or> (circular = PyBool True \<and> ecc S ! j \<le> ecc_tol S) \<or>
               (circular = PyBool False \<and> ecc S ! j > ecc_tol S)) \<and>
            (stationary = PyNone \<or>
               (stationary = PyBool True \<and>
                  determine_stationarity X (m_c S) (f_orb S) t_obs (ecc S) (stat_tol S) ! j) \<or>
               (stationary = PyBool False \<and>
                  \<not> determine_stationarity X (m_c S) (f_orb S) t_obs (ecc S) (stat_tol S) ! j)))"
    using eq lens unfolding ds_def by simp
qed

theorem get_source_mask_tri_state_witness:
  "\<not> tri_state (PyInt 1) \<and>
   get_source_mask example_externals example_source (PyInt 1) (PyBool True) 4
     = Inl (ValueError ''`circular` must be None, True or False'') \<and>
   tri_state (PyBool True) \<and> \<not> tri_state (PyStr ''yes'') \<and>
   get_source_mask example_externals example_source (PyBool True) (PyStr ''yes'') 4
     = Inl (ValueError ''`stationary` must be None, True or False'') \<and>
   tri_state (PyBool False) \<and> length (ecc example_source) = n_sources example_source \<and>
   length (determine_stationarity example_externals (m_c example_source) (f_orb example_source) 4
     (ecc example_source) (stat_tol example_source)) = n_sources example_source \<and>
   (\<exists>msk. get_source_mask example_externals example_source (PyBool False) (PyBool True) 4 = Inr msk \<and>
      length msk = n_sources example_source \<and> msk = [False, True, False, False])"
proof -
  have t: "\<not> tri_state (PyInt 1)" "tri_state (PyBool True)" "\<not> tri_state (PyStr ''yes'')"
    "tri_state (PyBool False)"
    by (simp_all add: tri_state_def)
  have l: "length (ecc example_source) = n_sources example_source"
    "length (determine_stationarity example_externals (m_c example_source) (f_orb example_source) 4
     (ecc example_source) (stat_tol example_source)) = n_sources example_source"
    by (simp_all add: example_stationarity) (simp_all add: example_source_def)
  have n: "n_sources example_source = 4" "ecc example_source = [0, 1/2, 0, 9/10]"
    "ecc_tol example_source = 1/10"
    by (simp_all add: example_source_def)
  from get_source_mask_tri_state [of "PyInt 1" example_externals example_source "PyBool True" 4] t
  have a: "get_source_mask example_externals example_source (PyInt 1) (PyBool True) 4
     = Inl (ValueError ''`circular` must be None, True or False'')"
    by blast
  from get_source_mask_tri_state [of "PyBool True" example_externals example_source "PyStr ''yes''" 4] t
  have b: "get_source_mask example_externals example_source (PyBool True) (PyStr ''yes'') 4
     = Inl (ValueError ''`stationary` must be None, True or False'')"
    by blast
  from get_source_mask_tri_state [of "PyBool False" example_externals example_source "PyBool True" 4] t l
  obtain msk where m: "get_source_mask example_externals example_source (PyBool False) (PyBool True) 4 = Inr msk"
    "length msk = n_sources example_source"
    "\<forall>j<n_sources example_source. msk ! j \<longleftrightarrow>
        ecc example_source ! j > ecc_tol example_source \<and>
        determine_stationarity example_externals (m_c example_source) (f_orb example_source) 4
          (ecc example_source) (stat_tol example_source) ! j"
    by auto
  have "msk = [False, True, False, False]"
    using m(2) m(3) [unfolded example_stationarity]
    by (simp add: n list_eq_iff_nth_eq less_Suc_eq numeral_eq_Suc all_conj_distrib)
  with a b t l m show ?thesis by blast
qed

section \<open>Grids and interpolation: facts\<close>

lemma linspace_length [simp]: "length (linspace start stop num) = num"
  by (simp add: linspace_def)

lemma logspace_length [simp]: "length (logspace start stop num) = num"
  by (simp add: logspace_def)

lemma linspace_nth:
  "i < num \<Longrightarrow> linspace start stop num ! i = start + real i * ((stop - start) / real (num - 1))"
  by (simp add: linspace_def)

lemma linspace_first: "0 < num \<Longrightarrow> linspace start stop num ! 0 = start"
  by (simp add: linspace_nth)

lemma linspace_last: "2 \<le> num \<Longrightarrow> linspace start stop num ! (num - 1) = stop"
  by (simp add: linspace_nth)

lemma linspace_mono:
  assumes "start \<le> stop" "i \<le> j" "j < num"
  shows "linspace start stop num ! i \<le> linspace start stop num ! j"
proof -
  have "real i * ((stop - start) / real (num - 1)) \<le> real j * ((stop - start) / real (num - 1))"
    using assms by (intro mult_right_mono) simp_all
  then show ?thesis
    using assms by (simp add: linspace_nth)
qed

lemma linspace_strict_mono:
  assumes "start < stop" "i < j" "j < num"
  shows "linspace start stop num ! i < linspace start stop num ! j"
proof -
  have "0 < (stop - start) / real (num - 1)"
    using assms by simp
  then have "real i * ((stop - start) / real (num - 1)) < real j * ((stop - start) / real (num - 1))"
    using assms by (intro mult_strict_right_mono) simp_all
  then show ?thesis
    using assms by (simp add: linspace_nth)
qed

lemma linspace_strict_anti:
  assumes "stop < start" "i < j" "j < num"
  shows "linspace start stop num ! j < linspace start stop num ! i"
proof -
  have "0 < (start - stop) / real (num - 1)"
    using assms by simp
  then have "real i * ((start - stop) / real (num - 1)) < real j * ((start - stop) / real (num - 1))"
    using assms by (intro mult_strict_right_mono) simp_all
  moreover have "(stop - start) / real (num - 1) = - ((start - stop) / real (num - 1))"
    by (simp add: minus_divide_left)
  ultimately show ?thesis
    using assms by (simp add: linspace_nth)
qed

lemma logspace_nth:
  "i < num \<Longrightarrow> logspace start stop num ! i = 10 powr (linspace start stop num ! i)"
  by (simp add: logspace_def)

lemma logspace_sorted: "start \<le> stop \<Longrightarrow> sorted (logspace start stop num)"
  by (auto simp: sorted_iff_nth_mono logspace_nth intro: linspace_mono)

lemma frequency_range_bounds:
  "length frequency_range = 10000" "sorted frequency_range"
  "hd frequency_range = 1 / 10 ^ 7" "last frequency_range = 2"
proof -
  show "length frequency_range = 10000"
    by (simp add: frequency_range_def)
  have "(0::real) \<le> log 10 2"
    by simp
  then have "- 7 \<le> log 10 2"
    by linarith
  then show "sorted frequency_range"
    unfolding frequency_range_def by (rule logspace_sorted)
  have "hd frequency_range = frequency_range ! 0"
    by (rule hd_conv_nth) (simp add: frequency_range_def flip: length_0_conv)
  also have "\<dots> = 10 powr (- 7)"
    by (simp add: frequency_range_def logspace_nth linspace_first)
  also have "\<dots> = 1 / 10 ^ 7"
    by (simp add: powr_minus_divide)
  finally show "hd frequency_range = 1 / 10 ^ 7" .
  have "last frequency_range = frequency_range ! (10000 - 1)"
    by (subst last_conv_nth) (simp_all add: frequency_range_def flip: length_0_conv)
  also have "\<dots> = 10 powr (linspace (- 7) (log 10 2) 10000 ! (10000 - 1))"
    by (simp add: frequency_range_def logspace_nth)
  also have "linspace (- 7) (log 10 2) 10000 ! (10000 - 1) = log 10 2"
    by (rule linspace_last) simp
  also have "10 powr (log 10 2) = (2::real)"
    by simp
  finally show "last frequency_range = 2" .
qed

lemma sorted_grid_unchanged:
  assumes "sorted x" "length x = length y"
  shows "sort_key fst (zip x y) = zip x y"
  by (rule sort_key_id_if_sorted) (use assms in simp)

lemma interp1d_call_below:
  assumes "sorted x" "length x = length y" "x_new < hd x"
  shows "interp1d_call x y fill_below fill_above x_new = fill_below"
  using assms by (simp add: interp1d_call_def sorted_grid_unchanged Let_def)

lemma interp1d_call_above:
  assumes "sorted x" "length x = length y" "x_new > last x" "x \<noteq> []"
  shows "interp1d_call x y fill_below fill_above x_new = fill_above"
proof -
  have "hd x \<le> last x"
    using assms(1,4) by (metis hd_conv_nth last_conv_nth sorted_iff_nth_mono diff_less
        length_greater_0_conv zero_le less_numeral_extra(1))
  then show ?thesis
    using assms by (simp add: interp1d_call_def sorted_grid_unchanged Let_def)
qed

section \<open>The sensitivity curve\<close>

lemma example_set_sc:
  "set_sc example_helpers (example_source\<lparr>interpolate_sc := True, sc_params := p\<rparr>) =
     Inr (example_source\<lparr>interpolate_sc := True, sc_params := p,
            sc_interp := Some (interp1d_call frequency_range (map (\<lambda>f. 1) frequency_range)
                                 (10 ^ 30) (10 ^ 30))\<rparr>)"
  by (simp add: set_sc_def interp1d_def example_helpers_def Let_def)

text \<open>
  Claim C8. With \<^verbatim>\<open>interpolate_sc\<close> set, the callable that \<^verbatim>\<open>set_sc\<close> stores returns the
  fill value \<open>10\<^sup>3\<^sup>0\<close> for every query frequency below \<open>10\<^sup>-\<^sup>7\<close> Hz or above 2 Hz, the
  ends of the interpolation grid; the query is not an error.
\<close>

theorem sc_out_of_range_is_fill_value:
  assumes "set_sc H S = Inr S'" and "interpolate_sc S" and "f < 1 / 10 ^ 7 \<or> 2 < f"
  shows "\<exists>sc_fun. sc_interp S' = Some sc_fun \<and> sc_fun f = 10 ^ 30"
proof -
  define vals where "vals = power_spectral_density H frequency_range (default_params ++ sc_params S)"
  from assms(1,2) have len: "length frequency_range = length vals"
    and S': "S' = S\<lparr>sc_interp := Some (interp1d_call frequency_range vals (10 ^ 30) (10 ^ 30))\<rparr>"
    by (auto simp: set_sc_def interp1d_def Let_def vals_def err_bind_eq_Inr split: if_splits)
  have ne: "frequency_range \<noteq> []"
    using frequency_range_bounds(1) by auto
  have "interp1d_call frequency_range vals (10 ^ 30) (10 ^ 30) f = 10 ^ 30"
  proof (cases "f < 1 / 10 ^ 7")
    case True
    then show ?thesis
      using frequency_range_bounds len by (intro interp1d_call_below) simp_all
  next
    case False
    with assms(3) have "2 < f" by simp
    then show ?thesis
      using frequency_range_bounds len ne by (intro interp1d_call_above) simp_all
  qed
  with S' show ?thesis by simp
qed

theorem sc_out_of_range_is_fill_value_witness:
  "set_sc example_helpers (example_source\<lparr>interpolate_sc := True, sc_params := Map.empty\<rparr>) =
     Inr (example_source\<lparr>interpolate_sc := True, sc_params := Map.empty,
            sc_interp := Some (interp1d_call frequency_range (map (\<lambda>f. 1) frequency_range)
                                 (10 ^ 30) (10 ^ 30))\<rparr>) \<and>
   interpolate_sc (example_source\<lparr>interpolate_sc := True, sc_params := Map.empty\<rparr>) \<and>
   (3::real) > 2 \<and>
   interp1d_call frequency_range (map (\<lambda>f. 1) frequency_range) (10 ^ 30) (10 ^ 30) 3 = 10 ^ 30"
proof -
  have i: "interpolate_sc (example_source\<lparr>interpolate_sc := True, sc_params := Map.empty\<rparr>)"
    by simp
  have f: "(3::real) < 1 / 10 ^ 7 \<or> 2 < (3::real)"
    by simp
  from sc_out_of_range_is_fill_value [OF example_set_sc i f]
  have "interp1d_call frequency_range (map (\<lambda>f. 1) frequency_range) (10 ^ 30) (10 ^ 30) 3 = 10 ^ 30"
    by simp
  with example_set_sc [of Map.empty] i show ?thesis
    by simp
qed

lemma number_of_cases:
  "number_of x = None \<longleftrightarrow> (x = ParamNone \<or> (\<exists>s. x = ParamStr s) \<or> (\<exists>v u. x = ParamQuantity v u))"
  by (cases x) simp_all

lemma py_eq_numbers:
  "number_of x = Some v \<Longrightarrow> number_of y = Some w \<Longrightarrow> py_eq H x y \<longleftrightarrow> v = w"
  by (cases x; cases y) (simp_all add: py_eq_def)

lemma dict_eq_single:
  "dict_eq H [k \<mapsto> x] [k \<mapsto> y] \<longleftrightarrow> py_eq H x y"
  by (simp add: dict_eq_def)

lemma dict_eq_empty: "dict_eq H Map.empty Map.empty"
  by (simp add: dict_eq_def)

text \<open>
  Claim C9. \<^verbatim>\<open>update_sc_params\<close> rebuilds the sensitivity curve exactly when the supplied
  parameters differ from the stored ones, in the sense of Python's comparison of two
  dictionaries. Called with parameters equal to the stored ones (the same keys, with
  values equal by \<^verbatim>\<open>==\<close>, so that the integer \<open>2500000000\<close> counts as the float
  \<open>2.5e9\<close>), it leaves the object as it is: neither \<^verbatim>\<open>_sc_params\<close> nor the callable
  \<^verbatim>\<open>sc\<close> changes. Called with different parameters it stores them and runs \<^verbatim>\<open>set_sc\<close>,
  which rebuilds the curve from the defaults overridden by the new parameters.
\<close>

theorem update_sc_params_rebuilds_iff_changed:
  "(dict_eq H new_params (sc_params S) \<longrightarrow> update_sc_params H S new_params = Inr S) \<and>
   (\<not> dict_eq H new_params (sc_params S) \<longrightarrow>
      update_sc_params H S new_params = set_sc H (S\<lparr>sc_params := new_params\<rparr>) \<and>
      (\<forall>S'. update_sc_params H S new_params = Inr S' \<longrightarrow>
         sc_params S' = new_params \<and>
         sc_interp S' =
           (if interpolate_sc S
            then Some (interp1d_call frequency_range
                   (power_spectral_density H frequency_range (default_params ++ new_params))
                   (10 ^ 30) (10 ^ 30))
            else None)))"
  by (auto simp: update_sc_params_def set_sc_def interp1d_def Let_def err_bind_eq_Inr
      split: if_splits)

theorem update_sc_params_rebuilds_iff_changed_witness:
  "dict_eq example_helpers [''L'' \<mapsto> ParamFloat 2500000000]
     (sc_params (example_source\<lparr>interpolate_sc := True,
                                sc_params := [''L'' \<mapsto> ParamInt 2500000000]\<rparr>)) \<and>
   update_sc_params example_helpers
     (example_source\<lparr>interpolate_sc := True, sc_params := [''L'' \<mapsto> ParamInt 2500000000]\<rparr>)
     [''L'' \<mapsto> ParamFloat 2500000000]
     = Inr (example_source\<lparr>interpolate_sc := True,
                            sc_params := [''L'' \<mapsto> ParamInt 2500000000]\<rparr>) \<and>
   \<not> dict_eq example_helpers [''L'' \<mapsto> ParamFloat 3]
       (sc_params (example_source\<lparr>interpolate_sc := True,
                                  sc_params := [''L'' \<mapsto> ParamInt 2500000000]\<rparr>)) \<and>
   update_sc_params example_helpers
     (example_source\<lparr>interpolate_sc := True, sc_params := [''L'' \<mapsto> ParamInt 2500000000]\<rparr>)
     [''L'' \<mapsto> ParamFloat 3]
     = Inr (example_source\<lparr>interpolate_sc := True, sc_params := [''L'' \<mapsto> ParamFloat 3],
            sc_interp := Some (interp1d_call frequency_range (map (\<lambda>f. 1) frequency_range)
                                 (10 ^ 30) (10 ^ 30))\<rparr>)"
proof -
  define S where "S = example_source\<lparr>interpolate_sc := True,
                                     sc_params := [''L'' \<mapsto> ParamInt 2500000000]\<rparr>"
  have p: "sc_params S = [''L'' \<mapsto> ParamInt 2500000000]"
    by (simp add: S_def)
  have e: "dict_eq example_helpers [''L'' \<mapsto> ParamFloat 2500000000] (sc_params S)"
    unfolding p dict_eq_single by (simp add: py_eq_def)
  have ne: "\<not> dict_eq example_helpers [''L'' \<mapsto> ParamFloat 3] (sc_params S)"
    unfolding p dict_eq_single by (simp add: py_eq_def)
  from update_sc_params_rebuilds_iff_changed
         [of example_helpers "[''L'' \<mapsto> ParamFloat 2500000000]" S] e
  have a: "update_sc_params example_helpers S [''L'' \<mapsto> ParamFloat 2500000000] = Inr S"
    by blast
  from update_sc_params_rebuilds_iff_changed [of example_helpers "[''L'' \<mapsto> ParamFloat 3]" S] ne
  have "update_sc_params example_helpers S [''L'' \<mapsto> ParamFloat 3]
     = set_sc example_helpers (S\<lparr>sc_params := [''L'' \<mapsto> ParamFloat 3]\<rparr>)"
    by blast
  also have "S\<lparr>sc_params := [''L'' \<mapsto> ParamFloat 3]\<rparr>
     = example_source\<lparr>interpolate_sc := True, sc_params := [''L'' \<mapsto> ParamFloat 3]\<rparr>"
    by (simp add: S_def)
  finally have b: "update_sc_params example_helpers S [''L'' \<mapsto> ParamFloat 3]
     = Inr (example_source\<lparr>interpolate_sc := True, sc_params := [''L'' \<mapsto> ParamFloat 3],
            sc_interp := Some (interp1d_call frequency_range (map (\<lambda>f. 1) frequency_range)
                                 (10 ^ 30) (10 ^ 30))\<rparr>)"
    by (simp only: example_set_sc)
  from e ne a b show ?thesis
    unfolding S_def by blast
qed

section \<open>The constructor\<close>

lemma assert_units_loop:
  "for_each assert_units [(v1, n1), (v2, n2), (v3, n3), (v4, n4), (v5, n5)] () =
     (if \<not> is_quantity v1 then Inl (AssertionError (''`'' @ n1 @ ''` must have units''))
      else if \<not> is_quantity v2 then Inl (AssertionError (''`'' @ n2 @ ''` must have units''))
      else if \<not> is_quantity v3 then Inl (AssertionError (''`'' @ n3 @ ''` must have units''))
      else if \<not> is_quantity v4 then Inl (AssertionError (''`'' @ n4 @ ''` must have units''))
      else if \<not> is_quantity v5 then Inl (AssertionError (''`'' @ n5 @ ''` must have units''))
      else Inr ())"
  by (simp add: assert_units_def)

text \<open>The loop fails on the first argument, in the order of \<^verbatim>\<open>unit_args\<close>, that has no unit.\<close>

lemma assert_units_first:
  assumes "find (\<lambda>(v, name). \<not> is_quantity v) [(v1, n1), (v2, n2), (v3, n3), (v4, n4), (v5, n5)]
             = Some (v, name)"
  shows "for_each assert_units [(v1, n1), (v2, n2), (v3, n3), (v4, n4), (v5, n5)] ()
           = Inl (AssertionError (''`'' @ name @ ''` must have units''))"
  using assms unfolding assert_units_loop by (auto split: if_splits)

text \<open>
  Claim C6 says that the assertion on the units is raised before any derived quantity is
  computed from the inputs. It is not the first thing \<^verbatim>\<open>__init__\<close> does with them.
  Called with masses and a frequency that carry units, no semi-major axis, and a distance
  that is a plain number, it first derives the semi-major axis from the frequency and the
  masses, and only then fails on \<^verbatim>\<open>dist\<close>.
\<close>

theorem init_derives_before_asserting:
  "\<not> is_quantity (PyFloat 8) \<and>
   source_init example_helpers (PyQuantity [10] ''Msun'') (PyQuantity [10] ''Msun'') (PyArray [0])
     (PyFloat 8) 1 (PyQuantity [1/1000] ''Hz'') PyNone (5/100) (1/100) True True Map.empty
   = ([Derived_a], Inl (AssertionError ''`dist` must have units''))"
  by (simp add: is_quantity_def source_init_def example_helpers_def assert_units_def)

text \<open>
  Claim C6, as the code has it. \<^verbatim>\<open>__init__\<close> first derives whichever of \<^verbatim>\<open>f_orb\<close> and
  \<^verbatim>\<open>a\<close> was not supplied, from the other one and the masses. If that derivation
  returns and any of \<^verbatim>\<open>m_1\<close>, \<^verbatim>\<open>m_2\<close>, \<^verbatim>\<open>dist\<close>, \<^verbatim>\<open>f_orb\<close>, \<^verbatim>\<open>a\<close> is then not a
  quantity with units, construction fails with the AssertionError that names the first
  such parameter in this order, and that derivation is all that has been computed: the
  arrays are not normalised, no chirp mass, harmonic function, eccentricity threshold or
  sensitivity curve has been computed, and no object exists. What happens when the
  derivation itself raises is left open here.
\<close>

theorem init_asserts_units_after_derivation:
  assumes given: "\<not> (f_orb_arg = PyNone \<and> a_arg = PyNone)"
    and f: "(if f_orb_arg = PyNone then get_f_orb_from_a H a_arg m_1_arg m_2_arg
             else Inr f_orb_arg) = Inr f_orb'"
    and a: "(if a_arg = PyNone then get_a_from_f_orb H f_orb' m_1_arg m_2_arg
             else Inr a_arg) = Inr a'"
    and untagged: "find (\<lambda>(v, name). \<not> is_quantity v)
                     [(m_1_arg, ''m_1''), (m_2_arg, ''m_2''), (dist_arg, ''dist''),
                      (f_orb', ''f_orb''), (a', ''a'')] = Some (v, name)"
  shows "source_init H m_1_arg m_2_arg ecc_arg dist_arg n_proc_arg f_orb_arg a_arg gw_lum_tol_arg
           stat_tol_arg interpolate_g interpolate_sc_arg sc_params_arg =
         ((if f_orb_arg = PyNone then [Derived_f_orb] else []) @
          (if a_arg = PyNone then [Derived_a] else []),
          Inl (AssertionError (''`'' @ name @ ''` must have units'')))"
proof -
  note loop = assert_units_first [OF untagged]
  show ?thesis
  proof (cases "f_orb_arg = PyNone")
    case True
    with given have an: "a_arg \<noteq> PyNone" by simp
    from f True have f': "get_f_orb_from_a H a_arg m_1_arg m_2_arg = Inr f_orb'" by simp
    from a an have a': "a' = a_arg" by simp
    show ?thesis
      using loop by (simp add: source_init_def True an f' a' del: for_each.simps)
  next
    case False
    with f have f': "f_orb' = f_orb_arg" by simp
    show ?thesis
    proof (cases "a_arg = PyNone")
      case True
      with a have a': "get_a_from_f_orb H f_orb_arg m_1_arg m_2_arg = Inr a'"
        by (simp add: f')
      show ?thesis
        using loop by (simp add: source_init_def False True f' a' del: for_each.simps)
    next
      case an: False
      with a have a': "a' = a_arg" by simp
      show ?thesis
        using loop by (simp add: source_init_def False an f' a' del: for_each.simps)
    qed
  qed
qed

theorem init_asserts_units_after_derivation_witness:
  "get_a_from_f_orb example_helpers (PyQuantity [1/1000] ''Hz'') (PyQuantity [10] ''Msun'')
     (PyQuantity [10] ''Msun'') = Inr (PyQuantity [1] ''AU'') \<and>
   find (\<lambda>(v, name). \<not> is_quantity v)
     [(PyQuantity [10] ''Msun'', ''m_1''), (PyQuantity [10] ''Msun'', ''m_2''), (PyFloat 8, ''dist''),
      (PyQuantity [1/1000] ''Hz'', ''f_orb''), (PyQuantity [1] ''AU'', ''a'')]
     = Some (PyFloat 8, ''dist'') \<and>
   source_init example_helpers (PyQuantity [10] ''Msun'') (PyQuantity [10] ''Msun'') (PyArray [0])
     (PyFloat 8) 1 (PyQuantity [1/1000] ''Hz'') PyNone (5/100) (1/100) True True Map.empty
   = ([Derived_a], Inl (AssertionError ''`dist` must have units'')) \<and>
   find (\<lambda>(v, name). \<not> is_quantity v)
     [(PyQuantity [10] ''Msun'', ''m_1''), (PyFloat 10, ''m_2''), (PyFloat 8, ''dist''),
      (PyQuantity [1/1000] ''Hz'', ''f_orb''), (PyFloat 1, ''a'')]
     = Some (PyFloat 10, ''m_2'') \<and>
   source_init example_helpers (PyQuantity [10] ''Msun'') (PyFloat 10) (PyArray [0])
     (PyFloat 8) 1 (PyQuantity [1/1000] ''Hz'') (PyFloat 1) (5/100) (1/100) True True Map.empty
   = ([], Inl (AssertionError ''`m_2` must have units''))"
proof -
  have g: "\<not> (PyQuantity [1/1000] ''Hz'' = PyNone \<and> PyNone = PyNone)"
    by simp
  have f: "(if PyQuantity [1/1000] ''Hz'' = PyNone
    then get_f_orb_from_a example_helpers PyNone (PyQuantity [10] ''Msun'') (PyQuantity [10] ''Msun'')
    else Inr (PyQuantity [1/1000] ''Hz'')) = Inr (PyQuantity [1/1000] ''Hz'')"
    by simp
  have d: "get_a_from_f_orb example_helpers (PyQuantity [1/1000] ''Hz'') (PyQuantity [10] ''Msun'')
     (PyQuantity [10] ''Msun'') = Inr (PyQuantity [1] ''AU'')"
    by (simp add: example_helpers_def is_quantity_def)
  then have a: "(if PyNone = PyNone
    then get_a_from_f_orb example_helpers (PyQuantity [1/1000] ''Hz'') (PyQuantity [10] ''Msun'')
           (PyQuantity [10] ''Msun'')
    else Inr PyNone) = Inr (PyQuantity [1] ''AU'')"
    by simp
  have u: "find (\<lambda>(v, name). \<not> is_quantity v)
     [(PyQuantity [10] ''Msun'', ''m_1''), (PyQuantity [10] ''Msun'', ''m_2''), (PyFloat 8, ''dist''),
      (PyQuantity [1/1000] ''Hz'', ''f_orb''), (PyQuantity [1] ''AU'', ''a'')]
     = Some (PyFloat 8, ''dist'')"
    by (simp add: is_quantity_def)
  have g2: "\<not> (PyQuantity [1/1000] ''Hz'' = PyNone \<and> PyFloat 1 = PyNone)"
    by simp
  have a2: "(if PyFloat 1 = PyNone
    then get_a_from_f_orb example_helpers (PyQuantity [1/1000] ''Hz'') (PyQuantity [10] ''Msun'')
           (PyFloat 10)
    else Inr (PyFloat 1)) = Inr (PyFloat 1)"
    by simp
  have f2: "(if PyQuantity [1/1000] ''Hz'' = PyNone
    then get_f_orb_from_a example_helpers (PyFloat 1) (PyQuantity [10] ''Msun'') (PyFloat 10)
    else Inr (PyQuantity [1/1000] ''Hz'')) = Inr (PyQuantity [1/1000] ''Hz'')"
    by simp
  have u2: "find (\<lambda>(v, name). \<not> is_quantity v)
     [(PyQuantity [10] ''Msun'', ''m_1''), (PyFloat 10, ''m_2''), (PyFloat 8, ''dist''),
      (PyQuantity [1/1000] ''Hz'', ''f_orb''), (PyFloat 1, ''a'')]
     = Some (PyFloat 10, ''m_2'')"
    by (simp add: is_quantity_def)
  from init_asserts_units_after_derivation [OF g f a u, of "PyArray [0]" 1 "5/100" "1/100" True
      True Map.empty]
  have r: "source_init example_helpers (PyQuantity [10] ''Msun'') (PyQuantity [10] ''Msun'')
     (PyArray [0]) (PyFloat 8) 1 (PyQuantity [1/1000] ''Hz'') PyNone (5/100) (1/100) True True
     Map.empty = ([Derived_a], Inl (AssertionError ''`dist` must have units''))"
    by simp
  from init_asserts_units_after_derivation [OF g2 f2 a2 u2, of "PyArray [0]" 1 "5/100" "1/100" True
      True Map.empty]
  have r2: "source_init example_helpers (PyQuantity [10] ''Msun'') (PyFloat 10) (PyArray [0])
     (PyFloat 8) 1 (PyQuantity [1/1000] ''Hz'') (PyFloat 1) (5/100) (1/100) True True Map.empty
   = ([], Inl (AssertionError ''`m_2` must have units''))"
    by simp
  from d u r u2 r2 show ?thesis
    by blast
qed

section \<open>find_eccentric_transition\<close>

lemma select_by_predicate:
  "map snd (filter fst (zip (map P xs) xs)) = filter P xs"
  by (induction xs) simp_all

lemma transition_grid_length [simp]: "length transition_grid = 10000"
  by (simp add: transition_grid_def)

lemma transition_grid_nth: "i < 10000 \<Longrightarrow> transition_grid ! i = real i * (2 / 99990)"
  by (simp add: transition_grid_def linspace_nth)

lemma transition_grid_increasing: "sorted_wrt (<) transition_grid"
  unfolding sorted_wrt_iff_nth_less transition_grid_def
  by (auto intro: linspace_strict_mono)

lemma compare_arrays:
  "map (\<lambda>(c, l). c < l) (zip (map f xs) (map h xs)) = map (\<lambda>e. f e < h e) xs"
  by (induction xs) simp_all

text \<open>The eccentricities \<^verbatim>\<open>e_range[circular_lum < lum_within_tolerance]\<close>.\<close>

lemma find_eccentric_transition_filter:
  "find_eccentric_transition H S =
     (case filter (\<lambda>e. peters_g H 2 e < (1 - gw_lum_tol S) * peters_f H e) transition_grid of
        [] \<Rightarrow> Inl (IndexError ''index 0 is out of bounds for axis 0 with size 0'')
      | e # _ \<Rightarrow> Inr (S\<lparr>ecc_tol := e\<rparr>))"
proof -
  have "map (\<lambda>(c, l). c < l)
          (zip (map (peters_g H 2) transition_grid)
               (map (\<lambda>e. (1 - gw_lum_tol S) * peters_f H e) transition_grid))
        = map (\<lambda>e. peters_g H 2 e < (1 - gw_lum_tol S) * peters_f H e) transition_grid"
    by (rule compare_arrays)
  then show ?thesis
    by (simp add: find_eccentric_transition_def Let_def getitem_mask_def select_by_predicate)
qed

lemma first_match_split:
  assumes "filter P xs = e # rest"
  shows "\<exists>pre post. xs = pre @ e # post \<and> (\<forall>x\<in>set pre. \<not> P x) \<and> P e"
  using assms by (auto simp: filter_eq_Cons_iff)

lemma first_match_at:
  assumes "k < length xs" "\<forall>j<k. \<not> P (xs ! j)" "P (xs ! k)"
  shows "filter P xs = xs ! k # filter P (drop (Suc k) xs)"
proof -
  have "xs = take k xs @ xs ! k # drop (Suc k) xs"
    using assms(1) by (simp add: id_take_nth_drop)
  moreover have "filter P (take k xs) = []"
    using assms(1,2) by (auto simp: filter_empty_conv in_set_conv_nth)
  ultimately have "filter P xs = filter P (xs ! k # drop (Suc k) xs)"
    by (metis filter_append append_Nil)
  with assms(3) show ?thesis by simp
qed

lemma before_in_increasing:
  assumes "sorted_wrt (<) (pre @ e # post)" "x \<in> set (pre @ e # post)" "x < (e::real)"
  shows "x \<in> set pre"
  using assms by (auto simp: sorted_wrt_append)

lemma after_in_increasing:
  assumes "sorted_wrt (<) (pre @ e # post)" "x \<in> set (pre @ e # post)" "(e::real) < x"
  shows "x \<in> set post"
  using assms by (auto simp: sorted_wrt_append)

lemma find_eccentric_transition_at:
  assumes "k < 10000"
    and "\<forall>j<k. \<not> peters_g H 2 (transition_grid ! j)
                  < (1 - gw_lum_tol S) * peters_f H (transition_grid ! j)"
    and "peters_g H 2 (transition_grid ! k) < (1 - gw_lum_tol S) * peters_f H (transition_grid ! k)"
  shows "find_eccentric_transition H S = Inr (S\<lparr>ecc_tol := transition_grid ! k\<rparr>)"
  unfolding find_eccentric_transition_filter
  using first_match_at [of k transition_grid
      "\<lambda>e. peters_g H 2 e < (1 - gw_lum_tol S) * peters_f H e"] assms
  by simp

lemma example_transition:
  "find_eccentric_transition example_helpers example_source
     = Inr (example_source\<lparr>ecc_tol := 1 / 16665\<rparr>)"
proof -
  have "find_eccentric_transition example_helpers example_source
          = Inr (example_source\<lparr>ecc_tol := transition_grid ! 3\<rparr>)"
    by (rule find_eccentric_transition_at)
       (simp_all add: transition_grid_nth example_helpers_def example_source_def less_Suc_eq
          numeral_3_eq_3)
  then show ?thesis
    by (simp add: transition_grid_nth)
qed

text \<open>
  Where some point of the scanned grid is below tolerance, the method does what its
  comment says: it changes \<^verbatim>\<open>ecc_tol\<close> only, to the first grid point at which
  \<open>g(2, e) < (1 - tol) F(e)\<close>, and at every grid point strictly below that threshold
  \<open>g(2, e) \<ge> (1 - tol) F(e)\<close>.
\<close>

lemma find_eccentric_transition_first_crossing:
  assumes "find_eccentric_transition H S = Inr S'"
  shows "S' = S\<lparr>ecc_tol := ecc_tol S'\<rparr> \<and>
    (\<exists>pre post. transition_grid = pre @ ecc_tol S' # post \<and>
       (\<forall>e\<in>set pre. \<not> peters_g H 2 e < (1 - gw_lum_tol S) * peters_f H e)) \<and>
    peters_g H 2 (ecc_tol S') < (1 - gw_lum_tol S) * peters_f H (ecc_tol S') \<and>
    (\<forall>e\<in>set transition_grid. e < ecc_tol S' \<longrightarrow>
       peters_g H 2 e \<ge> (1 - gw_lum_tol S) * peters_f H e)"
proof -
  define below where "below = (\<lambda>e. peters_g H 2 e < (1 - gw_lum_tol S) * peters_f H e)"
  from assms obtain t rest where flt: "filter below transition_grid = t # rest"
    and S': "S' = S\<lparr>ecc_tol := t\<rparr>"
    unfolding find_eccentric_transition_filter below_def by (auto split: list.splits)
  have t: "ecc_tol S' = t"
    using S' by simp
  from first_match_split [OF flt] obtain pre post where
    grid: "transition_grid = pre @ t # post" and pre: "\<forall>x\<in>set pre. \<not> below x" and bt: "below t"
    by blast
  have inc: "sorted_wrt (<) (pre @ t # post)"
    using transition_grid_increasing grid by simp
  have before: "\<forall>e\<in>set transition_grid. e < t \<longrightarrow> \<not> below e"
    using before_in_increasing [OF inc] pre grid by auto
  show ?thesis
    unfolding t using S' grid pre bt before unfolding below_def
    by (auto simp: not_less)
qed

lemma transition_grid_bounds:
  assumes "e \<in> set transition_grid"
  shows "0 \<le> e \<and> e \<le> 2 / 10"
proof -
  from assms obtain i where i: "i < 10000" and e: "e = transition_grid ! i"
    by (auto simp: in_set_conv_nth)
  have "real i \<le> 9999"
    using i by simp
  then have "real i * (2 / 99990) \<le> 9999 * (2 / 99990)"
    by (intro mult_right_mono) simp_all
  then show ?thesis
    by (simp add: e transition_grid_nth [OF i])
qed

text \<open>The selection \<^verbatim>\<open>e_range[circular_lum < lum_within_tolerance]\<close> is empty, and its
  entry 0 does not exist, exactly when no grid point is below tolerance.\<close>

lemma find_eccentric_transition_raises_iff:
  "find_eccentric_transition H S
     = Inl (IndexError ''index 0 is out of bounds for axis 0 with size 0'') \<longleftrightarrow>
   (\<forall>e\<in>set transition_grid. (1 - gw_lum_tol S) * peters_f H e \<le> peters_g H 2 e)"
proof -
  define below where "below = (\<lambda>e. peters_g H 2 e < (1 - gw_lum_tol S) * peters_f H e)"
  have "find_eccentric_transition H S
          = Inl (IndexError ''index 0 is out of bounds for axis 0 with size 0'') \<longleftrightarrow>
        filter below transition_grid = []"
    unfolding find_eccentric_transition_filter below_def by (simp split: list.splits)
  also have "\<dots> \<longleftrightarrow> (\<forall>e\<in>set transition_grid. \<not> below e)"
    by (simp add: filter_empty_conv)
  finally show ?thesis
    by (simp add: below_def not_less)
qed

text \<open>
  Claim C5 says that \<^verbatim>\<open>find_eccentric_transition\<close> sets the eccentricity threshold to the
  first point of the scanned grid at which \<open>g(2, e) < (1 - tol) F(e)\<close>. The scan covers
  the eccentricities up to \<open>0.2\<close> only, and the method takes entry 0 of the selected grid
  points without looking whether there is one. When the two-harmonic luminosity is within
  tolerance on the whole grid, and only then, it sets no threshold and raises
  \<^verbatim>\<open>IndexError\<close>. That is so for every tolerance of 1 or more, the luminosities being
  non-negative.
\<close>

theorem eccentric_transition_raises_without_crossing:
  "(find_eccentric_transition H S
      = Inl (IndexError ''index 0 is out of bounds for axis 0 with size 0'') \<longleftrightarrow>
    (\<forall>e\<in>set transition_grid. (1 - gw_lum_tol S) * peters_f H e \<le> peters_g H 2 e)) \<and>
   (1 \<le> gw_lum_tol S \<and> (\<forall>e\<in>set transition_grid. 0 \<le> peters_f H e \<and> 0 \<le> peters_g H 2 e) \<longrightarrow>
    find_eccentric_transition H S
      = Inl (IndexError ''index 0 is out of bounds for axis 0 with size 0''))"
proof (intro conjI impI)
  show "find_eccentric_transition H S
      = Inl (IndexError ''index 0 is out of bounds for axis 0 with size 0'') \<longleftrightarrow>
    (\<forall>e\<in>set transition_grid. (1 - gw_lum_tol S) * peters_f H e \<le> peters_g H 2 e)"
    by (rule find_eccentric_transition_raises_iff)
next
  assume h: "1 \<le> gw_lum_tol S \<and>
    (\<forall>e\<in>set transition_grid. 0 \<le> peters_f H e \<and> 0 \<le> peters_g H 2 e)"
  have "\<forall>e\<in>set transition_grid. (1 - gw_lum_tol S) * peters_f H e \<le> peters_g H 2 e"
  proof
    fix e assume e: "e \<in> set transition_grid"
    have "(1 - gw_lum_tol S) * peters_f H e \<le> 0"
      using h e by (intro mult_nonpos_nonneg) simp_all
    also have "0 \<le> peters_g H 2 e"
      using h e by simp
    finally show "(1 - gw_lum_tol S) * peters_f H e \<le> peters_g H 2 e" .
  qed
  then show "find_eccentric_transition H S
      = Inl (IndexError ''index 0 is out of bounds for axis 0 with size 0'')"
    by (simp only: find_eccentric_transition_raises_iff)
qed

theorem eccentric_transition_raises_without_crossing_witness:
  "(1 :: real) \<le> gw_lum_tol (example_source\<lparr>gw_lum_tol := 1\<rparr>) \<and>
   find_eccentric_transition slow_helpers (example_source\<lparr>gw_lum_tol := 1\<rparr>)
     = Inl (IndexError ''index 0 is out of bounds for axis 0 with size 0'') \<and>
   find_eccentric_transition slow_helpers (example_source\<lparr>gw_lum_tol := 1 / 2\<rparr>)
     = Inl (IndexError ''index 0 is out of bounds for axis 0 with size 0'')"
proof -
  have t: "(1 :: real) \<le> gw_lum_tol (example_source\<lparr>gw_lum_tol := 1\<rparr>)"
    by simp
  have g: "peters_f slow_helpers e = 1" "peters_g slow_helpers 2 e = 1 - e" for e
    by (simp_all add: slow_helpers_def example_helpers_def)
  have nn: "\<forall>e\<in>set transition_grid.
              0 \<le> peters_f slow_helpers e \<and> 0 \<le> peters_g slow_helpers 2 e"
  proof
    fix e :: real assume "e \<in> set transition_grid"
    from transition_grid_bounds [OF this] have "e \<le> 1" by simp
    then show "0 \<le> peters_f slow_helpers e \<and> 0 \<le> peters_g slow_helpers 2 e"
      by (simp add: g)
  qed
  have half: "\<forall>e\<in>set transition_grid.
      (1 - gw_lum_tol (example_source\<lparr>gw_lum_tol := 1 / 2\<rparr>)) * peters_f slow_helpers e
        \<le> peters_g slow_helpers 2 e"
  proof
    fix e :: real assume "e \<in> set transition_grid"
    from transition_grid_bounds [OF this] have "e \<le> 1 / 2" by simp
    then show "(1 - gw_lum_tol (example_source\<lparr>gw_lum_tol := 1 / 2\<rparr>)) * peters_f slow_helpers e
        \<le> peters_g slow_helpers 2 e"
      by (simp add: g)
  qed
  from eccentric_transition_raises_without_crossing
         [of slow_helpers "example_source\<lparr>gw_lum_tol := 1\<rparr>"] t nn
  have a: "find_eccentric_transition slow_helpers (example_source\<lparr>gw_lum_tol := 1\<rparr>)
     = Inl (IndexError ''index 0 is out of bounds for axis 0 with size 0'')"
    by blast
  from eccentric_transition_raises_without_crossing
         [of slow_helpers "example_source\<lparr>gw_lum_tol := 1 / 2\<rparr>"] half
  have b: "find_eccentric_transition slow_helpers (example_source\<lparr>gw_lum_tol := 1 / 2\<rparr>)
     = Inl (IndexError ''index 0 is out of bounds for axis 0 with size 0'')"
    by blast
  from t a b show ?thesis
    by blast
qed

section \<open>Linear interpolation of a non-decreasing table\<close>

lemma searchsorted_le_length: "searchsorted xs v \<le> length xs"
  by (simp add: searchsorted_def length_takeWhile_le)

lemma searchsorted_below: "j < searchsorted xs v \<Longrightarrow> xs ! j < v"
  unfolding searchsorted_def
  by (metis nth_mem set_takeWhileD takeWhile_nth)

lemma searchsorted_at: "searchsorted xs v < length xs \<Longrightarrow> v \<le> xs ! searchsorted xs v"
  unfolding searchsorted_def
  using nth_length_takeWhile [of "\<lambda>x. x < v" xs] by simp

lemma searchsorted_mono:
  assumes "v1 \<le> v2"
  shows "searchsorted xs v1 \<le> searchsorted xs v2"
proof (rule ccontr)
  assume "\<not> searchsorted xs v1 \<le> searchsorted xs v2"
  then have lt: "searchsorted xs v2 < searchsorted xs v1"
    by simp
  then have "searchsorted xs v2 < length xs"
    using searchsorted_le_length [of xs v1] by simp
  then have "v2 \<le> xs ! searchsorted xs v2"
    by (rule searchsorted_at)
  moreover have "xs ! searchsorted xs v2 < v1"
    using lt by (rule searchsorted_below)
  ultimately show False
    using assms by simp
qed

text \<open>The segment that a query inside the grid is interpolated on.\<close>

lemma segment_of_query:
  assumes inc: "sorted_wrt (<) xs" and n: "2 \<le> length xs"
    and lo: "hd xs \<le> v" and up: "v \<le> last xs"
  defines "hi \<equiv> min (max (searchsorted xs v) 1) (length xs - 1)"
  shows "1 \<le> hi \<and> hi < length xs \<and> xs ! (hi - 1) \<le> v \<and> v \<le> xs ! hi"
proof -
  have ne: "xs \<noteq> []"
    using n by auto
  have hd0: "hd xs = xs ! 0"
    using ne by (simp add: hd_conv_nth)
  have lastn: "last xs = xs ! (length xs - 1)"
    using ne by (simp add: last_conv_nth)
  have ss_lt: "searchsorted xs v < length xs"
  proof (rule ccontr)
    assume "\<not> searchsorted xs v < length xs"
    then have "length xs - 1 < searchsorted xs v"
      using n by simp
    then have "xs ! (length xs - 1) < v"
      by (rule searchsorted_below)
    with up lastn show False by simp
  qed
  show ?thesis
  proof (cases "searchsorted xs v = 0")
    case True
    then have hi1: "hi = 1"
      using n by (simp add: hi_def)
    have "v \<le> xs ! 0"
      using searchsorted_at [OF ss_lt] True by simp
    moreover have "xs ! 0 < xs ! 1"
      using inc n by (simp add: sorted_wrt_iff_nth_less)
    ultimately show ?thesis
      using hi1 n lo hd0 by simp
  next
    case False
    then have hik: "hi = searchsorted xs v"
      using ss_lt by (simp add: hi_def)
    have "xs ! (searchsorted xs v - 1) < v"
      by (rule searchsorted_below) (use False in simp)
    then show ?thesis
      using hik False ss_lt searchsorted_at [OF ss_lt] by simp
  qed
qed

lemma segment_value_bounds:
  fixes x_lo x_hi y_lo y_hi v :: real
  assumes "x_lo < x_hi" "y_lo \<le> y_hi" "x_lo \<le> v" "v \<le> x_hi"
  shows "y_lo \<le> (y_hi - y_lo) / (x_hi - x_lo) * (v - x_lo) + y_lo"
    and "(y_hi - y_lo) / (x_hi - x_lo) * (v - x_lo) + y_lo \<le> y_hi"
proof -
  have s: "0 \<le> (y_hi - y_lo) / (x_hi - x_lo)"
    using assms by simp
  then show "y_lo \<le> (y_hi - y_lo) / (x_hi - x_lo) * (v - x_lo) + y_lo"
    using assms by simp
  have "(y_hi - y_lo) / (x_hi - x_lo) * (v - x_lo) \<le> (y_hi - y_lo) / (x_hi - x_lo) * (x_hi - x_lo)"
    using s assms by (intro mult_left_mono) simp_all
  also have "\<dots> = y_hi - y_lo"
    using assms by simp
  finally show "(y_hi - y_lo) / (x_hi - x_lo) * (v - x_lo) + y_lo \<le> y_hi"
    by simp
qed

lemma call_linear_bounds:
  assumes inc: "sorted_wrt (<) xs" and ys: "sorted ys" and len: "length xs = length ys"
    and n: "2 \<le> length xs" and lo: "hd xs \<le> v" and up: "v \<le> last xs"
  defines "hi \<equiv> min (max (searchsorted xs v) 1) (length xs - 1)"
  shows "ys ! (hi - 1) \<le> call_linear xs ys v" and "call_linear xs ys v \<le> ys ! hi"
proof -
  from segment_of_query [OF inc n lo up]
  have seg: "1 \<le> hi" "hi < length xs" "xs ! (hi - 1) \<le> v" "v \<le> xs ! hi"
    by (simp_all add: hi_def)
  have x: "xs ! (hi - 1) < xs ! hi"
    using inc seg by (simp add: sorted_wrt_iff_nth_less)
  have y: "ys ! (hi - 1) \<le> ys ! hi"
    using ys seg len by (simp add: sorted_iff_nth_mono)
  have cl: "call_linear xs ys v =
      (ys ! hi - ys ! (hi - 1)) / (xs ! hi - xs ! (hi - 1)) * (v - xs ! (hi - 1)) + ys ! (hi - 1)"
    by (simp add: call_linear_def Let_def hi_def)
  show "ys ! (hi - 1) \<le> call_linear xs ys v"
    unfolding cl by (rule segment_value_bounds(1) [OF x y seg(3,4)])
  show "call_linear xs ys v \<le> ys ! hi"
    unfolding cl by (rule segment_value_bounds(2) [OF x y seg(3,4)])
qed

lemma call_linear_mono:
  assumes inc: "sorted_wrt (<) xs" and ys: "sorted ys" and len: "length xs = length ys"
    and n: "2 \<le> length xs" and lo: "hd xs \<le> v1" and le: "v1 \<le> v2" and up: "v2 \<le> last xs"
  shows "call_linear xs ys v1 \<le> call_linear xs ys v2"
proof -
  define h1 where "h1 = min (max (searchsorted xs v1) 1) (length xs - 1)"
  define h2 where "h2 = min (max (searchsorted xs v2) 1) (length xs - 1)"
  have lo2: "hd xs \<le> v2" and up1: "v1 \<le> last xs"
    using lo le up by simp_all
  have h12: "h1 \<le> h2"
    using searchsorted_mono [OF le, of xs] by (simp add: h1_def h2_def)
  from segment_of_query [OF inc n lo up1]
  have seg1: "1 \<le> h1" "h1 < length xs" "xs ! (h1 - 1) \<le> v1" "v1 \<le> xs ! h1"
    by (simp_all add: h1_def)
  from segment_of_query [OF inc n lo2 up]
  have seg2: "1 \<le> h2" "h2 < length xs" "xs ! (h2 - 1) \<le> v2" "v2 \<le> xs ! h2"
    by (simp_all add: h2_def)
  show ?thesis
  proof (cases "h1 = h2")
    case True
    have x: "xs ! (h1 - 1) < xs ! h1"
      using inc seg1 by (simp add: sorted_wrt_iff_nth_less)
    have y: "ys ! (h1 - 1) \<le> ys ! h1"
      using ys seg1 len by (simp add: sorted_iff_nth_mono)
    have s: "0 \<le> (ys ! h1 - ys ! (h1 - 1)) / (xs ! h1 - xs ! (h1 - 1))"
      using x y by simp
    have "(ys ! h1 - ys ! (h1 - 1)) / (xs ! h1 - xs ! (h1 - 1)) * (v1 - xs ! (h1 - 1))
        \<le> (ys ! h1 - ys ! (h1 - 1)) / (xs ! h1 - xs ! (h1 - 1)) * (v2 - xs ! (h1 - 1))"
      using s le by (intro mult_left_mono) simp_all
    then show ?thesis
      using True by (simp add: call_linear_def Let_def h1_def h2_def)
  next
    case False
    with h12 have "h1 \<le> h2 - 1"
      by simp
    then have "ys ! h1 \<le> ys ! (h2 - 1)"
      using ys seg2 len by (simp add: sorted_iff_nth_mono)
    moreover have "call_linear xs ys v1 \<le> ys ! h1"
      unfolding h1_def by (rule call_linear_bounds(2) [OF inc ys len n lo up1])
    moreover have "ys ! (h2 - 1) \<le> call_linear xs ys v2"
      unfolding h2_def by (rule call_linear_bounds(1) [OF inc ys len n lo2 up])
    ultimately show ?thesis
      by simp
  qed
qed

lemma interp1d_call_sorted:
  assumes "sorted x" "length x = length y"
  shows "interp1d_call x y fill_below fill_above v =
           (if v < hd x then fill_below else if v > last x then fill_above
            else call_linear x y v)"
  using assms by (simp add: interp1d_call_def sorted_grid_unchanged Let_def)

lemma interp1d_call_mono:
  assumes inc: "sorted_wrt (<) xs" and ys: "sorted ys" and len: "length xs = length ys"
    and n: "2 \<le> length xs" and fb: "fill_below \<le> ys ! 0" and fa: "last ys \<le> fill_above"
    and le: "v1 \<le> v2"
  shows "interp1d_call xs ys fill_below fill_above v1 \<le> interp1d_call xs ys fill_below fill_above v2"
proof -
  have srt: "sorted xs"
    using inc by (simp add: strict_sorted_iff)
  have ne: "ys \<noteq> []" "xs \<noteq> []"
    using n len by auto
  have lasty: "last ys = ys ! (length ys - 1)"
    using ne by (simp add: last_conv_nth)
  have inside: "fill_below \<le> call_linear xs ys v \<and> call_linear xs ys v \<le> fill_above"
    if v: "hd xs \<le> v" "v \<le> last xs" for v
  proof -
    define hi where "hi = min (max (searchsorted xs v) 1) (length xs - 1)"
    from segment_of_query [OF inc n v]
    have seg: "1 \<le> hi" "hi < length xs"
      by (simp_all add: hi_def)
    have "ys ! 0 \<le> ys ! (hi - 1)" "ys ! hi \<le> ys ! (length ys - 1)"
      using ys seg len by (simp_all add: sorted_iff_nth_mono)
    moreover have "ys ! (hi - 1) \<le> call_linear xs ys v" "call_linear xs ys v \<le> ys ! hi"
      unfolding hi_def by (rule call_linear_bounds [OF inc ys len n v])+
    ultimately show ?thesis
      using fb fa lasty by simp
  qed
  have fill: "fill_below \<le> fill_above"
  proof -
    have "ys ! 0 \<le> ys ! (length ys - 1)"
      using ys ne by (simp add: sorted_iff_nth_mono)
    then show ?thesis
      using fb fa lasty by simp
  qed
  consider "v1 < hd xs" | "hd xs \<le> v1" "v2 \<le> last xs" | "hd xs \<le> v1" "v1 \<le> last xs" "last xs < v2"
    | "last xs < v1"
    by linarith
  then show ?thesis
  proof cases
    case 1
    then show ?thesis
      using inside [of v2] fill by (simp add: interp1d_call_sorted [OF srt len])
  next
    case 2
    then have "call_linear xs ys v1 \<le> call_linear xs ys v2"
      using call_linear_mono [OF inc ys len n _ le] by simp
    then show ?thesis
      using 2 le by (simp add: interp1d_call_sorted [OF srt len])
  next
    case 3
    then show ?thesis
      using inside [of v1] by (simp add: interp1d_call_sorted [OF srt len])
  next
    case 4
    then have "last xs < v2"
      using le by simp
    moreover have "hd xs \<le> last xs"
      using srt ne by (metis hd_conv_nth last_conv_nth sorted_iff_nth_mono diff_less
        length_greater_0_conv zero_le less_numeral_extra(1))
    ultimately show ?thesis
      using 4 by (simp add: interp1d_call_sorted [OF srt len])
  qed
qed

section \<open>The table harmonics_needed\<close>

lemma add_harmonics_ge:
  "add_harmonics row target n_len hn total_lum = Inr h \<Longrightarrow> hn \<le> h"
proof (induction row target n_len hn total_lum rule: add_harmonics.induct)
  case (1 row target n_len hn total_lum)
  show ?case
  proof (cases "total_lum < target \<and> hn < n_len")
    case True
    with "1.prems" have "hn < length row"
      by (subst (asm) add_harmonics.simps) (simp split: if_splits)
    with True "1.prems" have "add_harmonics row target n_len (hn + 1) (total_lum + row ! hn) = Inr h"
      by (subst (asm) add_harmonics.simps) simp
    with "1.IH" True \<open>hn < length row\<close> have "hn + 1 \<le> h"
      by simp
    then show ?thesis by simp
  next
    case False
    with "1.prems" show ?thesis
      by (subst (asm) add_harmonics.simps) simp
  qed
qed

lemma harmonics_step_result:
  assumes "harmonics_step gv fv n_len tol i hn = Inr hn'"
  shows "\<exists>h. hn' = hn[i := h] \<and> hn ! (i - 1) \<le> h"
proof -
  from assms obtain h where
    "add_harmonics (gv ! i) ((1 - tol) * fv ! i) n_len (hn ! (i - 1))
       (sum_list (take (hn ! (i - 1)) (gv ! i))) = Inr h"
    and "hn' = hn[i := h]"
    by (auto simp: harmonics_step_def Let_def err_bind_eq_Inr split: if_splits)
  then show ?thesis
    using add_harmonics_ge by blast
qed

lemma harmonics_loop_sorted:
  assumes "for_each (harmonics_step gv fv n_len tol) [k..<n] hn = Inr hn'"
    and "length hn = n" "0 < k" "k \<le> n" "sorted (take k hn)"
  shows "length hn' = n \<and> sorted hn' \<and> take k hn' = take k hn"
  using assms
proof (induction "n - k" arbitrary: k hn)
  case 0
  then show ?case by simp
next
  case (Suc d)
  then have kn: "k < n" by simp
  then have upt: "[k..<n] = k # [Suc k..<n]"
    by (simp add: upt_conv_Cons)
  from Suc.prems(1) obtain hn1 where
    step: "harmonics_step gv fv n_len tol k hn = Inr hn1"
    and rest: "for_each (harmonics_step gv fv n_len tol) [Suc k..<n] hn1 = Inr hn'"
    unfolding upt by (auto simp: err_bind_eq_Inr)
  from harmonics_step_result [OF step] obtain h where
    hn1: "hn1 = hn[k := h]" and h: "hn ! (k - 1) \<le> h"
    by blast
  have tk: "take (Suc k) hn1 = take k hn @ [h]"
    using kn Suc.prems(2) by (simp add: hn1 take_Suc_conv_app_nth)
  have "\<forall>x\<in>set (take k hn). x \<le> h"
  proof
    fix x assume "x \<in> set (take k hn)"
    then obtain j where j: "j < k" "x = hn ! j"
      using Suc.prems(2) kn by (auto simp: in_set_conv_nth)
    have "take k hn ! j \<le> take k hn ! (k - 1)"
      using Suc.prems(2,3,5) kn j by (intro sorted_nth_mono) simp_all
    then have "hn ! j \<le> hn ! (k - 1)"
      using j Suc.prems(3) by simp
    with h j show "x \<le> h" by simp
  qed
  then have srt: "sorted (take (Suc k) hn1)"
    using Suc.prems(5) by (simp add: tk sorted_append)
  have "length hn' = n \<and> sorted hn' \<and> take (Suc k) hn' = take (Suc k) hn1"
    by (rule Suc.hyps(1) [OF _ rest _ _ _ srt]) (use Suc.hyps(2) Suc.prems(2) kn hn1 in simp_all)
  moreover from this have "take k (take (Suc k) hn') = take k (take (Suc k) hn1)"
    by simp
  then have "take k hn' = take k (take k hn @ [h])"
    by (simp add: tk min_def)
  then have "take k hn' = take k hn"
    using kn Suc.prems(2) by simp
  ultimately show ?case by simp
qed

lemma harmonics_needed_table_facts:
  assumes tab: "harmonics_needed_table H tol = Inr hn"
    and lims: "e_lims (harmonics_file H) = (e_min, e_max, e_len)"
  shows "0 < e_len" "length hn = e_len" "sorted hn" "hn ! 0 = 2"
proof -
  show pos: "0 < e_len"
    using tab lims by (auto simp: harmonics_needed_table_def Let_def split: if_splits)
  define init where "init = (replicate e_len (0::nat))[0 := 2]"
  from tab lims pos have loop:
    "for_each (harmonics_step (g_vals (harmonics_file H))
        (map (peters_f H) (e_range_of (harmonics_file H)))
        (length [1..<n_max (harmonics_file H) + 1]) tol) [1..<e_len] init = Inr hn"
    by (simp add: harmonics_needed_table_def Let_def init_def)
  have "sorted (take 1 init)"
    using pos by (cases init) (simp_all add: init_def)
  with harmonics_loop_sorted [OF loop] pos
  have r: "length hn = e_len" "sorted hn" "take 1 hn = take 1 init"
    by (simp_all add: init_def)
  then show "length hn = e_len" "sorted hn"
    by simp_all
  have "hn ! 0 = take 1 hn ! 0"
    by simp
  also have "\<dots> = init ! 0"
    unfolding r(3) by simp
  also have "\<dots> = 2"
    using pos by (simp add: init_def)
  finally show "hn ! 0 = 2" .
qed

lemma e_range_facts:
  assumes lims: "e_lims T = (e_min, e_max, e_len)" and lt: "e_min < e_max" "e_max < 1"
  shows "length (e_range_of T) = e_len" "sorted_wrt (<) (e_range_of T)"
    "0 < e_len \<Longrightarrow> hd (e_range_of T) = e_min"
    "2 \<le> e_len \<Longrightarrow> last (e_range_of T) = e_max"
proof -
  define la where "la = log 10 (1 - e_min)"
  define lb where "lb = log 10 (1 - e_max)"
  have er: "e_range_of T = map (\<lambda>x. 1 - x) (logspace la lb e_len)"
    using lims by (simp add: e_range_of_def la_def lb_def)
  show len: "length (e_range_of T) = e_len"
    by (simp add: er)
  have ab: "lb < la"
    using lt by (simp add: la_def lb_def)
  have nth: "e_range_of T ! i = 1 - 10 powr (linspace la lb e_len ! i)" if "i < e_len" for i
    using that by (simp add: er logspace_nth)
  show "sorted_wrt (<) (e_range_of T)"
    unfolding sorted_wrt_iff_nth_less
  proof (intro allI impI)
    fix i j assume ij: "i < j" "j < length (e_range_of T)"
    then have "linspace la lb e_len ! j < linspace la lb e_len ! i"
      using ab len by (intro linspace_strict_anti) simp_all
    then show "e_range_of T ! i < e_range_of T ! j"
      using ij len by (simp add: nth)
  qed
  show "hd (e_range_of T) = e_min" if "0 < e_len"
  proof -
    have "hd (e_range_of T) = e_range_of T ! 0"
      using that len by (intro hd_conv_nth) auto
    also have "\<dots> = 1 - 10 powr la"
      using that by (simp add: nth linspace_first)
    also have "\<dots> = e_min"
      using lt by (simp add: la_def)
    finally show ?thesis .
  qed
  show "last (e_range_of T) = e_max" if "2 \<le> e_len"
  proof -
    have "last (e_range_of T) = e_range_of T ! (e_len - 1)"
      using that len by (subst last_conv_nth) auto
    also have "\<dots> = 1 - 10 powr (linspace la lb e_len ! (e_len - 1))"
      using that by (intro nth) simp
    also have "linspace la lb e_len ! (e_len - 1) = lb"
      using that by (rule linspace_last)
    finally have "last (e_range_of T) = 1 - 10 powr lb" .
    then show ?thesis
      using lt by (simp add: lb_def)
  qed
qed

lemma create_harmonics_functions_result:
  assumes "create_harmonics_functions H S = Inr S'"
  shows "\<exists>hn. harmonics_needed_table H (gw_lum_tol S) = Inr hn \<and>
           length (e_range_of (harmonics_file H)) = length hn \<and>
           harmonics_required S' =
             (\<lambda>e. \<lceil>interp1d_call (e_range_of (harmonics_file H)) (map real hn) 2
                     (real (Max (set hn))) e\<rceil>)"
  using assms
  by (auto simp: create_harmonics_functions_def interp1d_def err_bind_eq_Inr split: if_splits)

lemma call_linear_at_first:
  assumes "2 \<le> length xs"
  shows "call_linear xs ys (hd xs) = ys ! 0"
proof -
  obtain x rest where xs: "xs = x # rest"
    using assms by (cases xs) auto
  have "searchsorted xs (hd xs) = 0"
    by (simp add: xs searchsorted_def)
  then show ?thesis
    using assms by (simp add: call_linear_def Let_def xs)
qed

section \<open>The small table, evaluated\<close>

lemma example_e_lims: "e_lims (harmonics_file example_helpers) = (0, 3/4, 3)"
  by (simp add: example_helpers_def example_table_def)

lemma example_harmonics_needed:
  "harmonics_needed_table example_helpers (5/100) = Inr [2, 3, 4]"
proof -
  have len: "length (e_range_of example_table) = 3"
    by (simp add: e_range_of_def example_table_def)
  have f: "map (peters_f example_helpers) (e_range_of example_table) ! i = 1" if "i < 3" for i
    using that len by (simp add: example_helpers_def)
  have up: "[1..<3] = [1, 2::nat]"
    by (simp add: upt_rec)
  have gv: "g_vals example_table = [[0, 1, 0, 0], [1/10, 6/10, 3/10, 0], [1/10, 3/10, 3/10, 3/10]]"
    by (simp add: example_table_def)
  have s1: "harmonics_step (g_vals example_table)
              (map (peters_f example_helpers) (e_range_of example_table)) 4 (5/100) 1 [2, 0, 0]
            = Inr [2, 3, 0]"
    by (simp add: harmonics_step_def gv f add_harmonics.simps Let_def)
  have s2: "harmonics_step (g_vals example_table)
              (map (peters_f example_helpers) (e_range_of example_table)) 4 (5/100) 2 [2, 3, 0]
            = Inr [2, 3, 4]"
    by (simp add: harmonics_step_def gv f add_harmonics.simps Let_def numeral_3_eq_3)
  have n: "length [1..<n_max example_table + 1] = 4" "(replicate 3 (0::nat))[0 := 2] = [2, 0, 0]"
    by (simp_all add: example_table_def numeral_3_eq_3)
  have hf: "harmonics_file example_helpers = example_table"
    by (simp add: example_helpers_def)
  have el: "e_lims example_table = (0, 3/4, 3)"
    by (simp add: example_table_def)
  have "harmonics_needed_table example_helpers (5/100) =
          (if (3::nat) = 0 then Inl (IndexError ''index 0 is out of bounds'') else Inr [2, 3, 4])"
    unfolding harmonics_needed_table_def Let_def hf el prod.case n up for_each.simps s1
      err_bind_Inr s2 ..
  then show ?thesis
    by simp
qed


lemma example_needed_at_tol:
  "harmonics_needed_table example_helpers (gw_lum_tol example_source) = Inr [2, 3, 4]"
proof -
  have tol: "gw_lum_tol example_source = 5/100"
    by (simp add: example_source_def)
  show ?thesis
    unfolding tol by (rule example_harmonics_needed)
qed

lemma example_created:
  "\<exists>S'. create_harmonics_functions example_helpers example_source = Inr S'"
proof -
  have "length (e_range_of (harmonics_file example_helpers)) = 3"
    by (simp add: e_range_of_def example_helpers_def example_table_def)
  then show ?thesis
    by (simp add: create_harmonics_functions_def example_needed_at_tol interp1d_def)
qed

section \<open>harmonics_required\<close>

text \<open>
  Claim C3. For a fixed luminosity tolerance, the function \<^verbatim>\<open>harmonics_required\<close> that
  \<^verbatim>\<open>create_harmonics_functions\<close> stores is non-decreasing: \<open>e1 \<le> e2\<close> implies
  \<open>harmonics_required(e1) \<le> harmonics_required(e2)\<close>. The table's grid limits are those
  of an eccentricity grid, \<open>e_min < e_max < 1\<close>, with at least two points.
\<close>

theorem harmonics_required_monotone:
  assumes created: "create_harmonics_functions H S = Inr S'"
    and lims: "e_lims (harmonics_file H) = (e_min, e_max, e_len)"
    and grid: "e_min < e_max" "e_max < 1" "2 \<le> e_len"
    and le: "e1 \<le> e2"
  shows "harmonics_required S' e1 \<le> harmonics_required S' e2"
proof -
  from create_harmonics_functions_result [OF created] obtain hn where
    tab: "harmonics_needed_table H (gw_lum_tol S) = Inr hn"
    and len: "length (e_range_of (harmonics_file H)) = length hn"
    and hr: "harmonics_required S' =
             (\<lambda>e. \<lceil>interp1d_call (e_range_of (harmonics_file H)) (map real hn) 2
                     (real (Max (set hn))) e\<rceil>)"
    by blast
  note t = harmonics_needed_table_facts [OF tab lims]
  note e = e_range_facts [OF lims grid(1,2)]
  have ne: "hn \<noteq> []"
    using t(1,2) by auto
  have ys: "sorted (map real hn)"
    using t(3) by (simp add: sorted_map sorted_wrt_iff_nth_less sorted_iff_nth_mono_less)
  have "last hn \<in> set hn"
    using ne by simp
  then have "last hn \<le> Max (set hn)"
    by simp
  then have fa: "last (map real hn) \<le> real (Max (set hn))"
    using ne by (simp add: last_map)
  have fb: "2 \<le> map real hn ! 0"
    using t(4) ne by simp
  have "interp1d_call (e_range_of (harmonics_file H)) (map real hn) 2 (real (Max (set hn))) e1
      \<le> interp1d_call (e_range_of (harmonics_file H)) (map real hn) 2 (real (Max (set hn))) e2"
    by (rule interp1d_call_mono [OF e(2) ys _ _ fb fa le]) (use len e(1) grid(3) in simp_all)
  then show ?thesis
    unfolding hr by (rule ceiling_mono)
qed

theorem harmonics_required_monotone_witness:
  "\<exists>S'. create_harmonics_functions example_helpers example_source = Inr S' \<and>
     e_lims (harmonics_file example_helpers) = (0, 3/4, 3) \<and>
     (0::real) < 3/4 \<and> (3/4::real) < 1 \<and> (2::nat) \<le> 3 \<and> (1/4::real) \<le> 1/2 \<and>
     harmonics_required S' (1/4) \<le> harmonics_required S' (1/2)"
proof -
  from example_created obtain S' where
    c: "create_harmonics_functions example_helpers example_source = Inr S'"
    by blast
  have "harmonics_required S' (1/4) \<le> harmonics_required S' (1/2)"
    by (rule harmonics_required_monotone [OF c example_e_lims]) simp_all
  with c example_e_lims show ?thesis
    by simp
qed

text \<open>
  Claim C4. Whatever the luminosity tolerance, \<^verbatim>\<open>harmonics_required\<close> returns 2 at
  eccentricity 0 (the grid does not start below 0) and at every eccentricity below the
  first grid point, and above the last grid point it returns the largest entry of the
  table \<^verbatim>\<open>harmonics_needed\<close>. The grid limits satisfy \<open>e_min < e_max < 1\<close>, with at
  least two points.
\<close>

theorem harmonics_required_boundaries:
  assumes created: "create_harmonics_functions H S = Inr S'"
    and lims: "e_lims (harmonics_file H) = (e_min, e_max, e_len)"
    and grid: "e_min < e_max" "e_max < 1" "2 \<le> e_len"
  shows "(0 \<le> e_min \<longrightarrow> harmonics_required S' 0 = 2) \<and>
         (\<forall>e. e < e_min \<longrightarrow> harmonics_required S' e = 2) \<and>
         (\<exists>harmonics_needed.
            harmonics_needed_table H (gw_lum_tol S) = Inr harmonics_needed \<and>
            (\<forall>e. e > e_max \<longrightarrow> harmonics_required S' e = int (Max (set harmonics_needed))))"
proof -
  from create_harmonics_functions_result [OF created] obtain hn where
    tab: "harmonics_needed_table H (gw_lum_tol S) = Inr hn"
    and len: "length (e_range_of (harmonics_file H)) = length hn"
    and hr: "harmonics_required S' =
             (\<lambda>e. \<lceil>interp1d_call (e_range_of (harmonics_file H)) (map real hn) 2
                     (real (Max (set hn))) e\<rceil>)"
    by blast
  note t = harmonics_needed_table_facts [OF tab lims]
  note e = e_range_facts [OF lims grid(1,2)]
  have pos: "0 < e_len"
    using grid(3) by simp
  have srt: "sorted (e_range_of (harmonics_file H))"
    using e(2) by (simp add: strict_sorted_iff)
  have len': "length (e_range_of (harmonics_file H)) = length (map real hn)"
    using len by simp
  have ne: "e_range_of (harmonics_file H) \<noteq> []"
    using e(1) pos by auto
  note call = interp1d_call_sorted [OF srt len']
  have below: "harmonics_required S' v = 2" if "v < e_min" for v
    using that e(3) [OF pos] by (simp add: hr call)
  have above: "harmonics_required S' v = int (Max (set hn))" if "v > e_max" for v
    using that e(3) [OF pos] e(4) [OF grid(3)] grid(1) by (simp add: hr call)
  have zero: "harmonics_required S' 0 = 2" if "0 \<le> e_min"
  proof (cases "e_min = 0")
    case False
    with that show ?thesis
      using below [of 0] by simp
  next
    case True
    have "call_linear (e_range_of (harmonics_file H)) (map real hn)
            (hd (e_range_of (harmonics_file H))) = map real hn ! 0"
      by (rule call_linear_at_first) (use e(1) grid(3) in simp)
    then have "call_linear (e_range_of (harmonics_file H)) (map real hn) 0 = 2"
      using e(3) [OF pos] True t(1,2,4) by simp
    then show ?thesis
      using e(3) [OF pos] e(4) [OF grid(3)] True grid by (simp add: hr call)
  qed
  show ?thesis
    using tab below above zero by blast
qed

theorem harmonics_required_boundaries_witness:
  "\<exists>S'. create_harmonics_functions example_helpers example_source = Inr S' \<and>
     e_lims (harmonics_file example_helpers) = (0, 3/4, 3) \<and>
     (0::real) < 3/4 \<and> (3/4::real) < 1 \<and> (2::nat) \<le> 3 \<and>
     harmonics_required S' 0 = 2 \<and> harmonics_required S' (- 1) = 2 \<and>
     harmonics_needed_table example_helpers (gw_lum_tol example_source) = Inr [2, 3, 4] \<and>
     harmonics_required S' (9/10) = 4"
proof -
  from example_created obtain S' where
    c: "create_harmonics_functions example_helpers example_source = Inr S'"
    by blast
  have b: "(0 \<le> (0::real) \<longrightarrow> harmonics_required S' 0 = 2) \<and>
         (\<forall>e. e < 0 \<longrightarrow> harmonics_required S' e = 2) \<and>
         (\<exists>harmonics_needed.
            harmonics_needed_table example_helpers (gw_lum_tol example_source)
              = Inr harmonics_needed \<and>
            (\<forall>e. e > 3/4 \<longrightarrow> harmonics_required S' e = int (Max (set harmonics_needed))))"
    by (rule harmonics_required_boundaries [OF c example_e_lims]) simp_all
  then have "harmonics_required S' 0 = 2" "harmonics_required S' (- 1) = 2"
    by simp_all
  moreover from b have "harmonics_required S' (9/10) = int (Max (set [2, 3, 4]))"
    unfolding example_needed_at_tol by simp
  then have "harmonics_required S' (9/10) = 4"
    by simp
  ultimately show ?thesis
    using c example_e_lims example_needed_at_tol by simp
qed

section \<open>The harmonic groups, for the counts they cover\<close>

lemma for_each_append:
  "for_each body (xs @ ys) s = err_bind (for_each body xs s) (for_each body ys)"
  by (induction xs arbitrary: s) (simp_all add: err_bind_def split: sum.splits)

lemma ecc_loop_stationary_total:
  assumes wf: "well_formed S" and ws: "well_shaped X"
    and len: "length snr_arr = n_sources S" "length ind_ecc = n_sources S"
      "length hreq = n_sources S"
  shows "\<exists>snr'. for_each (ecc_group_stationary X S t_obs hreq ind_ecc) groups snr_arr = Inr snr' \<and>
           length snr' = n_sources S"
proof (rule for_each_invariant)
  show "length snr_arr = n_sources S"
    by (rule len(1))
next
  fix grp :: "int \<times> int" and s :: "real list"
  assume s: "length s = n_sources S"
  obtain lower upper where g: "grp = (lower, upper)" by (cases grp)
  from ecc_group_stationary_ok [OF wf ws s len(2,3) refl refl, where lower = lower
      and upper = upper and t_obs = t_obs]
  show "\<exists>s'. ecc_group_stationary X S t_obs hreq ind_ecc grp s = Inr s' \<and> length s' = n_sources S"
    unfolding g by blast
qed

lemma ecc_loop_evolving_total:
  assumes wf: "well_formed S" and ws: "well_shaped X"
    and len: "length snr_arr = n_sources S" "length ind_ecc = n_sources S"
      "length hreq = n_sources S"
  shows "\<exists>snr'. for_each (ecc_group_evolving X S t_obs n_step hreq ind_ecc) groups snr_arr = Inr snr' \<and>
           length snr' = n_sources S"
proof (rule for_each_invariant)
  show "length snr_arr = n_sources S"
    by (rule len(1))
next
  fix grp :: "int \<times> int" and s :: "real list"
  assume s: "length s = n_sources S"
  obtain lower upper where g: "grp = (lower, upper)" by (cases grp)
  from ecc_group_evolving_ok [OF wf ws s len(2,3) refl refl, where lower = lower
      and upper = upper and t_obs = t_obs and n_step = n_step]
  show "\<exists>s'. ecc_group_evolving X S t_obs n_step hreq ind_ecc grp s = Inr s' \<and> length s' = n_sources S"
    unfolding g by blast
qed

text \<open>
  A source in one harmonic group and in no other receives the value computed for that group,
  with the cut-off \<open>upper - 1\<close>, whatever the position of the group in the list.
\<close>

lemma ecc_loop_stationary_writes:
  assumes wf: "well_formed S" and ws: "well_shaped X"
    and len: "length snr_arr = n_sources S" "length ind_ecc = n_sources S"
      "length hreq = n_sources S"
    and i: "i < n_sources S"
    and groups: "groups = pre @ (lower, upper) # post"
    and inside: "lower \<le> hreq ! i" "hreq ! i < upper" "ind_ecc ! i"
    and later: "\<forall>(l, u) \<in> set post. \<not> (l \<le> hreq ! i \<and> hreq ! i < u)"
    and match: "match = map (\<lambda>(h, b). lower \<le> h \<and> h < upper \<and> b) (zip hreq ind_ecc)"
    and vals: "vals = snr_ecc_stationary X (map snd (filter fst (zip match (m_c S))))
       (map snd (filter fst (zip match (f_orb S)))) (map snd (filter fst (zip match (ecc S))))
       (map snd (filter fst (zip match (dist_lum S)))) t_obs (upper - 1) (g_interp S) (sc_interp S)"
  shows "\<exists>snr'. for_each (ecc_group_stationary X S t_obs hreq ind_ecc) groups snr_arr = Inr snr' \<and>
           length snr' = n_sources S \<and> match ! i \<and> snr' ! i = vals ! rank match i"
proof -
  from ecc_loop_stationary_total [OF wf ws len, of t_obs pre]
  obtain s1 where s1: "for_each (ecc_group_stationary X S t_obs hreq ind_ecc) pre snr_arr = Inr s1"
    "length s1 = n_sources S"
    by blast
  from ecc_group_stationary_ok [OF wf ws s1(2) len(2,3) match vals]
  obtain s2 where s2: "ecc_group_stationary X S t_obs hreq ind_ecc (lower, upper) s1 = Inr s2"
    "length s2 = n_sources S"
    "\<forall>j<n_sources S. s2 ! j = (if match ! j then vals ! rank match j else s1 ! j)"
    by blast
  have mi: "match ! i"
    using inside i len by (simp add: match)
  have "\<exists>snr'. for_each (ecc_group_stationary X S t_obs hreq ind_ecc) post s2 = Inr snr' \<and>
           length snr' = n_sources S \<and> snr' ! i = s2 ! i"
    by (rule ecc_loop_stationary_keeps [OF wf ws s2(2) len(2,3) i]) (use later in auto)
  then obtain s3 where s3: "for_each (ecc_group_stationary X S t_obs hreq ind_ecc) post s2 = Inr s3"
    "length s3 = n_sources S" "s3 ! i = s2 ! i"
    by blast
  have "for_each (ecc_group_stationary X S t_obs hreq ind_ecc) groups snr_arr = Inr s3"
    unfolding groups by (simp add: for_each_append s1 s2 s3)
  with s3 s2(3) mi i show ?thesis
    by simp
qed

lemma ecc_loop_evolving_writes:
  assumes wf: "well_formed S" and ws: "well_shaped X"
    and len: "length snr_arr = n_sources S" "length ind_ecc = n_sources S"
      "length hreq = n_sources S"
    and i: "i < n_sources S"
    and groups: "groups = pre @ (lower, upper) # post"
    and inside: "lower \<le> hreq ! i" "hreq ! i < upper" "ind_ecc ! i"
    and later: "\<forall>(l, u) \<in> set post. \<not> (l \<le> hreq ! i \<and> hreq ! i < u)"
    and match: "match = map (\<lambda>(h, b). lower \<le> h \<and> h < upper \<and> b) (zip hreq ind_ecc)"
    and vals: "vals = snr_ecc_evolving X (map snd (filter fst (zip match (m_1 S))))
       (map snd (filter fst (zip match (m_2 S)))) (map snd (filter fst (zip match (f_orb S))))
       (map snd (filter fst (zip match (dist_lum S)))) (map snd (filter fst (zip match (ecc S))))
       (upper - 1) t_obs n_step (g_interp S) (sc_interp S) (n_proc S)"
  shows "\<exists>snr'. for_each (ecc_group_evolving X S t_obs n_step hreq ind_ecc) groups snr_arr = Inr snr' \<and>
           length snr' = n_sources S \<and> match ! i \<and> snr' ! i = vals ! rank match i"
proof -
  from ecc_loop_evolving_total [OF wf ws len, of t_obs n_step pre]
  obtain s1 where s1: "for_each (ecc_group_evolving X S t_obs n_step hreq ind_ecc) pre snr_arr = Inr s1"
    "length s1 = n_sources S"
    by blast
  from ecc_group_evolving_ok [OF wf ws s1(2) len(2,3) match vals]
  obtain s2 where s2: "ecc_group_evolving X S t_obs n_step hreq ind_ecc (lower, upper) s1 = Inr s2"
    "length s2 = n_sources S"
    "\<forall>j<n_sources S. s2 ! j = (if match ! j then vals ! rank match j else s1 ! j)"
    by blast
  have mi: "match ! i"
    using inside i len by (simp add: match)
  have "\<exists>snr'. for_each (ecc_group_evolving X S t_obs n_step hreq ind_ecc) post s2 = Inr snr' \<and>
           length snr' = n_sources S \<and> snr' ! i = s2 ! i"
    by (rule ecc_loop_evolving_keeps [OF wf ws s2(2) len(2,3) i]) (use later in auto)
  then obtain s3 where s3: "for_each (ecc_group_evolving X S t_obs n_step hreq ind_ecc) post s2 = Inr s3"
    "length s3 = n_sources S" "s3 ! i = s2 ! i"
    by blast
  have "for_each (ecc_group_evolving X S t_obs n_step hreq ind_ecc) groups snr_arr = Inr s3"
    unfolding groups by (simp add: for_each_append s1 s2 s3)
  with s3 s2(3) mi i show ?thesis
    by simp
qed

lemma harmonic_group_of_count:
  assumes "1 \<le> h" "h < 10000"
  shows "\<exists>pre lower upper post. harmonic_groups = pre @ (lower, upper) # post \<and>
           lower \<le> h \<and> h < upper \<and>
           (\<forall>(l, u) \<in> set pre. \<not> (l \<le> h \<and> h < u)) \<and>
           (\<forall>(l, u) \<in> set post. \<not> (l \<le> h \<and> h < u))"
proof -
  consider "h < 10" | "10 \<le> h" "h < 100" | "100 \<le> h" "h < 1000" | "1000 \<le> h"
    by linarith
  then show ?thesis
  proof cases
    case 1
    have "harmonic_groups = [] @ (1, 10) # [(10, 100), (100, 1000), (1000, 10000)]"
      by (simp add: harmonic_groups_def)
    with 1 assms show ?thesis
      by (intro exI [of _ "[]"] exI [of _ 1] exI [of _ 10]
          exI [of _ "[(10, 100), (100, 1000), (1000, 10000)]"]) simp
  next
    case 2
    have "harmonic_groups = [(1, 10)] @ (10, 100) # [(100, 1000), (1000, 10000)]"
      by (simp add: harmonic_groups_def)
    with 2 assms show ?thesis
      by (intro exI [of _ "[(1, 10)]"] exI [of _ 10] exI [of _ 100]
          exI [of _ "[(100, 1000), (1000, 10000)]"]) simp
  next
    case 3
    have "harmonic_groups = [(1, 10), (10, 100)] @ (100, 1000) # [(1000, 10000)]"
      by (simp add: harmonic_groups_def)
    with 3 assms show ?thesis
      by (intro exI [of _ "[(1, 10), (10, 100)]"] exI [of _ 100] exI [of _ 1000]
          exI [of _ "[(1000, 10000)]"]) simp
  next
    case 4
    have "harmonic_groups = [(1, 10), (10, 100), (100, 1000)] @ (1000, 10000) # []"
      by (simp add: harmonic_groups_def)
    with 4 assms show ?thesis
      by (intro exI [of _ "[(1, 10), (10, 100), (100, 1000)]"] exI [of _ 1000] exI [of _ 10000]
          exI [of _ "[]"]) simp
  qed
qed

text \<open>
  What the loop does for the counts it covers: an eccentric source whose required count
  is in \<open>[1, 10000)\<close> is in exactly one harmonic group, and its entry is the value the
  eccentric formula returns for that group's sources with the cut-off \<open>upper - 1\<close>.
\<close>

lemma snr_stationary_full_bucketed:
  assumes wf: "well_formed S" and ws: "well_shaped X" and lw: "length which = n_sources S"
    and i: "i < n_sources S" and wi: "which ! i" and ecc_i: "ecc S ! i > ecc_tol S"
    and h: "1 \<le> harmonics_required S (ecc S ! i)" "harmonics_required S (ecc S ! i) < 10000"
  shows "\<exists>full ind_ecc pre lower upper post match.
      snr_stationary_full X S t_obs which = Inr full \<and>
      logical_and (map (\<lambda>e. e > ecc_tol S) (ecc S)) which = Inr ind_ecc \<and>
      harmonic_groups = pre @ (lower, upper) # post \<and>
      (\<forall>(l, u) \<in> set pre. \<not> (l \<le> harmonics_required S (ecc S ! i) \<and>
                                 harmonics_required S (ecc S ! i) < u)) \<and>
      (\<forall>(l, u) \<in> set post. \<not> (l \<le> harmonics_required S (ecc S ! i) \<and>
                                  harmonics_required S (ecc S ! i) < u)) \<and>
      bucket_match (map (harmonics_required S) (ecc S)) ind_ecc (lower, upper) = Inr match \<and>
      match ! i \<and>
      full ! i =
        snr_ecc_stationary X (map snd (filter fst (zip match (m_c S))))
          (map snd (filter fst (zip match (f_orb S)))) (map snd (filter fst (zip match (ecc S))))
          (map snd (filter fst (zip match (dist_lum S)))) t_obs (upper - 1) (g_interp S)
          (sc_interp S) ! rank match i"
proof -
  define ind_ecc where "ind_ecc = map (\<lambda>(x, y). x \<and> y) (zip (map (\<lambda>e. e > ecc_tol S) (ecc S)) which)"
  define ind_circ where "ind_circ = map (\<lambda>(x, y). x \<and> y) (zip (map (\<lambda>e. e \<le> ecc_tol S) (ecc S)) which)"
  define hreq where "hreq = map (harmonics_required S) (ecc S)"
  have le: "length (ecc S) = n_sources S"
    using wf by (simp add: well_formed_def)
  have la: "logical_and (map (\<lambda>e. e > ecc_tol S) (ecc S)) which = Inr ind_ecc"
    "logical_and (map (\<lambda>e. e \<le> ecc_tol S) (ecc S)) which = Inr ind_circ"
    using le lw by (simp_all add: logical_and_same ind_ecc_def ind_circ_def)
  have len: "length ind_ecc = n_sources S" "length ind_circ = n_sources S" "length hreq = n_sources S"
    using le lw by (simp_all add: ind_ecc_def ind_circ_def hreq_def)
  have ie: "ind_ecc ! i"
    using i le lw wi ecc_i by (simp add: ind_ecc_def)
  then have any: "np_any ind_ecc"
    using i len by (auto simp: np_any_iff)
  have hi: "hreq ! i = harmonics_required S (ecc S ! i)"
    using i le by (simp add: hreq_def)
  from circ_step_stationary [OF wf ws len(2), of t_obs]
  obtain snr1 where s1: "(if np_any ind_circ then
        err_bind (getitem_mask (m_c S) ind_circ) (\<lambda>mc.
        err_bind (getitem_mask (f_orb S) ind_circ) (\<lambda>fo.
        err_bind (getitem_mask (dist_lum S) ind_circ) (\<lambda>di.
          setitem_mask (replicate (n_sources S) 0) ind_circ
            (snr_circ_stationary X mc fo di t_obs (g_interp S) (sc_interp S)))))
      else Inr (replicate (n_sources S) 0)) = Inr snr1"
    and l1: "length snr1 = n_sources S"
    by blast
  from harmonic_group_of_count [OF h] obtain pre lower upper post where
    grp: "harmonic_groups = pre @ (lower, upper) # post"
      "lower \<le> harmonics_required S (ecc S ! i)" "harmonics_required S (ecc S ! i) < upper"
      "\<forall>(l, u) \<in> set pre. \<not> (l \<le> harmonics_required S (ecc S ! i) \<and>
                                harmonics_required S (ecc S ! i) < u)"
      "\<forall>(l, u) \<in> set post. \<not> (l \<le> harmonics_required S (ecc S ! i) \<and>
                                 harmonics_required S (ecc S ! i) < u)"
    by blast
  define match where "match = map (\<lambda>(h, b). lower \<le> h \<and> h < upper \<and> b) (zip hreq ind_ecc)"
  define vals where "vals = snr_ecc_stationary X (map snd (filter fst (zip match (m_c S))))
       (map snd (filter fst (zip match (f_orb S)))) (map snd (filter fst (zip match (ecc S))))
       (map snd (filter fst (zip match (dist_lum S)))) t_obs (upper - 1) (g_interp S) (sc_interp S)"
  have "\<exists>snr'. for_each (ecc_group_stationary X S t_obs hreq ind_ecc) harmonic_groups snr1 = Inr snr' \<and>
           length snr' = n_sources S \<and> match ! i \<and> snr' ! i = vals ! rank match i"
    by (rule ecc_loop_stationary_writes [OF wf ws l1 len(1,3) i grp(1) _ _ ie _ match_def vals_def])
       (use grp(2-5) hi in simp_all)
  then obtain full where full: "for_each (ecc_group_stationary X S t_obs hreq ind_ecc) harmonic_groups snr1 = Inr full"
    "match ! i" "full ! i = vals ! rank match i"
    by blast
  have eq: "snr_stationary_full X S t_obs which =
     (if np_any ind_ecc then for_each (ecc_group_stationary X S t_obs hreq ind_ecc) harmonic_groups snr1
      else Inr snr1)"
    unfolding snr_stationary_full_def Let_def la err_bind_Inr s1 hreq_def ..
  have bm: "bucket_match (map (harmonics_required S) (ecc S)) ind_ecc (lower, upper) = Inr match"
    using len by (simp add: bucket_match_ok match_def hreq_def)
  have res: "snr_stationary_full X S t_obs which = Inr full"
    using eq any full(1) by simp
  show ?thesis
    by (intro exI [of _ full] exI [of _ ind_ecc] exI [of _ pre] exI [of _ lower]
        exI [of _ upper] exI [of _ post] exI [of _ match])
       (use res la(1) grp(1,4,5) bm full(2,3) in \<open>simp add: vals_def\<close>)
qed

lemma snr_evolving_full_bucketed:
  assumes wf: "well_formed S" and ws: "well_shaped X" and lw: "length which = n_sources S"
    and i: "i < n_sources S" and wi: "which ! i" and ecc_i: "ecc S ! i > ecc_tol S"
    and h: "1 \<le> harmonics_required S (ecc S ! i)" "harmonics_required S (ecc S ! i) < 10000"
  shows "\<exists>full ind_ecc pre lower upper post match.
      snr_evolving_full X S t_obs n_step which = Inr full \<and>
      logical_and (map (\<lambda>e. e > ecc_tol S) (ecc S)) which = Inr ind_ecc \<and>
      harmonic_groups = pre @ (lower, upper) # post \<and>
      (\<forall>(l, u) \<in> set pre. \<not> (l \<le> harmonics_required S (ecc S ! i) \<and>
                                 harmonics_required S (ecc S ! i) < u)) \<and>
      (\<forall>(l, u) \<in> set post. \<not> (l \<le> harmonics_required S (ecc S ! i) \<and>
                                  harmonics_required S (ecc S ! i) < u)) \<and>
      bucket_match (map (harmonics_required S) (ecc S)) ind_ecc (lower, upper) = Inr match \<and>
      match ! i \<and>
      full ! i =
        snr_ecc_evolving X (map snd (filter fst (zip match (m_1 S))))
          (map snd (filter fst (zip match (m_2 S)))) (map snd (filter fst (zip match (f_orb S))))
          (map snd (filter fst (zip match (dist_lum S)))) (map snd (filter fst (zip match (ecc S))))
          (upper - 1) t_obs n_step (g_interp S) (sc_interp S) (n_proc S) ! rank match i"
proof -
  define ind_ecc where "ind_ecc = map (\<lambda>(x, y). x \<and> y) (zip (map (\<lambda>e. e > ecc_tol S) (ecc S)) which)"
  define ind_circ where "ind_circ = map (\<lambda>(x, y). x \<and> y) (zip (map (\<lambda>e. e \<le> ecc_tol S) (ecc S)) which)"
  define hreq where "hreq = map (harmonics_required S) (ecc S)"
  have le: "length (ecc S) = n_sources S"
    using wf by (simp add: well_formed_def)
  have la: "logical_and (map (\<lambda>e. e > ecc_tol S) (ecc S)) which = Inr ind_ecc"
    "logical_and (map (\<lambda>e. e \<le> ecc_tol S) (ecc S)) which = Inr ind_circ"
    using le lw by (simp_all add: logical_and_same ind_ecc_def ind_circ_def)
  have len: "length ind_ecc = n_sources S" "length ind_circ = n_sources S" "length hreq = n_sources S"
    using le lw by (simp_all add: ind_ecc_def ind_circ_def hreq_def)
  have ie: "ind_ecc ! i"
    using i le lw wi ecc_i by (simp add: ind_ecc_def)
  then have any: "np_any ind_ecc"
    using i len by (auto simp: np_any_iff)
  have hi: "hreq ! i = harmonics_required S (ecc S ! i)"
    using i le by (simp add: hreq_def)
  from circ_step_evolving [OF wf ws len(2), of t_obs n_step]
  obtain snr1 where s1: "(if np_any ind_circ then
        err_bind (getitem_mask (m_1 S) ind_circ) (\<lambda>m1.
        err_bind (getitem_mask (m_2 S) ind_circ) (\<lambda>m2.
        err_bind (getitem_mask (f_orb S) ind_circ) (\<lambda>fo.
        err_bind (getitem_mask (dist_lum S) ind_circ) (\<lambda>di.
          setitem_mask (replicate (n_sources S) 0) ind_circ
            (snr_circ_evolving X m1 m2 fo di t_obs n_step (g_interp S) (sc_interp S))))))
      else Inr (replicate (n_sources S) 0)) = Inr snr1"
    and l1: "length snr1 = n_sources S"
    by blast
  from harmonic_group_of_count [OF h] obtain pre lower upper post where
    grp: "harmonic_groups = pre @ (lower, upper) # post"
      "lower \<le> harmonics_required S (ecc S ! i)" "harmonics_required S (ecc S ! i) < upper"
      "\<forall>(l, u) \<in> set pre. \<not> (l \<le> harmonics_required S (ecc S ! i) \<and>
                                harmonics_required S (ecc S ! i) < u)"
      "\<forall>(l, u) \<in> set post. \<not> (l \<le> harmonics_required S (ecc S ! i) \<and>
                                 harmonics_required S (ecc S ! i) < u)"
    by blast
  define match where "match = map (\<lambda>(h, b). lower \<le> h \<and> h < upper \<and> b) (zip hreq ind_ecc)"
  define vals where "vals = snr_ecc_evolving X (map snd (filter fst (zip match (m_1 S))))
       (map snd (filter fst (zip match (m_2 S)))) (map snd (filter fst (zip match (f_orb S))))
       (map snd (filter fst (zip match (dist_lum S)))) (map snd (filter fst (zip match (ecc S))))
       (upper - 1) t_obs n_step (g_interp S) (sc_interp S) (n_proc S)"
  have "\<exists>snr'. for_each (ecc_group_evolving X S t_obs n_step hreq ind_ecc) harmonic_groups snr1 = Inr snr' \<and>
           length snr' = n_sources S \<and> match ! i \<and> snr' ! i = vals ! rank match i"
    by (rule ecc_loop_evolving_writes [OF wf ws l1 len(1,3) i grp(1) _ _ ie _ match_def vals_def])
       (use grp(2-5) hi in simp_all)
  then obtain full where full: "for_each (ecc_group_evolving X S t_obs n_step hreq ind_ecc) harmonic_groups snr1 = Inr full"
    "match ! i" "full ! i = vals ! rank match i"
    by blast
  have eq: "snr_evolving_full X S t_obs n_step which =
     (if np_any ind_ecc then for_each (ecc_group_evolving X S t_obs n_step hreq ind_ecc) harmonic_groups snr1
      else Inr snr1)"
    unfolding snr_evolving_full_def Let_def la err_bind_Inr s1 hreq_def ..
  have bm: "bucket_match (map (harmonics_required S) (ecc S)) ind_ecc (lower, upper) = Inr match"
    using len by (simp add: bucket_match_ok match_def hreq_def)
  have res: "snr_evolving_full X S t_obs n_step which = Inr full"
    using eq any full(1) by simp
  show ?thesis
    by (intro exI [of _ full] exI [of _ ind_ecc] exI [of _ pre] exI [of _ lower]
        exI [of _ upper] exI [of _ post] exI [of _ match])
       (use res la(1) grp(1,4,5) bm full(2,3) in \<open>simp add: vals_def\<close>)
qed

section \<open>A table that reaches the last harmonic\<close>

lemma sum_list_take_le:
  fixes row :: "real list"
  assumes "\<forall>x\<in>set row. 0 \<le> x"
  shows "sum_list (take h row) \<le> sum_list row"
proof -
  have "sum_list row = sum_list (take h row) + sum_list (drop h row)"
    by (metis append_take_drop_id sum_list_append)
  moreover have "0 \<le> sum_list (drop h row)"
    using assms by (intro sum_list_nonneg) (auto dest: in_set_dropD)
  ultimately show ?thesis by simp
qed

text \<open>A row whose entries never add up to the target drives the loop to the last harmonic.\<close>

lemma add_harmonics_exhausts:
  assumes "\<forall>x\<in>set row. 0 \<le> x" "sum_list row < target" "length row = n_len" "h \<le> n_len"
  shows "add_harmonics row target n_len h (sum_list (take h row)) = Inr n_len"
  using assms(4)
proof (induction "n_len - h" arbitrary: h)
  case 0
  then show ?case
    by (subst add_harmonics.simps) simp
next
  case (Suc d)
  then have h: "h < n_len" by simp
  have below: "sum_list (take h row) < target"
    using sum_list_take_le [OF assms(1), of h] assms(2) by simp
  have "sum_list (take (h + 1) row) = sum_list (take h row) + row ! h"
    using h assms(3) by (simp add: take_Suc_conv_app_nth)
  moreover have "add_harmonics row target n_len (h + 1) (sum_list (take (h + 1) row)) = Inr n_len"
    by (rule Suc.hyps(1)) (use Suc.hyps(2) h in simp_all)
  ultimately show ?case
    using h below assms(3) by (subst add_harmonics.simps) simp
qed

lemma faint_row_facts:
  "length faint_row = 10000" "\<forall>x\<in>set faint_row. 0 \<le> x" "sum_list faint_row = 1 / 2"
  by (simp_all add: faint_row_def sum_list_replicate)

lemma wide_e_lims: "e_lims (harmonics_file wide_helpers) = (0, 8/10, 2)"
  by (simp add: wide_helpers_def wide_table_def)

lemma wide_harmonics_needed:
  "harmonics_needed_table wide_helpers (5/100) = Inr [2, 10000]"
proof -
  have hf: "harmonics_file wide_helpers = wide_table"
    by (simp add: wide_helpers_def)
  have el: "e_lims wide_table = (0, 8/10, 2)"
    by (simp add: wide_table_def)
  have len: "length (e_range_of wide_table) = 2"
    by (simp add: e_range_of_def wide_table_def)
  have f: "map (peters_f wide_helpers) (e_range_of wide_table) ! 1 = 1"
    using len by (simp add: wide_helpers_def example_helpers_def)
  have gv: "g_vals wide_table ! 1 = faint_row" "length (g_vals wide_table) = 2"
    by (simp_all add: wide_table_def)
  have n: "length [1..<n_max wide_table + 1] = 10000" "(replicate 2 (0::nat))[0 := 2] = [2, 0]"
    by (simp_all add: wide_table_def numeral_2_eq_2)
  have up: "[1..<2] = [1::nat]"
    by (simp add: upt_rec)
  have "add_harmonics faint_row ((1 - 5/100) * 1) 10000 2 (sum_list (take 2 faint_row)) = Inr 10000"
    by (rule add_harmonics_exhausts) (simp_all add: faint_row_facts)
  then have s1: "harmonics_step (g_vals wide_table)
              (map (peters_f wide_helpers) (e_range_of wide_table)) 10000 (5/100) 1 [2, 0]
            = Inr [2, 10000]"
    unfolding harmonics_step_def Let_def gv f by simp
  have "harmonics_needed_table wide_helpers (5/100) =
          (if (2::nat) = 0 then Inl (IndexError ''index 0 is out of bounds'') else Inr [2, 10000])"
    unfolding harmonics_needed_table_def Let_def hf el prod.case n up for_each.simps s1
      err_bind_Inr ..
  then show ?thesis
    by simp
qed

lemma create_harmonics_functions_frame:
  "create_harmonics_functions H S = Inr S' \<Longrightarrow>
     S' = S\<lparr>harmonics_required := harmonics_required S'\<rparr>"
  by (auto simp: create_harmonics_functions_def err_bind_eq_Inr)

lemma harmonics_required_above_grid:
  assumes created: "create_harmonics_functions H S = Inr S'"
    and lims: "e_lims (harmonics_file H) = (e_min, e_max, e_len)"
    and grid: "e_min < e_max" "e_max < 1" "2 \<le> e_len"
    and tab: "harmonics_needed_table H (gw_lum_tol S) = Inr hn"
    and above: "e_max < e"
  shows "harmonics_required S' e = int (Max (set hn))"
proof -
  from create_harmonics_functions_result [OF created] tab have
    len: "length (e_range_of (harmonics_file H)) = length hn"
    and hr: "harmonics_required S' =
             (\<lambda>e. \<lceil>interp1d_call (e_range_of (harmonics_file H)) (map real hn) 2
                     (real (Max (set hn))) e\<rceil>)"
    by auto
  note e = e_range_facts [OF lims grid(1,2)]
  have pos: "0 < e_len"
    using grid(3) by simp
  have srt: "sorted (e_range_of (harmonics_file H))"
    using e(2) by (simp add: strict_sorted_iff)
  have len': "length (e_range_of (harmonics_file H)) = length (map real hn)"
    using len by simp
  show ?thesis
    using above e(3) [OF pos] e(4) [OF grid(3)] grid(1)
    by (simp add: hr interp1d_call_sorted [OF srt len'])
qed

lemma wide_created:
  "\<exists>S'. create_harmonics_functions wide_helpers example_source = Inr S' \<and>
     S' = example_source\<lparr>harmonics_required := harmonics_required S'\<rparr> \<and>
     harmonics_required S' (9/10) = 10000"
proof -
  have tol: "gw_lum_tol example_source = 5/100"
    by (simp add: example_source_def)
  have tab: "harmonics_needed_table wide_helpers (gw_lum_tol example_source) = Inr [2, 10000]"
    unfolding tol by (rule wide_harmonics_needed)
  have "length (e_range_of (harmonics_file wide_helpers)) = 2"
    by (simp add: e_range_of_def wide_helpers_def wide_table_def)
  then obtain S' where c: "create_harmonics_functions wide_helpers example_source = Inr S'"
    by (simp add: create_harmonics_functions_def tab interp1d_def)
  have "harmonics_required S' (9/10) = int (Max (set [2, 10000]))"
    by (rule harmonics_required_above_grid [OF c wide_e_lims _ _ _ tab]) simp_all
  then have "harmonics_required S' (9/10) = 10000"
    by simp
  with c create_harmonics_functions_frame [OF c] show ?thesis
    by blast
qed

lemma example_dropped_source:
  assumes h: "h (9/10) = 10000"
  defines "S1 \<equiv> example_source\<lparr>harmonics_required := h\<rparr>"
  shows "ecc S1 ! 3 = 9/10" "ecc_tol S1 = 1/10"
    "logical_and (map (\<lambda>e. e > ecc_tol S1) (ecc S1)) [False, False, True, True]
       = Inr [False, False, False, True]"
    "map (bucket_match (map (harmonics_required S1) (ecc S1)) [False, False, False, True])
       harmonic_groups = replicate 4 (Inr [False, False, False, False])"
    "get_snr_stationary example_externals S1 4 (Some [False, False, True, True]) = Inr [1, 0]"
    "get_snr_evolving example_externals S1 4 100 (Some [False, False, True, True]) = Inr [3, 0]"
proof -
  show "ecc S1 ! 3 = 9/10" "ecc_tol S1 = 1/10"
    by (simp_all add: S1_def example_source_def)
  show "logical_and (map (\<lambda>e. e > ecc_tol S1) (ecc S1)) [False, False, True, True]
       = Inr [False, False, False, True]"
    by (simp add: S1_def example_source_def logical_and_def)
  show "map (bucket_match (map (harmonics_required S1) (ecc S1)) [False, False, False, True])
       harmonic_groups = replicate 4 (Inr [False, False, False, False])"
    by (simp add: S1_def example_source_def harmonic_groups_def bucket_match_def logical_and_def h
        numeral_eq_Suc)
  show "get_snr_stationary example_externals S1 4 (Some [False, False, True, True]) = Inr [1, 0]"
    by (simp add: S1_def get_snr_stationary_def which_or_all_def snr_stationary_full_def
        example_externals_def example_source_def logical_and_def np_any_def getitem_mask_def
        setitem_mask_def harmonic_groups_def ecc_group_stationary_def bucket_match_def rank_def
        upt_rec h)
  show "get_snr_evolving example_externals S1 4 100 (Some [False, False, True, True]) = Inr [3, 0]"
    by (simp add: S1_def get_snr_evolving_def which_or_all_def snr_evolving_full_def
        example_externals_def example_source_def logical_and_def np_any_def getitem_mask_def
        setitem_mask_def harmonic_groups_def ecc_group_evolving_def bucket_match_def rank_def
        upt_rec h)
qed

text \<open>
  Claim C2 says that sorting the eccentric sources into the harmonic groups \<open>[1, 10)\<close>,
  \<open>[10, 100)\<close>, \<open>[100, 1000)\<close>, \<open>[1000, 10000)\<close> loses no source. The groups are
  half-open and the last one ends before 10000, the largest count the table can ask for
  when its \<^verbatim>\<open>n_max\<close> is 10000. For the small batch with the function
  \<^verbatim>\<open>harmonics_required\<close> built from such a table, the fourth source is eccentric and
  needs 10000 harmonics: it is the one eccentric source among those selected, it is in
  the mask \<^verbatim>\<open>match\<close> of none of the four groups (the membership counts add up to 0, not
  1), no eccentric formula is called, and both \<^verbatim>\<open>get_snr_stationary\<close> and
  \<^verbatim>\<open>get_snr_evolving\<close> return 0 for it.
\<close>

theorem bucketing_drops_source_needing_ten_thousand:
  "\<exists>S'. create_harmonics_functions wide_helpers example_source = Inr S' \<and>
     ecc S' ! 3 > ecc_tol S' \<and>
     harmonics_required S' (ecc S' ! 3) = 10000 \<and>
     logical_and (map (\<lambda>e. e > ecc_tol S') (ecc S')) [False, False, True, True]
       = Inr [False, False, False, True] \<and>
     map (bucket_match (map (harmonics_required S') (ecc S')) [False, False, False, True])
       harmonic_groups = replicate 4 (Inr [False, False, False, False]) \<and>
     get_snr_stationary example_externals S' 4 (Some [False, False, True, True]) = Inr [1, 0] \<and>
     get_snr_evolving example_externals S' 4 100 (Some [False, False, True, True]) = Inr [3, 0]"
proof -
  from wide_created obtain S' where
    c: "create_harmonics_functions wide_helpers example_source = Inr S'"
    and fr: "S' = example_source\<lparr>harmonics_required := harmonics_required S'\<rparr>"
    and h: "harmonics_required S' (9/10) = 10000"
    by blast
  note d = example_dropped_source [of "harmonics_required S'", OF h, folded fr]
  have "ecc S' ! 3 > ecc_tol S'"
    unfolding d(1,2) by simp
  moreover have "harmonics_required S' (ecc S' ! 3) = 10000"
    unfolding d(1) by (rule h)
  ultimately show ?thesis
    using c d(3-6) by blast
qed

section \<open>get_snr\<close>

lemma get_snr_stationary_Inr:
  "w \<noteq> [] \<Longrightarrow> get_snr_stationary X S t_obs (Some w) = Inr vals \<longleftrightarrow>
     (\<exists>full. snr_stationary_full X S t_obs w = Inr full \<and> length w = length full \<and>
        vals = map snd (filter fst (zip w full)))"
  by (simp add: get_snr_stationary_def which_or_all_def err_bind_eq_Inr getitem_mask_Inr)

lemma get_snr_evolving_Inr:
  "w \<noteq> [] \<Longrightarrow> get_snr_evolving X S t_obs n_step (Some w) = Inr vals \<longleftrightarrow>
     (\<exists>full. snr_evolving_full X S t_obs n_step w = Inr full \<and> length w = length full \<and>
        vals = map snd (filter fst (zip w full)))"
  by (simp add: get_snr_evolving_def which_or_all_def err_bind_eq_Inr getitem_mask_Inr)

lemma branch_written:
  assumes "err_bind r (\<lambda>vals. setitem_mask xs msk vals) = Inr ys"
    and "\<And>vals. r = Inr vals \<Longrightarrow>
           \<exists>full. length msk = length full \<and> vals = map snd (filter fst (zip msk full)) \<and> P full vals"
    and "i < length xs" and "msk ! i"
  shows "\<exists>full vals. r = Inr vals \<and> P full vals \<and> length vals = count_true msk \<and>
           ys ! i = vals ! rank msk i \<and> ys ! i = full ! i \<and> length ys = length xs"
proof -
  from assms(1) obtain vals where r: "r = Inr vals" and st: "setitem_mask xs msk vals = Inr ys"
    by (auto simp: err_bind_eq_Inr)
  from assms(2) [OF r] obtain full where full: "length msk = length full"
      "vals = map snd (filter fst (zip msk full))" "P full vals"
    by blast
  have len: "length vals = count_true msk"
    using full select_length [of msk full] by simp
  have lm: "length msk = length xs" "length ys = length xs"
    using setitem_mask_length [OF st] by simp_all
  have "ys ! i = vals ! rank msk i"
    using setitem_mask_write [OF st len assms(3,4)] .
  moreover have "vals ! rank msk i = full ! i"
    using full lm assms(3,4) select_nth [of msk full i] by simp
  ultimately show ?thesis
    using r full len lm by auto
qed


lemma snr_stationary_full_total:
  assumes wf: "well_formed S" and ws: "well_shaped X" and lw: "length which = n_sources S"
  shows "\<exists>full. snr_stationary_full X S t_obs which = Inr full \<and> length full = n_sources S"
proof -
  define ind_ecc where "ind_ecc = map (\<lambda>(x, y). x \<and> y) (zip (map (\<lambda>e. e > ecc_tol S) (ecc S)) which)"
  define ind_circ where "ind_circ = map (\<lambda>(x, y). x \<and> y) (zip (map (\<lambda>e. e \<le> ecc_tol S) (ecc S)) which)"
  define hreq where "hreq = map (harmonics_required S) (ecc S)"
  have le: "length (ecc S) = n_sources S"
    using wf by (simp add: well_formed_def)
  have la: "logical_and (map (\<lambda>e. e > ecc_tol S) (ecc S)) which = Inr ind_ecc"
    "logical_and (map (\<lambda>e. e \<le> ecc_tol S) (ecc S)) which = Inr ind_circ"
    using le lw by (simp_all add: logical_and_same ind_ecc_def ind_circ_def)
  have len: "length ind_ecc = n_sources S" "length ind_circ = n_sources S" "length hreq = n_sources S"
    using le lw by (simp_all add: ind_ecc_def ind_circ_def hreq_def)
  from circ_step_stationary [OF wf ws len(2), of t_obs]
  obtain snr1 where s1: "(if np_any ind_circ then
        err_bind (getitem_mask (m_c S) ind_circ) (\<lambda>mc.
        err_bind (getitem_mask (f_orb S) ind_circ) (\<lambda>fo.
        err_bind (getitem_mask (dist_lum S) ind_circ) (\<lambda>di.
          setitem_mask (replicate (n_sources S) 0) ind_circ
            (snr_circ_stationary X mc fo di t_obs (g_interp S) (sc_interp S)))))
      else Inr (replicate (n_sources S) 0)) = Inr snr1"
    and l1: "length snr1 = n_sources S"
    by blast
  have eq: "snr_stationary_full X S t_obs which =
     (if np_any ind_ecc then for_each (ecc_group_stationary X S t_obs hreq ind_ecc) harmonic_groups snr1
      else Inr snr1)"
    unfolding snr_stationary_full_def Let_def la err_bind_Inr s1 hreq_def ..
  show ?thesis
    unfolding eq
    using ecc_loop_stationary_total [OF wf ws l1 len(1,3), of t_obs harmonic_groups] l1 by simp
qed

lemma snr_evolving_full_total:
  assumes wf: "well_formed S" and ws: "well_shaped X" and lw: "length which = n_sources S"
  shows "\<exists>full. snr_evolving_full X S t_obs n_step which = Inr full \<and> length full = n_sources S"
proof -
  define ind_ecc where "ind_ecc = map (\<lambda>(x, y). x \<and> y) (zip (map (\<lambda>e. e > ecc_tol S) (ecc S)) which)"
  define ind_circ where "ind_circ = map (\<lambda>(x, y). x \<and> y) (zip (map (\<lambda>e. e \<le> ecc_tol S) (ecc S)) which)"
  define hreq where "hreq = map (harmonics_required S) (ecc S)"
  have le: "length (ecc S) = n_sources S"
    using wf by (simp add: well_formed_def)
  have la: "logical_and (map (\<lambda>e. e > ecc_tol S) (ecc S)) which = Inr ind_ecc"
    "logical_and (map (\<lambda>e. e \<le> ecc_tol S) (ecc S)) which = Inr ind_circ"
    using le lw by (simp_all add: logical_and_same ind_ecc_def ind_circ_def)
  have len: "length ind_ecc = n_sources S" "length ind_circ = n_sources S" "length hreq = n_sources S"
    using le lw by (simp_all add: ind_ecc_def ind_circ_def hreq_def)
  from circ_step_evolving [OF wf ws len(2), of t_obs n_step]
  obtain snr1 where s1: "(if np_any ind_circ then
        err_bind (getitem_mask (m_1 S) ind_circ) (\<lambda>m1.
        err_bind (getitem_mask (m_2 S) ind_circ) (\<lambda>m2.
        err_bind (getitem_mask (f_orb S) ind_circ) (\<lambda>fo.
        err_bind (getitem_mask (dist_lum S) ind_circ) (\<lambda>di.
          setitem_mask (replicate (n_sources S) 0) ind_circ
            (snr_circ_evolving X m1 m2 fo di t_obs n_step (g_interp S) (sc_interp S))))))
      else Inr (replicate (n_sources S) 0)) = Inr snr1"
    and l1: "length snr1 = n_sources S"
    by blast
  have eq: "snr_evolving_full X S t_obs n_step which =
     (if np_any ind_ecc then for_each (ecc_group_evolving X S t_obs n_step hreq ind_ecc) harmonic_groups snr1
      else Inr snr1)"
    unfolding snr_evolving_full_def Let_def la err_bind_Inr s1 hreq_def ..
  show ?thesis
    unfolding eq
    using ecc_loop_evolving_total [OF wf ws l1 len(1,3), of t_obs n_step harmonic_groups] l1 by simp
qed

lemma branch_total:
  assumes "\<exists>full. r_full = Inr full \<and> length full = length xs"
    and "length msk = length xs"
    and "\<And>full. r_full = Inr full \<Longrightarrow> r = getitem_mask full msk"
  shows "\<exists>ys. (if np_any msk then err_bind r (\<lambda>vals. setitem_mask xs msk vals) else Inr xs) = Inr ys \<and>
           length ys = length xs"
proof -
  from assms(1) obtain full where f: "r_full = Inr full" "length full = length xs"
    by blast
  have r: "r = Inr (map snd (filter fst (zip msk full)))"
    using assms(3) [OF f(1)] assms(2) f(2) by (simp add: getitem_mask_ok)
  have "length (map snd (filter fst (zip msk full))) = count_true msk"
    by (rule select_length) (use assms(2) f(2) in simp)
  from setitem_mask_selected [OF assms(2) this]
  show ?thesis
    unfolding r by auto
qed

lemma get_snr_returns:
  assumes wf: "well_formed S" and ws: "well_shaped X"
    and shape: "length (determine_stationarity X (m_c S) (f_orb S) t_obs (ecc S) (stat_tol S))
                  = n_sources S"
  shows "\<exists>S' out. get_snr X S t_obs n_step = Inr (S', out)"
proof -
  define sm where "sm = determine_stationarity X (m_c S) (f_orb S) t_obs (ecc S) (stat_tol S)"
  define em where "em = map Not sm"
  define snr0 :: "real list" where "snr0 = replicate (n_sources S) 0"
  have gsm: "get_source_mask X S PyNone (PyBool True) t_obs = Inr sm"
    unfolding sm_def using shape by (rule get_source_mask_stationary)
  have lsm: "length sm = n_sources S" "length em = n_sources S" "length snr0 = n_sources S"
    using shape by (simp_all add: sm_def em_def snr0_def)
  have "\<exists>ys. (if np_any sm then err_bind (get_snr_stationary X S t_obs (Some sm))
                 (\<lambda>vals. setitem_mask snr0 sm vals) else Inr snr0) = Inr ys \<and>
           length ys = length snr0"
    by (rule branch_total [where r_full = "snr_stationary_full X S t_obs sm"])
       (use snr_stationary_full_total [OF wf ws lsm(1), of t_obs] lsm in
          \<open>simp_all add: get_snr_stationary_def which_or_all_def\<close>)
  then obtain snr1 where s1: "(if np_any sm then err_bind (get_snr_stationary X S t_obs (Some sm))
                 (\<lambda>vals. setitem_mask snr0 sm vals) else Inr snr0) = Inr snr1"
    and l1: "length snr1 = n_sources S"
    using lsm by auto
  have "\<exists>ys. (if np_any em then err_bind (get_snr_evolving X S t_obs n_step (Some em))
                 (\<lambda>vals. setitem_mask snr1 em vals) else Inr snr1) = Inr ys \<and>
           length ys = length snr1"
    by (rule branch_total [where r_full = "snr_evolving_full X S t_obs n_step em"])
       (use snr_evolving_full_total [OF wf ws lsm(2), of t_obs n_step] lsm l1 in
          \<open>simp_all add: get_snr_evolving_def which_or_all_def\<close>)
  then obtain snr2 where s2: "(if np_any em then err_bind (get_snr_evolving X S t_obs n_step (Some em))
                 (\<lambda>vals. setitem_mask snr1 em vals) else Inr snr1) = Inr snr2"
    by auto
  have "get_snr X S t_obs n_step =
      err_bind (if np_any sm
          then err_bind (get_snr_stationary X S t_obs (Some sm)) (\<lambda>vals. setitem_mask snr0 sm vals)
          else Inr snr0) (\<lambda>snr1.
      err_bind (if np_any em
          then err_bind (get_snr_evolving X S t_obs n_step (Some em)) (\<lambda>vals. setitem_mask snr1 em vals)
          else Inr snr1) (\<lambda>snr2. Inr (S\<lparr>snr := Some snr2\<rparr>, snr2)))"
    by (simp add: get_snr_def gsm Let_def em_def snr0_def)
  then show ?thesis
    by (simp add: s1 s2)
qed

lemma get_snr_scatter:
  assumes res: "get_snr X S t_obs n_step = Inr (S', out)"
    and shape: "length (determine_stationarity X (m_c S) (f_orb S) t_obs (ecc S) (stat_tol S))
                  = n_sources S"
    and i: "i < n_sources S"
  shows "\<exists>stat_mask evol_mask.
      get_source_mask X S PyNone (PyBool True) t_obs = Inr stat_mask \<and>
      evol_mask = map Not stat_mask \<and>
      length stat_mask = n_sources S \<and> length out = n_sources S \<and> snr S' = Some out \<and>
      (evol_mask ! i \<longleftrightarrow> \<not> stat_mask ! i) \<and>
      (if stat_mask ! i
       then \<exists>full vals.
              snr_stationary_full X S t_obs stat_mask = Inr full \<and>
              get_snr_stationary X S t_obs (Some stat_mask) = Inr vals \<and>
              length vals = count_true stat_mask \<and>
              out ! i = vals ! rank stat_mask i \<and> out ! i = full ! i
       else \<exists>full vals.
              snr_evolving_full X S t_obs n_step evol_mask = Inr full \<and>
              get_snr_evolving X S t_obs n_step (Some evol_mask) = Inr vals \<and>
              length vals = count_true evol_mask \<and>
              out ! i = vals ! rank evol_mask i \<and> out ! i = full ! i)"
proof -
  define sm where "sm = determine_stationarity X (m_c S) (f_orb S) t_obs (ecc S) (stat_tol S)"
  define em where "em = map Not sm"
  define snr0 :: "real list" where "snr0 = replicate (n_sources S) 0"
  have gsm: "get_source_mask X S PyNone (PyBool True) t_obs = Inr sm"
    unfolding sm_def using shape by (rule get_source_mask_stationary)
  have lsm: "length sm = n_sources S" "length em = n_sources S"
    using shape by (simp_all add: sm_def em_def)
  have emi: "em ! i \<longleftrightarrow> \<not> sm ! i"
    using i lsm by (simp add: em_def)
  have ne: "sm \<noteq> []" "em \<noteq> []"
    using i lsm by auto
  have eq: "get_snr X S t_obs n_step =
      err_bind (if np_any sm
          then err_bind (get_snr_stationary X S t_obs (Some sm)) (\<lambda>vals. setitem_mask snr0 sm vals)
          else Inr snr0) (\<lambda>snr1.
      err_bind (if np_any em
          then err_bind (get_snr_evolving X S t_obs n_step (Some em)) (\<lambda>vals. setitem_mask snr1 em vals)
          else Inr snr1) (\<lambda>snr2. Inr (S\<lparr>snr := Some snr2\<rparr>, snr2)))"
    by (simp add: get_snr_def gsm Let_def em_def snr0_def)
  from res [unfolded eq] obtain snr1 where
    s1: "(if np_any sm
          then err_bind (get_snr_stationary X S t_obs (Some sm)) (\<lambda>vals. setitem_mask snr0 sm vals)
          else Inr snr0) = Inr snr1"
    and s2: "(if np_any em
          then err_bind (get_snr_evolving X S t_obs n_step (Some em)) (\<lambda>vals. setitem_mask snr1 em vals)
          else Inr snr1) = Inr out"
    and S': "S' = S\<lparr>snr := Some out\<rparr>"
    by (auto simp: err_bind_eq_Inr)
  have l1: "length snr1 = n_sources S"
    using s1 by (auto simp: snr0_def err_bind_eq_Inr split: if_splits dest: setitem_mask_length)
  have lout: "length out = n_sources S"
    using s2 l1 by (auto simp: err_bind_eq_Inr split: if_splits dest: setitem_mask_length)
  have branch: "if sm ! i
       then \<exists>full vals.
              snr_stationary_full X S t_obs sm = Inr full \<and>
              get_snr_stationary X S t_obs (Some sm) = Inr vals \<and>
              length vals = count_true sm \<and>
              out ! i = vals ! rank sm i \<and> out ! i = full ! i
       else \<exists>full vals.
              snr_evolving_full X S t_obs n_step em = Inr full \<and>
              get_snr_evolving X S t_obs n_step (Some em) = Inr vals \<and>
              length vals = count_true em \<and>
              out ! i = vals ! rank em i \<and> out ! i = full ! i"
  proof (cases "sm ! i")
    case True
    then have "np_any sm"
      using i lsm by (auto simp: np_any_iff)
    with s1 have w: "err_bind (get_snr_stationary X S t_obs (Some sm))
                       (\<lambda>vals. setitem_mask snr0 sm vals) = Inr snr1"
      by simp
    have "\<exists>full vals. get_snr_stationary X S t_obs (Some sm) = Inr vals \<and>
            snr_stationary_full X S t_obs sm = Inr full \<and> length vals = count_true sm \<and>
            snr1 ! i = vals ! rank sm i \<and> snr1 ! i = full ! i \<and> length snr1 = length snr0"
      by (rule branch_written [OF w _ _ True])
         (use i ne in \<open>auto simp: get_snr_stationary_Inr snr0_def\<close>)
    then obtain full vals where f: "get_snr_stationary X S t_obs (Some sm) = Inr vals"
        "snr_stationary_full X S t_obs sm = Inr full" "length vals = count_true sm"
        "snr1 ! i = vals ! rank sm i" "snr1 ! i = full ! i"
      by blast
    have "out ! i = snr1 ! i"
      using s2 emi True i l1
      by (auto simp: err_bind_eq_Inr split: if_splits dest: setitem_mask_keep)
    with f True show ?thesis by auto
  next
    case False
    then have "np_any em"
      using i lsm emi by (auto simp: np_any_iff)
    with s2 have w: "err_bind (get_snr_evolving X S t_obs n_step (Some em))
                       (\<lambda>vals. setitem_mask snr1 em vals) = Inr out"
      by simp
    have "\<exists>full vals. get_snr_evolving X S t_obs n_step (Some em) = Inr vals \<and>
            snr_evolving_full X S t_obs n_step em = Inr full \<and> length vals = count_true em \<and>
            out ! i = vals ! rank em i \<and> out ! i = full ! i \<and> length out = length snr1"
      by (rule branch_written [OF w])
         (use i l1 emi False ne in \<open>auto simp: get_snr_evolving_Inr\<close>)
    with False show ?thesis by auto
  qed
  show ?thesis
    using gsm lsm lout S' emi branch by (auto simp: em_def)
qed


text \<open>
  Claim C1. For every well-formed batch (and collaborators that return one value per
  source), \<^verbatim>\<open>get_snr\<close> returns. It splits the sources with the stationarity mask and its
  elementwise negation, so every source is in exactly one of the two masks; the stationary
  sources are computed by \<^verbatim>\<open>get_snr_stationary\<close>, the evolving ones by
  \<^verbatim>\<open>get_snr_evolving\<close>, and each source's entry of the returned array (also stored in
  \<^verbatim>\<open>self.snr\<close>) is the value its own branch computed for it: the entry at its rank in
  the branch's result, which is the entry at its original position in the branch's array.
\<close>

theorem get_snr_partition_scatter:
  assumes wf: "well_formed S" and ws: "well_shaped X"
    and shape: "length (determine_stationarity X (m_c S) (f_orb S) t_obs (ecc S) (stat_tol S))
                  = n_sources S"
    and i: "i < n_sources S"
  shows "\<exists>S' out stat_mask evol_mask.
      get_snr X S t_obs n_step = Inr (S', out) \<and>
      get_source_mask X S PyNone (PyBool True) t_obs = Inr stat_mask \<and>
      evol_mask = map Not stat_mask \<and>
      length stat_mask = n_sources S \<and> length out = n_sources S \<and> snr S' = Some out \<and>
      (evol_mask ! i \<longleftrightarrow> \<not> stat_mask ! i) \<and>
      (if stat_mask ! i
       then \<exists>full vals.
              snr_stationary_full X S t_obs stat_mask = Inr full \<and>
              get_snr_stationary X S t_obs (Some stat_mask) = Inr vals \<and>
              length vals = count_true stat_mask \<and>
              out ! i = vals ! rank stat_mask i \<and> out ! i = full ! i
       else \<exists>full vals.
              snr_evolving_full X S t_obs n_step evol_mask = Inr full \<and>
              get_snr_evolving X S t_obs n_step (Some evol_mask) = Inr vals \<and>
              length vals = count_true evol_mask \<and>
              out ! i = vals ! rank evol_mask i \<and> out ! i = full ! i)"
proof -
  from get_snr_returns [OF wf ws shape, of n_step] obtain S' out where
    res: "get_snr X S t_obs n_step = Inr (S', out)"
    by blast
  from get_snr_scatter [OF res shape i] res show ?thesis
    by blast
qed

theorem get_snr_partition_scatter_witness:
  "well_formed example_source \<and> well_shaped example_externals \<and>
   length (determine_stationarity example_externals (m_c example_source) (f_orb example_source) 4
     (ecc example_source) (stat_tol example_source)) = n_sources example_source \<and>
   1 < n_sources example_source \<and>
   (\<exists>S' out stat_mask evol_mask.
      get_snr example_externals example_source 4 100 = Inr (S', out) \<and>
      get_source_mask example_externals example_source PyNone (PyBool True) 4 = Inr stat_mask \<and>
      evol_mask = map Not stat_mask \<and>
      length stat_mask = n_sources example_source \<and> length out = n_sources example_source \<and> snr S' = Some out \<and>
      (evol_mask ! 1 \<longleftrightarrow> \<not> stat_mask ! 1) \<and>
      (if stat_mask ! 1
       then \<exists>full vals.
              snr_stationary_full example_externals example_source 4 stat_mask = Inr full \<and>
              get_snr_stationary example_externals example_source 4 (Some stat_mask) = Inr vals \<and>
              length vals = count_true stat_mask \<and>
              out ! 1 = vals ! rank stat_mask 1 \<and> out ! 1 = full ! 1
       else \<exists>full vals.
              snr_evolving_full example_externals example_source 4 100 evol_mask = Inr full \<and>
              get_snr_evolving example_externals example_source 4 100 (Some evol_mask) = Inr vals \<and>
              length vals = count_true evol_mask \<and>
              out ! 1 = vals ! rank evol_mask 1 \<and> out ! 1 = full ! 1))"
proof -
  have h: "length (determine_stationarity example_externals (m_c example_source)
      (f_orb example_source) 4 (ecc example_source) (stat_tol example_source))
        = n_sources example_source"
    "1 < n_sources example_source"
    by (simp_all add: example_stationarity) (simp_all add: example_source_def)
  from get_snr_partition_scatter [OF example_well_formed example_well_shaped h, of 100]
  show ?thesis
    using example_well_formed example_well_shaped h by blast
qed

end
